theory Spec2Isabelle
  imports Complex_Main "HOL-Library.AList"
begin

section \<open>The list widget of \<open>widget/list.go\<close>\<close>

text \<open>
  The development embeds the virtualised list widget: the visible-range computation
  (\<open>visibleItemHeights\<close>), the reconciliation pass of the layout (\<open>updateList\<close>,
  \<open>updateSeparators\<close>, \<open>setupListItem\<close>), and the facade operations (\<open>Select\<close>,
  \<open>Unselect\<close>, \<open>UnselectAll\<close>, \<open>ScrollTo\<close>, \<open>SetItemHeight\<close>, ...).

  Conventions of the embedding.
  \<^item> Go's \<open>float32\<close> is modelled by the exact reals: no rounding, no infinities, no NaN.
    The one place where the source would leave the finite numbers (a division by a padded
    row height of zero) is a failure value of the model.
  \<^item> Go's \<open>int\<close> is modelled by the unbounded integers.
  \<^item> A panic of the source is the left summand of the result (\<open>Inl\<close>); the state at the
    panic is not kept.
  \<^item> Pointers to list items are addresses into a store (\<open>items\<close>); separators are values,
    since the source only ever reaches them through the layout's own slice.
  \<^item> Go maps are association lists read with \<open>map_of\<close> and written with \<open>AList.update\<close>;
    iteration over a map follows the order of the association list.
  \<^item> User callbacks are not executed: a call is recorded in the \<open>trace\<close> of the state.
    \<open>Length\<close> is the value the callback returns, \<open>CreateItem\<close> the minimum size of the
    object it builds; \<open>None\<close> is a nil callback.
  \<^item> The mutexes of the source are not modelled: all operations run on one thread.
\<close>

subsection \<open>Geometry, items and the widget state\<close>

type_synonym ListItemID = int

record Size =
  Width :: real
  Height :: real

record Position =
  X :: real
  Y :: real

datatype failure =
    NilPointerDereference
  | NilInterfaceConversion
  | MakeSliceLenOutOfRange
  | NonFiniteFloat

datatype event =
    LogError
  | UpdateItemCalled ListItemID nat
  | RefreshCalled
  | CanvasRefreshed
  | OnSelectedCalled ListItemID
  | OnUnselectedCalled ListItemID

record listItem =
  onTapped :: "ListItemID option"
  hovered :: bool
  item_selected :: bool
  item_position :: Position
  item_size :: Size

record Separator =
  sep_position :: Position
  sep_size :: Size
  sep_hidden :: bool

datatype canvasObject = ItemObject nat | SeparatorObject Separator

record Scroll =
  Offset :: Position
  scroll_size :: Size
  Objects :: "canvasObject list"

record List =
  Length :: "int option"
  CreateItem :: "Size option"
  UpdateItem :: bool
  OnSelected :: bool
  OnUnselected :: bool
  widget_size :: Size
  scroller :: "Scroll option"
  selected :: "ListItemID list"
  itemMin :: Size
  itemHeights :: "(ListItemID \<times> real) list"
  offsetY :: real
  separators :: "Separator list"
  children :: "nat list"
  itemPool :: "nat list"
  visible :: "(ListItemID \<times> nat) list"
  items :: "nat \<Rightarrow> listItem"
  next_item :: nat
  theme_Padding :: real
  theme_SeparatorThicknessSize :: real
  canvas :: "nat option option"
  trace :: "event list"

text \<open>
  \<open>scroller\<close> is \<open>None\<close> until the renderer has been created; the fields \<open>separators\<close>,
  \<open>children\<close>, \<open>itemPool\<close> and \<open>visible\<close> are those of the \<open>listLayout\<close>, which is
  created together with the scroller. \<open>canvas\<close> is \<open>None\<close> when the driver has no canvas
  for the list, \<open>Some None\<close> when no list item holds the focus, and \<open>Some (Some a)\<close> when
  the item at address \<open>a\<close> does.
\<close>

definition NewSize :: "real \<Rightarrow> real \<Rightarrow> Size" where
  "NewSize w h = \<lparr>Width = w, Height = h\<rparr>"

definition NewPos :: "real \<Rightarrow> real \<Rightarrow> Position" where
  "NewPos x y = \<lparr>X = x, Y = y\<rparr>"

definition newListItem :: listItem where
  "newListItem = \<lparr>onTapped = None, hovered = False, item_selected = False,
     item_position = NewPos 0 0, item_size = NewSize 0 0\<rparr>"

text \<open>
  Modelled from the spec: \<open>NewSeparator\<close> (widget/separator.go) is not under src. A fresh
  separator is a visible object without position or extent.
\<close>

definition NewSeparator :: Separator where
  "NewSeparator = \<lparr>sep_position = NewPos 0 0, sep_size = NewSize 0 0, sep_hidden = False\<rparr>"

definition listLength :: "List \<Rightarrow> int" where
  "listLength l = (case Length l of None \<Rightarrow> 0 | Some n \<Rightarrow> n)"

text \<open>The height of row \<open>i\<close>: its override when there is one, the given default otherwise.\<close>

definition heightOf :: "(ListItemID \<times> real) list \<Rightarrow> real \<Rightarrow> ListItemID \<Rightarrow> real" where
  "heightOf hs itemHeight i = (case map_of hs i of Some h \<Rightarrow> h | None \<Rightarrow> itemHeight)"

subsection \<open>The visible range\<close>

text \<open>
  The scan of the sparse-height path (the \<open>for\<close> loop of \<open>visibleItemHeights\<close>). The loop
  state is \<open>(rowOffset, isVisible, visible, offY, minRow)\<close>.
\<close>

function visibleScan :: "(ListItemID \<times> real) list \<Rightarrow> real \<Rightarrow> real \<Rightarrow> real \<Rightarrow> real \<Rightarrow> int \<Rightarrow> int
    \<Rightarrow> real \<times> bool \<times> real list \<times> real \<times> int \<Rightarrow> real list \<times> real \<times> int" where
  "visibleScan hs itemHeight padding offsetY' viewH length' i (rowOffset, isVisible, visible', offY, minRow) =
   (if i < length' then
      let height = heightOf hs itemHeight i;
          (minRow1, offY1, isVisible1) =
             (if rowOffset \<le> offsetY' - height - padding then (minRow, offY, isVisible)
              else if rowOffset \<le> offsetY' then (i, rowOffset, True)
              else (minRow, offY, isVisible))
      in if rowOffset \<ge> offsetY' + viewH then (visible', offY1, minRow1)
         else visibleScan hs itemHeight padding offsetY' viewH length' (i + 1)
                (rowOffset + height + padding, isVisible1,
                 if isVisible1 then visible' @ [height] else visible', offY1, minRow1)
    else (visible', offY, minRow))"
  by pat_completeness auto
termination
  by (relation "measure (\<lambda>(hs, itemHeight, padding, offsetY', viewH, length', i, st). nat (length' - i))")
     auto

definition visibleItemHeights :: "List \<Rightarrow> real \<Rightarrow> int \<Rightarrow> failure + (real list \<times> real \<times> int)" where
  "visibleItemHeights l itemHeight length' =
   (case scroller l of
      None \<Rightarrow> Inl NilPointerDereference
    | Some sc \<Rightarrow>
        if Height (scroll_size sc) \<le> 0 then Inr ([], 0, 0)
        else
          let padding = theme_Padding l in
          if itemHeights l = [] then
            let paddedItemHeight = itemHeight + padding in
            if paddedItemHeight = 0 then Inl NonFiniteFloat
            else
              let offY = of_int \<lfloor>offsetY l / paddedItemHeight\<rfloor> * paddedItemHeight;
                  minRow = \<lfloor>offY / paddedItemHeight\<rfloor>;
                  maxRow = \<lceil>(offY + Height (scroll_size sc)) / paddedItemHeight\<rceil>;
                  minRow1 = (if minRow > length' - 1 then length' - 1 else minRow);
                  (minRow2, offY2) = (if minRow1 < 0 then (0, 0) else (minRow1, offY));
                  maxRow1 = (if maxRow > length' then length' else maxRow)
              in if maxRow1 - minRow2 < 0 then Inl MakeSliceLenOutOfRange
                 else Inr (replicate (nat (maxRow1 - minRow2)) itemHeight, offY2, minRow2)
          else
            Inr (visibleScan (itemHeights l) itemHeight padding (offsetY l)
                   (Height (scroll_size sc)) length' 0 (0, False, [], 0, 0)))"

subsection \<open>The item pool and the mounted views\<close>

text \<open>
  Modelled from the spec: \<open>syncPool\<close> (widget/pool.go) is not under src. \<open>Obtain\<close> pops
  one idle view if there is one and signals a miss otherwise; \<open>Release\<close> returns a view to
  the idle set.
\<close>

definition Obtain :: "nat list \<Rightarrow> nat option \<times> nat list" where
  "Obtain pool = (case pool of [] \<Rightarrow> (None, []) | a # rest \<Rightarrow> (Some a, rest))"

definition Release :: "nat \<Rightarrow> nat list \<Rightarrow> nat list" where
  "Release a pool = a # pool"

text \<open>
  \<open>getItem\<close>: a pooled view, or a new one from \<open>CreateItem\<close>. With an empty pool and a
  nil \<open>CreateItem\<close> the conversion \<open>item.(*listItem)\<close> of the nil interface panics.
\<close>

definition getItem :: "List \<Rightarrow> failure + (nat \<times> List)" where
  "getItem l =
   (case Obtain (itemPool l) of
      (Some a, rest) \<Rightarrow> Inr (a, l\<lparr>itemPool := rest\<rparr>)
    | (None, rest) \<Rightarrow>
        (case CreateItem l of
           None \<Rightarrow> Inl NilInterfaceConversion
         | Some m \<Rightarrow>
             Inr (next_item l,
                  l\<lparr>itemPool := rest, items := (items l)(next_item l := newListItem),
                    next_item := next_item l + 1\<rparr>)))"

definition moveItem :: "nat \<Rightarrow> Position \<Rightarrow> List \<Rightarrow> List" where
  "moveItem c p l = l\<lparr>items := (items l)(c := (items l c)\<lparr>item_position := p\<rparr>)\<rparr>"

definition resizeItem :: "nat \<Rightarrow> Size \<Rightarrow> List \<Rightarrow> List" where
  "resizeItem c sz l = l\<lparr>items := (items l)(c := (items l c)\<lparr>item_size := sz\<rparr>)\<rparr>"

text \<open>
  The first loop of \<open>updateList\<close>: one view per visible row, reused from \<open>wasVisible\<close> or
  taken from \<open>getItem\<close>, moved to the running offset \<open>y\<close> and resized. The accumulator is
  \<open>(l, visible, cells, y)\<close>; \<open>row\<close> is \<open>index + minRow\<close>.
\<close>

fun mountRows :: "(ListItemID \<times> nat) list \<Rightarrow> real \<Rightarrow> real \<Rightarrow> int \<Rightarrow> real list
    \<Rightarrow> List \<times> (ListItemID \<times> nat) list \<times> nat list \<times> real
    \<Rightarrow> failure + (List \<times> (ListItemID \<times> nat) list \<times> nat list)" where
  "mountRows wasVisible width separatorThickness row [] (l, visible', cells, y) =
     Inr (l, visible', cells)"
| "mountRows wasVisible width separatorThickness row (itemHeight # rest) (l, visible', cells, y) =
     (let size' = NewSize width itemHeight in
      case (case map_of wasVisible row of
              Some c \<Rightarrow> Inr (c, l)
            | None \<Rightarrow>
                (case getItem l of
                   Inl e \<Rightarrow> Inl e
                 | Inr (c, l1) \<Rightarrow> Inr (c, resizeItem c size' l1))) of
        Inl e \<Rightarrow> Inl e
      | Inr (c, l2) \<Rightarrow>
          mountRows wasVisible width separatorThickness (row + 1) rest
            (resizeItem c size' (moveItem c (NewPos 0 y) l2),
             AList.update row c visible', cells @ [c], y + itemHeight + separatorThickness))"

text \<open>
  Modelled from the spec: the focus manager is not under src. Clearing the focus tells the
  item that held it (\<open>FocusLost\<close>, which is under src) and leaves no item focused.
\<close>

definition FocusLost :: "nat \<Rightarrow> List \<Rightarrow> List" where
  "FocusLost a l = l\<lparr>items := (items l)(a := (items l a)\<lparr>hovered := False\<rparr>)\<rparr>"

definition canvas_Focused :: "List \<Rightarrow> nat option" where
  "canvas_Focused l = (case canvas l of None \<Rightarrow> None | Some f \<Rightarrow> f)"

definition canvas_Focus_nil :: "List \<Rightarrow> List" where
  "canvas_Focus_nil l =
   (case canvas_Focused l of
      None \<Rightarrow> l
    | Some a \<Rightarrow> (FocusLost a l)\<lparr>canvas := Some None\<rparr>)"

text \<open>The second loop of \<open>updateList\<close>: views that are no longer mounted go to the pool.\<close>

fun releaseOld :: "(ListItemID \<times> nat) list \<Rightarrow> nat option \<Rightarrow> List \<Rightarrow> List" where
  "releaseOld [] focused l = l"
| "releaseOld ((id', old) # rest) focused l =
     releaseOld rest focused
       (if map_of (visible l) id' = None then
          (let l1 = (if focused = Some old then canvas_Focus_nil l else l)
           in l1\<lparr>itemPool := Release old (itemPool l1)\<rparr>)
        else l)"

subsection \<open>Separators\<close>

text \<open>
  The loop of \<open>updateSeparators\<close> over the children, \<open>i\<close> being the index of the first
  child of the list. Index 0 is skipped; for the others \<open>separators[i]\<close> exists, because
  the slice has been brought to the length of \<open>children\<close> whenever there are two children
  or more.
\<close>

fun placeSeparators :: "List \<Rightarrow> real \<Rightarrow> real \<Rightarrow> nat \<Rightarrow> nat list \<Rightarrow> Separator list \<Rightarrow> Separator list" where
  "placeSeparators l separatorThickness dividerOff i [] seps = seps"
| "placeSeparators l separatorThickness dividerOff i (child # rest) seps =
     placeSeparators l separatorThickness dividerOff (i + 1) rest
       (if i = 0 then seps
        else seps[i := (seps ! i)\<lparr>
               sep_position := NewPos 0 (Y (item_position (items l child)) - dividerOff),
               sep_size := NewSize (Width (widget_size l)) separatorThickness,
               sep_hidden := False\<rparr>])"

definition updateSeparators :: "List \<Rightarrow> List" where
  "updateSeparators l =
   (let seps =
          (if length (children l) > 1 then
             (if length (separators l) > length (children l)
              then take (length (children l)) (separators l)
              else separators l @ replicate (length (children l) - length (separators l)) NewSeparator)
           else []);
        separatorThickness = theme_SeparatorThicknessSize l;
        dividerOff = (theme_Padding l + separatorThickness) / 2
    in l\<lparr>separators := placeSeparators l separatorThickness dividerOff 0 (children l) seps\<rparr>)"

subsection \<open>Reconciliation\<close>

definition setupListItem :: "nat \<Rightarrow> ListItemID \<Rightarrow> bool \<Rightarrow> List \<Rightarrow> List" where
  "setupListItem li id' focus l =
   (let previousIndicator = item_selected (items l li);
        sel = (id' \<in> set (selected l));
        it1 = (items l li)\<lparr>item_selected := sel\<rparr>;
        it2 = (if focus then it1\<lparr>hovered := True\<rparr>
               else if previousIndicator \<noteq> sel \<or> hovered it1 then it1\<lparr>hovered := False\<rparr>
               else it1);
        tr = (if UpdateItem l then trace l @ [UpdateItemCalled id' li] else trace l)
    in l\<lparr>items := (items l)(li := it2\<lparr>onTapped := Some id'\<rparr>), trace := tr\<rparr>)"

fun setupAll :: "(ListItemID \<times> nat) list \<Rightarrow> nat option \<Rightarrow> List \<Rightarrow> List" where
  "setupAll [] focused l = l"
| "setupAll ((row, obj) # rest) focused l =
     setupAll rest focused (setupListItem obj row (focused = Some obj) l)"

definition publish :: "List \<Rightarrow> failure + List" where
  "publish l =
   (case scroller l of
      None \<Rightarrow> Inl NilPointerDereference
    | Some sc \<Rightarrow>
        Inr (l\<lparr>scroller := Some (sc\<lparr>Objects :=
               map ItemObject (children l) @ map SeparatorObject (separators l)\<rparr>)\<rparr>))"

definition updateList :: "bool \<Rightarrow> List \<Rightarrow> failure + List" where
  "updateList refresh l =
   (let separatorThickness = theme_Padding l;
        width = Width (widget_size l);
        length' = listLength l;
        l0 = (if \<not> UpdateItem l then l\<lparr>trace := trace l @ [LogError]\<rparr> else l);
        wasVisible = visible l0
    in case visibleItemHeights l0 (Height (itemMin l0)) length' of
         Inl e \<Rightarrow> Inl e
       | Inr (visibleRowHeights, offY, minRow) \<Rightarrow>
           if visibleRowHeights = [] \<and> length' > 0 then Inr l0
           else
             (case mountRows wasVisible width separatorThickness minRow visibleRowHeights
                     (l0, [], [], offY) of
                Inl e \<Rightarrow> Inl e
              | Inr (l1, visible', cells) \<Rightarrow>
                  (let l2 = l1\<lparr>visible := visible'\<rparr>;
                       focused = canvas_Focused l2;
                       l3 = releaseOld wasVisible focused l2;
                       l4 = updateSeparators (l3\<lparr>children := cells\<rparr>)
                   in (case publish l4 of
                         Inl e \<Rightarrow> Inl e
                       | Inr l5 \<Rightarrow> Inr (setupAll visible' focused l5)))))"

subsection \<open>Scrolling and rendering\<close>

definition offsetUpdated :: "Position \<Rightarrow> List \<Rightarrow> failure + List" where
  "offsetUpdated pos l =
   (if offsetY l = Y pos then Inr l
    else updateList False (l\<lparr>offsetY := Y pos\<rparr>))"

text \<open>
  The offset \<open>y\<close> that \<open>scrollTo\<close> computes for row \<open>id\<close>: a product on the uniform path,
  the sum over the rows \<open>0 .. id - 1\<close> otherwise.
\<close>

definition scrollToY :: "List \<Rightarrow> ListItemID \<Rightarrow> real" where
  "scrollToY l id' =
   (let separatorThickness = theme_Padding l in
    if itemHeights l = [] then
      of_int id' * Height (itemMin l) + of_int id' * separatorThickness
    else
      foldl (\<lambda>y i. y + (heightOf (itemHeights l) (Height (itemMin l)) i + separatorThickness))
        0 [0 .. id' - 1])"

definition scrollTo :: "ListItemID \<Rightarrow> List \<Rightarrow> failure + List" where
  "scrollTo id' l =
   (case scroller l of
      None \<Rightarrow> Inr l
    | Some sc \<Rightarrow>
        let y = scrollToY l id';
            sc1 = (if y < Y (Offset sc) then sc\<lparr>Offset := (Offset sc)\<lparr>Y := y\<rparr>\<rparr>
                   else if y + Height (itemMin l) > Y (Offset sc) + Height (scroll_size sc)
                   then sc\<lparr>Offset := (Offset sc)\<lparr>Y := y + Height (itemMin l) - Height (scroll_size sc)\<rparr>\<rparr>
                   else sc)
        in offsetUpdated (Offset sc1) (l\<lparr>scroller := Some sc1\<rparr>))"

text \<open>
  Modelled from the spec: the scroll container (internal/widget) is not under src.
  Resizing it records the new extent.
\<close>

definition listRenderer_Layout :: "Size \<Rightarrow> List \<Rightarrow> List" where
  "listRenderer_Layout sz l =
   l\<lparr>scroller := map_option (\<lambda>sc. sc\<lparr>scroll_size := sz\<rparr>) (scroller l)\<rparr>"

definition listRenderer_Refresh :: "List \<Rightarrow> failure + List" where
  "listRenderer_Refresh l =
   (let l1 = (case CreateItem l of None \<Rightarrow> l | Some m \<Rightarrow> l\<lparr>itemMin := m\<rparr>);
        l2 = listRenderer_Layout (widget_size l1) l1
    in case updateList True l2 of
         Inl e \<Rightarrow> Inl e
       | Inr l3 \<Rightarrow> Inr (l3\<lparr>trace := trace l3 @ [CanvasRefreshed]\<rparr>))"

text \<open>
  Modelled from the spec: \<open>BaseWidget\<close> (widget/widget.go) is not under src. \<open>Refresh\<close>
  re-renders the widget through its renderer, when one has been created; \<open>Resize\<close> records
  the size and lays the renderer out.
\<close>

definition Refresh :: "List \<Rightarrow> failure + List" where
  "Refresh l =
   (let l1 = l\<lparr>trace := trace l @ [RefreshCalled]\<rparr> in
    case scroller l1 of
      None \<Rightarrow> Inr l1
    | Some sc \<Rightarrow> listRenderer_Refresh l1)"

definition BaseWidget_Resize :: "Size \<Rightarrow> List \<Rightarrow> List" where
  "BaseWidget_Resize s l = listRenderer_Layout s (l\<lparr>widget_size := s\<rparr>)"

definition Resize :: "Size \<Rightarrow> List \<Rightarrow> failure + List" where
  "Resize s l =
   (let l1 = BaseWidget_Resize s l in
    case scroller l1 of
      None \<Rightarrow> Inr l1
    | Some sc \<Rightarrow>
        (case offsetUpdated (Offset sc) l1 of
           Inl e \<Rightarrow> Inl e
         | Inr l2 \<Rightarrow> updateList True l2))"

subsection \<open>Selection and the public operations\<close>

text \<open>
  The deferred function of \<open>Select\<close>: the unselect callback for the old selection, then
  the select callback for the new one.
\<close>

definition selectCallbacks :: "ListItemID list \<Rightarrow> ListItemID \<Rightarrow> List \<Rightarrow> List" where
  "selectCallbacks old id' l =
   (let l1 = (if OnUnselected l \<and> old \<noteq> [] then l\<lparr>trace := trace l @ [OnUnselectedCalled (hd old)]\<rparr>
              else l)
    in if OnSelected l1 then l1\<lparr>trace := trace l1 @ [OnSelectedCalled id']\<rparr> else l1)"

text \<open>The two statements \<open>l.scrollTo(id); l.Refresh()\<close> that end every scrolling operation.\<close>

definition scrollThenRefresh :: "ListItemID \<Rightarrow> List \<Rightarrow> failure + List" where
  "scrollThenRefresh id' l =
   (case scrollTo id' l of
      Inl e \<Rightarrow> Inl e
    | Inr l1 \<Rightarrow> Refresh l1)"

text \<open>
  \<open>Select\<close>. The deferred callbacks run when the function returns, after \<open>scrollTo\<close> and
  \<open>Refresh\<close>.
\<close>

definition Select :: "ListItemID \<Rightarrow> List \<Rightarrow> failure + List" where
  "Select id' l =
   (if selected l \<noteq> [] \<and> id' = hd (selected l) then Inr l
    else if id' < 0 \<or> id' \<ge> listLength l then Inr l
    else
      let old = selected l;
          l1 = l\<lparr>selected := [id']\<rparr>
      in case scrollThenRefresh id' l1 of
           Inl e \<Rightarrow> Inl e
         | Inr l2 \<Rightarrow> Inr (selectCallbacks old id' l2))"

definition ScrollTo :: "ListItemID \<Rightarrow> List \<Rightarrow> failure + List" where
  "ScrollTo id' l =
   (if id' < 0 \<or> id' \<ge> listLength l then Inr l
    else scrollThenRefresh id' l)"

definition ScrollToBottom :: "List \<Rightarrow> failure + List" where
  "ScrollToBottom l =
   (let length' = listLength l;
        length1 = (if length' > 0 then length' - 1 else length')
    in scrollThenRefresh length1 l)"

definition ScrollToTop :: "List \<Rightarrow> failure + List" where
  "ScrollToTop l = scrollThenRefresh 0 l"

definition Unselect :: "ListItemID \<Rightarrow> List \<Rightarrow> failure + List" where
  "Unselect id' l =
   (if selected l = [] \<or> hd (selected l) \<noteq> id' then Inr l
    else
      (case Refresh (l\<lparr>selected := []\<rparr>) of
         Inl e \<Rightarrow> Inl e
       | Inr l1 \<Rightarrow>
           Inr (if OnUnselected l1 then l1\<lparr>trace := trace l1 @ [OnUnselectedCalled id']\<rparr> else l1)))"

definition UnselectAll :: "List \<Rightarrow> failure + List" where
  "UnselectAll l =
   (if selected l = [] then Inr l
    else
      (case Refresh (l\<lparr>selected := []\<rparr>) of
         Inl e \<Rightarrow> Inl e
       | Inr l1 \<Rightarrow>
           Inr (if OnUnselected l1
                then l1\<lparr>trace := trace l1 @ map OnUnselectedCalled (selected l)\<rparr> else l1)))"

text \<open>
  \<open>SetItemHeight\<close>: reading a Go map at an absent key gives the zero value, so the stored
  height compares as 0 when there is no override.
\<close>

definition SetItemHeight :: "ListItemID \<Rightarrow> real \<Rightarrow> List \<Rightarrow> failure + List" where
  "SetItemHeight id' height l =
   (let refresh = (heightOf (itemHeights l) 0 id' \<noteq> height);
        l1 = l\<lparr>itemHeights := AList.update id' height (itemHeights l)\<rparr>
    in if refresh then Refresh l1 else Inr l1)"

text \<open>
  \<open>listItem.Tapped\<close>: the activation closure that \<open>setupListItem\<close> installed selects the
  row the view is bound to.
\<close>

definition Tapped :: "nat \<Rightarrow> List \<Rightarrow> failure + List" where
  "Tapped a l =
   (case onTapped (items l a) of
      None \<Rightarrow> Inr l
    | Some id' \<Rightarrow> Select id' (l\<lparr>items := (items l)(a := (items l a)\<lparr>item_selected := True\<rparr>)\<rparr>))"

text \<open>
  Modelled from the spec: the scroll container reports a user scroll by moving its offset
  and calling \<open>OnScrolled\<close>, which \<open>newListRenderer\<close> has set to \<open>offsetUpdated\<close>.
\<close>

definition Scrolled :: "Position \<Rightarrow> List \<Rightarrow> failure + List" where
  "Scrolled pos l =
   (case scroller l of
      None \<Rightarrow> Inr l
    | Some sc \<Rightarrow> offsetUpdated pos (l\<lparr>scroller := Some (sc\<lparr>Offset := pos\<rparr>)\<rparr>))"

subsection \<open>Construction\<close>

text \<open>
  \<open>NewList\<close> leaves every field at its zero value. The theme constants and the canvas
  belong to the environment and are parameters here.
\<close>

definition NewList :: "int option \<Rightarrow> Size option \<Rightarrow> bool \<Rightarrow> real \<Rightarrow> real \<Rightarrow> nat option option \<Rightarrow> List" where
  "NewList length' createItem updateItem padding separatorThickness cv =
   \<lparr>Length = length', CreateItem = createItem, UpdateItem = updateItem,
    OnSelected = False, OnUnselected = False, widget_size = NewSize 0 0, scroller = None,
    selected = [], itemMin = NewSize 0 0, itemHeights = [], offsetY = 0, separators = [],
    children = [], itemPool = [], visible = [], items = (\<lambda>a. newListItem), next_item = 0,
    theme_Padding = padding, theme_SeparatorThicknessSize = separatorThickness, canvas = cv,
    trace = []\<rparr>"

definition listLayout_MinSize :: "List \<Rightarrow> Size" where
  "listLayout_MinSize l =
   (case Length l of
      None \<Rightarrow> NewSize 0 0
    | Some items' \<Rightarrow>
        let separatorThickness = theme_Padding l in
        if itemHeights l = [] then
          NewSize (Width (itemMin l))
            ((Height (itemMin l) + separatorThickness) * of_int items' - separatorThickness)
        else
          NewSize (Width (itemMin l))
            (foldl (\<lambda>height item. height + heightOf (itemHeights l) (Height (itemMin l)) item)
               0 [0 .. items' - 1]
             + separatorThickness * of_int (items' - 1)))"

text \<open>
  \<open>CreateRenderer\<close>: the template size is measured once, the scroller and the layout are
  created empty, and the content container is resized to its minimum size. Modelled from
  the spec: the container (container.go) is not under src; resizing it runs its layout,
  \<open>updateList\<close>, when the size changes.
\<close>

definition CreateRenderer :: "List \<Rightarrow> failure + List" where
  "CreateRenderer l =
   (let l1 = (case CreateItem l of
                None \<Rightarrow> l
              | Some m \<Rightarrow> if itemMin l = NewSize 0 0 then l\<lparr>itemMin := m\<rparr> else l);
        l2 = l1\<lparr>scroller := Some \<lparr>Offset = NewPos 0 0, scroll_size = NewSize 0 0, Objects = []\<rparr>,
               separators := [], children := [], itemPool := [], visible := []\<rparr>
    in if listLayout_MinSize l2 = NewSize 0 0 then Inr l2 else updateList True l2)"

text \<open>The public operations as one step function.\<close>

datatype operation =
    OpSelect ListItemID
  | OpUnselect ListItemID
  | OpUnselectAll
  | OpScrollTo ListItemID
  | OpScrollToTop
  | OpScrollToBottom
  | OpSetItemHeight ListItemID real
  | OpResize Size
  | OpRefresh
  | OpTapped nat
  | OpScrolled Position
  | OpCreateRenderer

fun perform :: "operation \<Rightarrow> List \<Rightarrow> failure + List" where
  "perform (OpSelect i) l = Select i l"
| "perform (OpUnselect i) l = Unselect i l"
| "perform OpUnselectAll l = UnselectAll l"
| "perform (OpScrollTo i) l = ScrollTo i l"
| "perform OpScrollToTop l = ScrollToTop l"
| "perform OpScrollToBottom l = ScrollToBottom l"
| "perform (OpSetItemHeight i h) l = SetItemHeight i h l"
| "perform (OpResize s) l = Resize s l"
| "perform OpRefresh l = Refresh l"
| "perform (OpTapped a) l = Tapped a l"
| "perform (OpScrolled p) l = Scrolled p l"
| "perform OpCreateRenderer l = CreateRenderer l"

section \<open>Vocabulary for the properties\<close>

text \<open>
  \<open>facade\<close> collects what a reconciliation pass never writes: the callbacks, the
  selection, the template size, the height overrides, the offset, the theme constants and
  the offset and extent of the scroller. \<open>config\<close> is the part of it that scrolling and
  rendering leave alone as well.
\<close>

definition facade :: "List \<Rightarrow> int option \<times> Size option \<times> bool \<times> bool \<times> bool \<times> Size \<times> ListItemID list
    \<times> Size \<times> (ListItemID \<times> real) list \<times> real \<times> real \<times> real \<times> (Position \<times> Size) option" where
  "facade l = (Length l, CreateItem l, UpdateItem l, OnSelected l, OnUnselected l, widget_size l,
     selected l, itemMin l, itemHeights l, offsetY l, theme_Padding l, theme_SeparatorThicknessSize l,
     map_option (\<lambda>sc. (Offset sc, scroll_size sc)) (scroller l))"

definition config :: "List \<Rightarrow> int option \<times> Size option \<times> bool \<times> bool \<times> bool \<times> ListItemID list
    \<times> (ListItemID \<times> real) list \<times> real \<times> real" where
  "config l = (Length l, CreateItem l, UpdateItem l, OnSelected l, OnUnselected l, selected l,
     itemHeights l, theme_Padding l, theme_SeparatorThicknessSize l)"

text \<open>
  Events by kind: \<open>quiet\<close> events are those a reconciliation pass can emit (the
  configuration warning and the calls of \<open>UpdateItem\<close>); \<open>calm\<close> events are all but the
  selection callbacks.
\<close>

definition quiet :: "event list \<Rightarrow> bool" where
  "quiet evs = list_all (\<lambda>e. case e of LogError \<Rightarrow> True | UpdateItemCalled i a \<Rightarrow> True | _ \<Rightarrow> False) evs"

definition calm :: "event list \<Rightarrow> bool" where
  "calm evs = list_all (\<lambda>e. case e of OnSelectedCalled i \<Rightarrow> False | OnUnselectedCalled i \<Rightarrow> False | _ \<Rightarrow> True) evs"

text \<open>The map from the rows \<open>row, row + 1, ...\<close> to the given views, as an association list.\<close>

fun rowsFrom :: "ListItemID \<Rightarrow> nat list \<Rightarrow> (ListItemID \<times> nat) list" where
  "rowsFrom row [] = []"
| "rowsFrom row (c # cs) = (row, c) # rowsFrom (row + 1) cs"

text \<open>
  A separator as \<open>updateSeparators\<close> leaves it for the given child: as wide as the list,
  as high as the theme's separator thickness, and above the child by half of padding plus
  thickness.
\<close>

definition placedSeparator :: "List \<Rightarrow> nat \<Rightarrow> Separator" where
  "placedSeparator l child =
   \<lparr>sep_position = NewPos 0 (Y (item_position (items l child))
        - (theme_Padding l + theme_SeparatorThicknessSize l) / 2),
    sep_size = NewSize (Width (widget_size l)) (theme_SeparatorThicknessSize l),
    sep_hidden = False\<rparr>"

text \<open>
  Rows against the viewport. Row \<open>i\<close> starts at the offset that \<open>scrollTo\<close> computes for
  it and is as high as its override or the template. It intersects the viewport when it
  overlaps \<open>[offsetY, offsetY + height)\<close>, and it is fully visible when it lies within the
  interval that starts at the scroller's offset.
\<close>

definition rowInViewport :: "List \<Rightarrow> ListItemID \<Rightarrow> bool" where
  "rowInViewport l i =
   (case scroller l of
      None \<Rightarrow> False
    | Some sc \<Rightarrow>
        scrollToY l i < offsetY l + Height (scroll_size sc)
        \<and> offsetY l < scrollToY l i + heightOf (itemHeights l) (Height (itemMin l)) i)"

definition rowFullyVisible :: "List \<Rightarrow> ListItemID \<Rightarrow> bool" where
  "rowFullyVisible l i =
   (case scroller l of
      None \<Rightarrow> False
    | Some sc \<Rightarrow>
        Y (Offset sc) \<le> scrollToY l i
        \<and> scrollToY l i + heightOf (itemHeights l) (Height (itemMin l)) i
            \<le> Y (Offset sc) + Height (scroll_size sc))"

text \<open>
  The selection callbacks among a list of events, in the order in which they fired.
\<close>

definition selectionCallbacks :: "event list \<Rightarrow> event list" where
  "selectionCallbacks evs =
     filter (\<lambda>e. case e of OnSelectedCalled i \<Rightarrow> True | OnUnselectedCalled i \<Rightarrow> True | _ \<Rightarrow> False) evs"

text \<open>
  Rows and separators on the canvas. A row is the view at an address: its top is the
  \<open>Y\<close> of its position, its bottom lies its height below. The centre of a separator is
  the middle of its own extent. Views are \<open>stacked\<close> with a gap when each one starts the
  gap below the bottom of the one before it in the list.
\<close>

definition rowTop :: "List \<Rightarrow> nat \<Rightarrow> real" where
  "rowTop l c = Y (item_position (items l c))"

definition rowBottom :: "List \<Rightarrow> nat \<Rightarrow> real" where
  "rowBottom l c = Y (item_position (items l c)) + Height (item_size (items l c))"

definition separatorCentre :: "Separator \<Rightarrow> real" where
  "separatorCentre s = Y (sep_position s) + Height (sep_size s) / 2"

definition stacked :: "List \<Rightarrow> real \<Rightarrow> nat list \<Rightarrow> bool" where
  "stacked l gap cs =
     (\<forall>i. 1 \<le> i \<and> i < length cs \<longrightarrow> rowTop l (cs ! i) = rowBottom l (cs ! (i - 1)) + gap)"

text \<open>
  The layout between two passes. \<open>viewsApart\<close>: the children are the mounted views in
  the order of their rows, no view is mounted twice or mounted and pooled at once, and every
  view has been allocated. \<open>separatorsInStep\<close>: there are as many separators as children
  when there are two children or more and none otherwise, the separator at index 0 is as
  \<open>NewSeparator\<close> made it, and each separator from index 1 on is shown, as high as the
  theme's separator thickness, and centred in the gap of one padding between the child
  before it and the child of its own index. \<open>inStep\<close> is both together.
\<close>

definition viewsApart :: "List \<Rightarrow> bool" where
  "viewsApart l =
     (children l = map snd (visible l)
      \<and> distinct (map snd (visible l) @ itemPool l)
      \<and> (\<forall>a \<in> snd ` set (visible l) \<union> set (itemPool l). a < next_item l))"

definition separatorsInStep :: "List \<Rightarrow> bool" where
  "separatorsInStep l =
     (length (separators l) = (if length (children l) > 1 then length (children l) else 0)
      \<and> (separators l \<noteq> [] \<longrightarrow> separators l ! 0 = NewSeparator)
      \<and> (\<forall>i. 1 \<le> i \<and> i < length (children l) \<longrightarrow>
            \<not> sep_hidden (separators l ! i)
          \<and> Height (sep_size (separators l ! i)) = theme_SeparatorThicknessSize l
          \<and> rowTop l (children l ! i) = rowBottom l (children l ! (i - 1)) + theme_Padding l
          \<and> separatorCentre (separators l ! i)
              = (rowBottom l (children l ! (i - 1)) + rowTop l (children l ! i)) / 2))"

definition inStep :: "List \<Rightarrow> bool" where
  "inStep l = (viewsApart l \<and> separatorsInStep l)"

text \<open>
  The invariant of the first loop of \<open>updateList\<close>, for the old map \<open>wv\<close> and the
  accumulator \<open>(l, v, cells, y)\<close> at row \<open>row\<close>: the views mounted so far are distinct,
  allocated and not pooled, a view taken over from \<open>wv\<close> has its row among the keys of
  \<open>v\<close>, the views are stacked, and the next view goes to \<open>y\<close>.
\<close>

definition mounting :: "(ListItemID \<times> nat) list \<Rightarrow> real \<Rightarrow> ListItemID \<Rightarrow> List
    \<Rightarrow> (ListItemID \<times> nat) list \<Rightarrow> nat list \<Rightarrow> real \<Rightarrow> bool" where
  "mounting wv gap row l v cells y =
     (distinct (map snd wv) \<and> distinct (itemPool l) \<and> distinct cells
      \<and> set cells \<inter> set (itemPool l) = {}
      \<and> snd ` set wv \<inter> set (itemPool l) = {}
      \<and> (\<forall>a \<in> snd ` set wv \<union> set (itemPool l) \<union> set cells. a < next_item l)
      \<and> (\<forall>k \<in> fst ` set v. k < row)
      \<and> (\<forall>(k, a) \<in> set wv. a \<in> set cells \<longrightarrow> k \<in> fst ` set v)
      \<and> stacked l gap cells
      \<and> (cells \<noteq> [] \<longrightarrow> rowBottom l (last cells) + gap = y))"

text \<open>Running a sequence of operations; a panic ends the run.\<close>

fun performAll :: "operation list \<Rightarrow> List \<Rightarrow> failure + List" where
  "performAll [] l = Inr l"
| "performAll (op # ops) l = (case perform op l of Inl e \<Rightarrow> Inl e | Inr l1 \<Rightarrow> performAll ops l1)"

subsection \<open>Example states\<close>

text \<open>
  A list of 100 rows with a template of 80 by 20, padding 1 and separator thickness 1, and
  both selection callbacks set; then the states it goes through when its renderer is
  created, when it is resized to 200 by 50, and under the operations named in the lemmas
  \<open>run_*\<close> below.
\<close>

definition demoList :: List where
  "demoList = (NewList (Some 100) (Some (NewSize 80 20)) True 1 1 (Some None))
     \<lparr>OnSelected := True, OnUnselected := True\<rparr>"

definition demoCreated :: List where
  "demoCreated = \<lparr>
     Length = Some 100,
     CreateItem = Some (NewSize 80 20),
     UpdateItem = True,
     OnSelected = True,
     OnUnselected = True,
     widget_size = NewSize 0 0,
     scroller = Some \<lparr>Offset = \<lparr>X = 0, Y = 0\<rparr>,
         scroll_size = \<lparr>Width = 0, Height = 0\<rparr>, Objects = []\<rparr>,
     selected = [],
     itemMin = \<lparr>Width = 80, Height = 20\<rparr>,
     itemHeights = [],
     offsetY = 0,
     separators = [],
     children = [],
     itemPool = [],
     visible = [],
     items = (\<lambda>a. newListItem),
     next_item = 0,
     theme_Padding = 1,
     theme_SeparatorThicknessSize = 1,
     canvas = Some None,
     trace = []\<rparr>"

definition demoRendered :: List where
  "demoRendered = \<lparr>
     Length = Some 100,
     CreateItem = Some (NewSize 80 20),
     UpdateItem = True,
     OnSelected = True,
     OnUnselected = True,
     widget_size = \<lparr>Width = 200, Height = 50\<rparr>,
     scroller = Some \<lparr>Offset = \<lparr>X = 0, Y = 0\<rparr>,
         scroll_size = \<lparr>Width = 200, Height = 50\<rparr>, Objects = [ItemObject 0,
         ItemObject (1), ItemObject (2), SeparatorObject \<lparr>sep_position = \<lparr>X = 0,
         Y = 0\<rparr>, sep_size = \<lparr>Width = 0, Height = 0\<rparr>,
         sep_hidden = False\<rparr>, SeparatorObject \<lparr>sep_position = \<lparr>X = 0,
         Y = 20\<rparr>, sep_size = \<lparr>Width = 200, Height = 1\<rparr>,
         sep_hidden = False\<rparr>, SeparatorObject \<lparr>sep_position = \<lparr>X = 0,
         Y = 41\<rparr>, sep_size = \<lparr>Width = 200, Height = 1\<rparr>,
         sep_hidden = False\<rparr>]\<rparr>,
     selected = [],
     itemMin = \<lparr>Width = 80, Height = 20\<rparr>,
     itemHeights = [],
     offsetY = 0,
     separators = [\<lparr>sep_position = \<lparr>X = 0, Y = 0\<rparr>,
         sep_size = \<lparr>Width = 0, Height = 0\<rparr>, sep_hidden = False\<rparr>,
         \<lparr>sep_position = \<lparr>X = 0, Y = 20\<rparr>, sep_size = \<lparr>Width = 200,
         Height = 1\<rparr>, sep_hidden = False\<rparr>, \<lparr>sep_position = \<lparr>X = 0,
         Y = 41\<rparr>, sep_size = \<lparr>Width = 200, Height = 1\<rparr>,
         sep_hidden = False\<rparr>],
     children = [0, 1, 2],
     itemPool = [],
     visible = [(0, 0), (1, 1), (2, 2)],
     items = (\<lambda>a. \<lparr>onTapped = None, hovered = False, item_selected = False,
         item_position = \<lparr>X = 0, Y = 0\<rparr>, item_size = \<lparr>Width = 0,
         Height = 0\<rparr>\<rparr>) (0 := \<lparr>onTapped = Some 0, hovered = False,
         item_selected = False, item_position = \<lparr>X = 0, Y = 0\<rparr>,
         item_size = \<lparr>Width = 200, Height = 20\<rparr>\<rparr>,
         1 := \<lparr>onTapped = Some 1, hovered = False, item_selected = False,
         item_position = \<lparr>X = 0, Y = 21\<rparr>, item_size = \<lparr>Width = 200,
         Height = 20\<rparr>\<rparr>, 2 := \<lparr>onTapped = Some 2, hovered = False,
         item_selected = False, item_position = \<lparr>X = 0, Y = 42\<rparr>,
         item_size = \<lparr>Width = 200, Height = 20\<rparr>\<rparr>),
     next_item = 3,
     theme_Padding = 1,
     theme_SeparatorThicknessSize = 1,
     canvas = Some None,
     trace = [UpdateItemCalled 0 0, UpdateItemCalled 1 (1), UpdateItemCalled 2 (2)]\<rparr>"

definition demoSelected0 :: List where
  "demoSelected0 = \<lparr>
     Length = Some 100,
     CreateItem = Some (NewSize 80 20),
     UpdateItem = True,
     OnSelected = True,
     OnUnselected = True,
     widget_size = \<lparr>Width = 200, Height = 50\<rparr>,
     scroller = Some \<lparr>Offset = \<lparr>X = 0, Y = 0\<rparr>,
         scroll_size = \<lparr>Width = 200, Height = 50\<rparr>, Objects = [ItemObject 0,
         ItemObject (1), ItemObject 2, SeparatorObject \<lparr>sep_position = \<lparr>X = 0,
         Y = 0\<rparr>, sep_size = \<lparr>Width = 0, Height = 0\<rparr>,
         sep_hidden = False\<rparr>, SeparatorObject \<lparr>sep_position = \<lparr>X = 0,
         Y = 20\<rparr>, sep_size = \<lparr>Width = 200, Height = 1\<rparr>,
         sep_hidden = False\<rparr>, SeparatorObject \<lparr>sep_position = \<lparr>X = 0,
         Y = 41\<rparr>, sep_size = \<lparr>Width = 200, Height = 1\<rparr>,
         sep_hidden = False\<rparr>]\<rparr>,
     selected = [0],
     itemMin = \<lparr>Width = 80, Height = 20\<rparr>,
     itemHeights = [],
     offsetY = 0,
     separators = [\<lparr>sep_position = \<lparr>X = 0, Y = 0\<rparr>,
         sep_size = \<lparr>Width = 0, Height = 0\<rparr>, sep_hidden = False\<rparr>,
         \<lparr>sep_position = \<lparr>X = 0, Y = 20\<rparr>, sep_size = \<lparr>Width = 200,
         Height = 1\<rparr>, sep_hidden = False\<rparr>, \<lparr>sep_position = \<lparr>X = 0,
         Y = 41\<rparr>, sep_size = \<lparr>Width = 200, Height = 1\<rparr>,
         sep_hidden = False\<rparr>],
     children = [0, 1, 2],
     itemPool = [],
     visible = [(0, 0), (1, 1), (2, 2)],
     items = (\<lambda>a. \<lparr>onTapped = None, hovered = False, item_selected = False,
         item_position = \<lparr>X = 0, Y = 0\<rparr>, item_size = \<lparr>Width = 0,
         Height = 0\<rparr>\<rparr>) (0 := \<lparr>onTapped = Some 0, hovered = False,
         item_selected = True, item_position = \<lparr>X = 0, Y = 0\<rparr>,
         item_size = \<lparr>Width = 200, Height = 20\<rparr>\<rparr>,
         1 := \<lparr>onTapped = Some 1, hovered = False, item_selected = False,
         item_position = \<lparr>X = 0, Y = 21\<rparr>, item_size = \<lparr>Width = 200,
         Height = 20\<rparr>\<rparr>, 2 := \<lparr>onTapped = Some 2, hovered = False,
         item_selected = False, item_position = \<lparr>X = 0, Y = 42\<rparr>,
         item_size = \<lparr>Width = 200, Height = 20\<rparr>\<rparr>),
     next_item = 3,
     theme_Padding = 1,
     theme_SeparatorThicknessSize = 1,
     canvas = Some None,
     trace = [UpdateItemCalled 0 0, UpdateItemCalled 1 (1), UpdateItemCalled 2 2, RefreshCalled,
         UpdateItemCalled 0 0, UpdateItemCalled 1 (1), UpdateItemCalled 2 2, CanvasRefreshed,
         OnSelectedCalled 0]\<rparr>"

definition demoSelected1 :: List where
  "demoSelected1 = \<lparr>
     Length = Some 100,
     CreateItem = Some (NewSize 80 20),
     UpdateItem = True,
     OnSelected = True,
     OnUnselected = True,
     widget_size = \<lparr>Width = 200, Height = 50\<rparr>,
     scroller = Some \<lparr>Offset = \<lparr>X = 0, Y = 0\<rparr>,
         scroll_size = \<lparr>Width = 200, Height = 50\<rparr>, Objects = [ItemObject 0,
         ItemObject (1), ItemObject 2, SeparatorObject \<lparr>sep_position = \<lparr>X = 0,
         Y = 0\<rparr>, sep_size = \<lparr>Width = 0, Height = 0\<rparr>,
         sep_hidden = False\<rparr>, SeparatorObject \<lparr>sep_position = \<lparr>X = 0,
         Y = 20\<rparr>, sep_size = \<lparr>Width = 200, Height = 1\<rparr>,
         sep_hidden = False\<rparr>, SeparatorObject \<lparr>sep_position = \<lparr>X = 0,
         Y = 41\<rparr>, sep_size = \<lparr>Width = 200, Height = 1\<rparr>,
         sep_hidden = False\<rparr>]\<rparr>,
     selected = [1],
     itemMin = \<lparr>Width = 80, Height = 20\<rparr>,
     itemHeights = [],
     offsetY = 0,
     separators = [\<lparr>sep_position = \<lparr>X = 0, Y = 0\<rparr>,
         sep_size = \<lparr>Width = 0, Height = 0\<rparr>, sep_hidden = False\<rparr>,
         \<lparr>sep_position = \<lparr>X = 0, Y = 20\<rparr>, sep_size = \<lparr>Width = 200,
         Height = 1\<rparr>, sep_hidden = False\<rparr>, \<lparr>sep_position = \<lparr>X = 0,
         Y = 41\<rparr>, sep_size = \<lparr>Width = 200, Height = 1\<rparr>,
         sep_hidden = False\<rparr>],
     children = [0, 1, 2],
     itemPool = [],
     visible = [(0, 0), (1, 1), (2, 2)],
     items = (\<lambda>a. \<lparr>onTapped = None, hovered = False, item_selected = False,
         item_position = \<lparr>X = 0, Y = 0\<rparr>, item_size = \<lparr>Width = 0,
         Height = 0\<rparr>\<rparr>) (0 := \<lparr>onTapped = Some 0, hovered = False,
         item_selected = False, item_position = \<lparr>X = 0, Y = 0\<rparr>,
         item_size = \<lparr>Width = 200, Height = 20\<rparr>\<rparr>,
         1 := \<lparr>onTapped = Some 1, hovered = False, item_selected = True,
         item_position = \<lparr>X = 0, Y = 21\<rparr>, item_size = \<lparr>Width = 200,
         Height = 20\<rparr>\<rparr>, 2 := \<lparr>onTapped = Some 2, hovered = False,
         item_selected = False, item_position = \<lparr>X = 0, Y = 42\<rparr>,
         item_size = \<lparr>Width = 200, Height = 20\<rparr>\<rparr>),
     next_item = 3,
     theme_Padding = 1,
     theme_SeparatorThicknessSize = 1,
     canvas = Some None,
     trace = [UpdateItemCalled 0 0, UpdateItemCalled 1 (1), UpdateItemCalled 2 2, RefreshCalled,
         UpdateItemCalled 0 0, UpdateItemCalled 1 (1), UpdateItemCalled 2 2, CanvasRefreshed,
         OnSelectedCalled 0, RefreshCalled, UpdateItemCalled 0 0, UpdateItemCalled 1 (1),
         UpdateItemCalled 2 2, CanvasRefreshed, OnUnselectedCalled 0, OnSelectedCalled 1]\<rparr>"

definition demoOverride :: List where
  "demoOverride = \<lparr>
     Length = Some 100,
     CreateItem = Some (NewSize 80 20),
     UpdateItem = True,
     OnSelected = True,
     OnUnselected = True,
     widget_size = \<lparr>Width = 200, Height = 50\<rparr>,
     scroller = Some \<lparr>Offset = \<lparr>X = 0, Y = 0\<rparr>,
         scroll_size = \<lparr>Width = 200, Height = 50\<rparr>, Objects = [ItemObject 0,
         ItemObject (1), ItemObject 2, SeparatorObject \<lparr>sep_position = \<lparr>X = 0,
         Y = 0\<rparr>, sep_size = \<lparr>Width = 0, Height = 0\<rparr>,
         sep_hidden = False\<rparr>, SeparatorObject \<lparr>sep_position = \<lparr>X = 0,
         Y = 20\<rparr>, sep_size = \<lparr>Width = 200, Height = 1\<rparr>,
         sep_hidden = False\<rparr>, SeparatorObject \<lparr>sep_position = \<lparr>X = 0,
         Y = 41\<rparr>, sep_size = \<lparr>Width = 200, Height = 1\<rparr>,
         sep_hidden = False\<rparr>]\<rparr>,
     selected = [],
     itemMin = \<lparr>Width = 80, Height = 20\<rparr>,
     itemHeights = [(5, 40)],
     offsetY = 0,
     separators = [\<lparr>sep_position = \<lparr>X = 0, Y = 0\<rparr>,
         sep_size = \<lparr>Width = 0, Height = 0\<rparr>, sep_hidden = False\<rparr>,
         \<lparr>sep_position = \<lparr>X = 0, Y = 20\<rparr>, sep_size = \<lparr>Width = 200,
         Height = 1\<rparr>, sep_hidden = False\<rparr>, \<lparr>sep_position = \<lparr>X = 0,
         Y = 41\<rparr>, sep_size = \<lparr>Width = 200, Height = 1\<rparr>,
         sep_hidden = False\<rparr>],
     children = [0, 1, 2],
     itemPool = [],
     visible = [(0, 0), (1, 1), (2, 2)],
     items = (\<lambda>a. \<lparr>onTapped = None, hovered = False, item_selected = False,
         item_position = \<lparr>X = 0, Y = 0\<rparr>, item_size = \<lparr>Width = 0,
         Height = 0\<rparr>\<rparr>) (0 := \<lparr>onTapped = Some 0, hovered = False,
         item_selected = False, item_position = \<lparr>X = 0, Y = 0\<rparr>,
         item_size = \<lparr>Width = 200, Height = 20\<rparr>\<rparr>,
         1 := \<lparr>onTapped = Some 1, hovered = False, item_selected = False,
         item_position = \<lparr>X = 0, Y = 21\<rparr>, item_size = \<lparr>Width = 200,
         Height = 20\<rparr>\<rparr>, 2 := \<lparr>onTapped = Some 2, hovered = False,
         item_selected = False, item_position = \<lparr>X = 0, Y = 42\<rparr>,
         item_size = \<lparr>Width = 200, Height = 20\<rparr>\<rparr>),
     next_item = 3,
     theme_Padding = 1,
     theme_SeparatorThicknessSize = 1,
     canvas = Some None,
     trace = [UpdateItemCalled 0 0, UpdateItemCalled 1 (1), UpdateItemCalled 2 2, RefreshCalled,
         UpdateItemCalled 0 0, UpdateItemCalled 1 (1), UpdateItemCalled 2 2,
         CanvasRefreshed]\<rparr>"

definition demoScrolled :: List where
  "demoScrolled = \<lparr>
     Length = Some 100,
     CreateItem = Some (NewSize 80 20),
     UpdateItem = True,
     OnSelected = True,
     OnUnselected = True,
     widget_size = \<lparr>Width = 200, Height = 50\<rparr>,
     scroller = Some \<lparr>Offset = \<lparr>X = 0, Y = 20\<rparr>,
         scroll_size = \<lparr>Width = 200, Height = 50\<rparr>, Objects = [ItemObject 0,
         ItemObject (1), ItemObject 2, SeparatorObject \<lparr>sep_position = \<lparr>X = 0,
         Y = 0\<rparr>, sep_size = \<lparr>Width = 0, Height = 0\<rparr>,
         sep_hidden = False\<rparr>, SeparatorObject \<lparr>sep_position = \<lparr>X = 0,
         Y = 20\<rparr>, sep_size = \<lparr>Width = 200, Height = 1\<rparr>,
         sep_hidden = False\<rparr>, SeparatorObject \<lparr>sep_position = \<lparr>X = 0,
         Y = 41\<rparr>, sep_size = \<lparr>Width = 200, Height = 1\<rparr>,
         sep_hidden = False\<rparr>]\<rparr>,
     selected = [],
     itemMin = \<lparr>Width = 80, Height = 20\<rparr>,
     itemHeights = [],
     offsetY = 20,
     separators = [\<lparr>sep_position = \<lparr>X = 0, Y = 0\<rparr>,
         sep_size = \<lparr>Width = 0, Height = 0\<rparr>, sep_hidden = False\<rparr>,
         \<lparr>sep_position = \<lparr>X = 0, Y = 20\<rparr>, sep_size = \<lparr>Width = 200,
         Height = 1\<rparr>, sep_hidden = False\<rparr>, \<lparr>sep_position = \<lparr>X = 0,
         Y = 41\<rparr>, sep_size = \<lparr>Width = 200, Height = 1\<rparr>,
         sep_hidden = False\<rparr>],
     children = [0, 1, 2],
     itemPool = [],
     visible = [(0, 0), (1, 1), (2, 2)],
     items = (\<lambda>a. \<lparr>onTapped = None, hovered = False, item_selected = False,
         item_position = \<lparr>X = 0, Y = 0\<rparr>, item_size = \<lparr>Width = 0,
         Height = 0\<rparr>\<rparr>) (0 := \<lparr>onTapped = Some 0, hovered = False,
         item_selected = False, item_position = \<lparr>X = 0, Y = 0\<rparr>,
         item_size = \<lparr>Width = 200, Height = 20\<rparr>\<rparr>,
         1 := \<lparr>onTapped = Some 1, hovered = False, item_selected = False,
         item_position = \<lparr>X = 0, Y = 21\<rparr>, item_size = \<lparr>Width = 200,
         Height = 20\<rparr>\<rparr>, 2 := \<lparr>onTapped = Some 2, hovered = False,
         item_selected = False, item_position = \<lparr>X = 0, Y = 42\<rparr>,
         item_size = \<lparr>Width = 200, Height = 20\<rparr>\<rparr>),
     next_item = 3,
     theme_Padding = 1,
     theme_SeparatorThicknessSize = 1,
     canvas = Some None,
     trace = [UpdateItemCalled 0 0, UpdateItemCalled 1 (1), UpdateItemCalled 2 2,
         UpdateItemCalled 0 0, UpdateItemCalled 1 (1), UpdateItemCalled 2 2]\<rparr>"

definition demoScrolledTo5 :: List where
  "demoScrolledTo5 = \<lparr>
     Length = Some 100,
     CreateItem = Some (NewSize 80 20),
     UpdateItem = True,
     OnSelected = True,
     OnUnselected = True,
     widget_size = \<lparr>Width = 200, Height = 50\<rparr>,
     scroller = Some \<lparr>Offset = \<lparr>X = 0, Y = 75\<rparr>,
         scroll_size = \<lparr>Width = 200, Height = 50\<rparr>, Objects = [ItemObject 3,
         ItemObject 4, ItemObject 5, SeparatorObject \<lparr>sep_position = \<lparr>X = 0,
         Y = 0\<rparr>, sep_size = \<lparr>Width = 0, Height = 0\<rparr>,
         sep_hidden = False\<rparr>, SeparatorObject \<lparr>sep_position = \<lparr>X = 0,
         Y = 83\<rparr>, sep_size = \<lparr>Width = 200, Height = 1\<rparr>,
         sep_hidden = False\<rparr>, SeparatorObject \<lparr>sep_position = \<lparr>X = 0,
         Y = 104\<rparr>, sep_size = \<lparr>Width = 200, Height = 1\<rparr>,
         sep_hidden = False\<rparr>]\<rparr>,
     selected = [],
     itemMin = \<lparr>Width = 80, Height = 20\<rparr>,
     itemHeights = [(5, 40)],
     offsetY = 75,
     separators = [\<lparr>sep_position = \<lparr>X = 0, Y = 0\<rparr>,
         sep_size = \<lparr>Width = 0, Height = 0\<rparr>, sep_hidden = False\<rparr>,
         \<lparr>sep_position = \<lparr>X = 0, Y = 83\<rparr>, sep_size = \<lparr>Width = 200,
         Height = 1\<rparr>, sep_hidden = False\<rparr>, \<lparr>sep_position = \<lparr>X = 0,
         Y = 104\<rparr>, sep_size = \<lparr>Width = 200, Height = 1\<rparr>,
         sep_hidden = False\<rparr>],
     children = [3, 4, 5],
     itemPool = [2, 1, 0],
     visible = [(3, 3), (4, 4), (5, 5)],
     items = (\<lambda>a. \<lparr>onTapped = None, hovered = False, item_selected = False,
         item_position = \<lparr>X = 0, Y = 0\<rparr>, item_size = \<lparr>Width = 0,
         Height = 0\<rparr>\<rparr>) (0 := \<lparr>onTapped = Some 0, hovered = False,
         item_selected = False, item_position = \<lparr>X = 0, Y = 0\<rparr>,
         item_size = \<lparr>Width = 200, Height = 20\<rparr>\<rparr>,
         1 := \<lparr>onTapped = Some 1, hovered = False, item_selected = False,
         item_position = \<lparr>X = 0, Y = 21\<rparr>, item_size = \<lparr>Width = 200,
         Height = 20\<rparr>\<rparr>, 2 := \<lparr>onTapped = Some 2, hovered = False,
         item_selected = False, item_position = \<lparr>X = 0, Y = 42\<rparr>,
         item_size = \<lparr>Width = 200, Height = 20\<rparr>\<rparr>,
         3 := \<lparr>onTapped = Some 3, hovered = False, item_selected = False,
         item_position = \<lparr>X = 0, Y = 63\<rparr>, item_size = \<lparr>Width = 200,
         Height = 20\<rparr>\<rparr>, 4 := \<lparr>onTapped = Some 4, hovered = False,
         item_selected = False, item_position = \<lparr>X = 0, Y = 84\<rparr>,
         item_size = \<lparr>Width = 200, Height = 20\<rparr>\<rparr>,
         5 := \<lparr>onTapped = Some 5, hovered = False, item_selected = False,
         item_position = \<lparr>X = 0, Y = 105\<rparr>, item_size = \<lparr>Width = 200,
         Height = 40\<rparr>\<rparr>),
     next_item = 6,
     theme_Padding = 1,
     theme_SeparatorThicknessSize = 1,
     canvas = Some None,
     trace = [UpdateItemCalled 0 0, UpdateItemCalled 1 (1), UpdateItemCalled 2 2, RefreshCalled,
         UpdateItemCalled 0 0, UpdateItemCalled 1 (1), UpdateItemCalled 2 2, CanvasRefreshed,
         UpdateItemCalled 3 3, UpdateItemCalled 4 4, UpdateItemCalled 5 5, RefreshCalled,
         UpdateItemCalled 3 3, UpdateItemCalled 4 4, UpdateItemCalled 5 5,
         CanvasRefreshed]\<rparr>"

section \<open>Properties\<close>

subsection \<open>What reconciliation leaves alone\<close>

lemma facade_updates [simp]:
  "facade (l\<lparr>itemPool := p\<rparr>) = facade l"
  "facade (l\<lparr>items := its\<rparr>) = facade l"
  "facade (l\<lparr>next_item := n\<rparr>) = facade l"
  "facade (l\<lparr>visible := v\<rparr>) = facade l"
  "facade (l\<lparr>children := cs\<rparr>) = facade l"
  "facade (l\<lparr>separators := ss\<rparr>) = facade l"
  "facade (l\<lparr>canvas := cv\<rparr>) = facade l"
  "facade (l\<lparr>trace := tr\<rparr>) = facade l"
  by (simp_all add: facade_def)

lemma facade_fields:
  assumes "facade l' = facade l"
  shows "Length l' = Length l" "CreateItem l' = CreateItem l" "UpdateItem l' = UpdateItem l"
    "OnSelected l' = OnSelected l" "OnUnselected l' = OnUnselected l"
    "widget_size l' = widget_size l" "selected l' = selected l" "itemMin l' = itemMin l"
    "itemHeights l' = itemHeights l" "offsetY l' = offsetY l" "theme_Padding l' = theme_Padding l"
    "theme_SeparatorThicknessSize l' = theme_SeparatorThicknessSize l"
    "listLength l' = listLength l"
    "map_option (\<lambda>sc. (Offset sc, scroll_size sc)) (scroller l')
       = map_option (\<lambda>sc. (Offset sc, scroll_size sc)) (scroller l)"
  using assms by (simp_all add: facade_def listLength_def)

lemma visibleItemHeights_facade:
  assumes "facade l' = facade l"
  shows "visibleItemHeights l' h n = visibleItemHeights l h n"
proof (cases "scroller l")
  case None
  with facade_fields(14)[OF assms] have "scroller l' = None" by simp
  with None show ?thesis by (simp add: visibleItemHeights_def)
next
  case (Some sc)
  with facade_fields(14)[OF assms] obtain sc' where s': "scroller l' = Some sc'"
    and sz: "scroll_size sc' = scroll_size sc" by auto
  show ?thesis
    using Some s' sz facade_fields(9,10,11)[OF assms]
    by (simp add: visibleItemHeights_def Let_def)
qed

lemma quiet_simps [simp]:
  "quiet []" "quiet (xs @ ys) = (quiet xs \<and> quiet ys)"
  "quiet [LogError]" "quiet [UpdateItemCalled i a]"
  by (simp_all add: quiet_def)

lemma getItem_facade: "getItem l = Inr (c, l') \<Longrightarrow> facade l' = facade l"
  by (auto simp: getItem_def Obtain_def split: list.splits option.splits)

lemma getItem_layout:
  "getItem l = Inr (c, l') \<Longrightarrow>
     trace l' = trace l \<and> visible l' = visible l \<and> canvas l' = canvas l"
  by (auto simp: getItem_def Obtain_def split: list.splits option.splits)

lemma moveItem_simps [simp]:
  "facade (moveItem c p l) = facade l" "trace (moveItem c p l) = trace l"
  "visible (moveItem c p l) = visible l" "canvas (moveItem c p l) = canvas l"
  "itemPool (moveItem c p l) = itemPool l" "next_item (moveItem c p l) = next_item l"
  by (simp_all add: moveItem_def)

lemma resizeItem_simps [simp]:
  "facade (resizeItem c sz l) = facade l" "trace (resizeItem c sz l) = trace l"
  "visible (resizeItem c sz l) = visible l" "canvas (resizeItem c sz l) = canvas l"
  "itemPool (resizeItem c sz l) = itemPool l" "next_item (resizeItem c sz l) = next_item l"
  by (simp_all add: resizeItem_def)

lemma mountRows_facade:
  "mountRows wv w st row hs (l, v, cells, y) = Inr (l', v', cells') \<Longrightarrow>
     facade l' = facade l \<and> trace l' = trace l \<and> visible l' = visible l \<and> canvas l' = canvas l"
proof (induction hs arbitrary: row l v cells y)
  case Nil
  then show ?case by simp
next
  case (Cons h hs)
  show ?case
  proof (cases "map_of wv row")
    case None
    with Cons.prems obtain c l1 where g: "getItem l = Inr (c, l1)"
      and m: "mountRows wv w st (row + 1) hs
            (resizeItem c (NewSize w h) (moveItem c (NewPos 0 y) (resizeItem c (NewSize w h) l1)),
             AList.update row c v, cells @ [c], y + h + st) = Inr (l', v', cells')"
      by (auto simp: Let_def split: sum.splits)
    from Cons.IH[OF m] getItem_facade[OF g] getItem_layout[OF g] show ?thesis by simp
  next
    case (Some c)
    with Cons.prems have m: "mountRows wv w st (row + 1) hs
            (resizeItem c (NewSize w h) (moveItem c (NewPos 0 y) l),
             AList.update row c v, cells @ [c], y + h + st) = Inr (l', v', cells')"
      by (simp add: Let_def)
    from Cons.IH[OF m] show ?thesis by simp
  qed
qed

lemma canvas_Focus_nil_simps [simp]:
  "facade (canvas_Focus_nil l) = facade l" "trace (canvas_Focus_nil l) = trace l"
  "visible (canvas_Focus_nil l) = visible l"
  by (simp_all add: canvas_Focus_nil_def FocusLost_def split: option.splits)

lemma releaseOld_facade:
  "facade (releaseOld wv f l) = facade l \<and> trace (releaseOld wv f l) = trace l
   \<and> visible (releaseOld wv f l) = visible l"
proof (induction wv f l rule: releaseOld.induct)
  case (1 focused l)
  then show ?case by simp
next
  case (2 id' old rest focused l)
  then show ?case by (simp add: Let_def)
qed

lemma updateSeparators_simps [simp]:
  "facade (updateSeparators l) = facade l" "trace (updateSeparators l) = trace l"
  "visible (updateSeparators l) = visible l" "children (updateSeparators l) = children l"
  "items (updateSeparators l) = items l" "itemPool (updateSeparators l) = itemPool l"
  "next_item (updateSeparators l) = next_item l" "scroller (updateSeparators l) = scroller l"
  by (simp_all add: updateSeparators_def Let_def)

lemma publish_facade:
  "publish l = Inr l' \<Longrightarrow> facade l' = facade l \<and> trace l' = trace l \<and> visible l' = visible l
     \<and> children l' = children l \<and> separators l' = separators l \<and> itemPool l' = itemPool l
     \<and> next_item l' = next_item l \<and> items l' = items l"
  by (auto simp: publish_def facade_def split: option.splits)

lemma setupListItem_simps [simp]:
  "facade (setupListItem a i f l) = facade l" "visible (setupListItem a i f l) = visible l"
  "children (setupListItem a i f l) = children l" "separators (setupListItem a i f l) = separators l"
  "itemPool (setupListItem a i f l) = itemPool l" "next_item (setupListItem a i f l) = next_item l"
  by (simp_all add: setupListItem_def Let_def)

lemma setupListItem_trace:
  "\<exists>evs. trace (setupListItem a i f l) = trace l @ evs \<and> quiet evs"
  by (simp add: setupListItem_def Let_def)

lemma setupAll_facade:
  "facade (setupAll v f l) = facade l \<and> visible (setupAll v f l) = visible l
   \<and> children (setupAll v f l) = children l \<and> separators (setupAll v f l) = separators l
   \<and> itemPool (setupAll v f l) = itemPool l \<and> next_item (setupAll v f l) = next_item l"
proof (induction v f l rule: setupAll.induct)
  case (1 focused l)
  then show ?case by simp
next
  case (2 row obj rest focused l)
  then show ?case by simp
qed

lemma setupAll_trace:
  "\<exists>evs. trace (setupAll v f l) = trace l @ evs \<and> quiet evs"
proof (induction v f l rule: setupAll.induct)
  case (1 focused l)
  then show ?case by simp
next
  case (2 row obj rest focused l)
  obtain e1 where e1: "trace (setupListItem obj row (focused = Some obj) l) = trace l @ e1" "quiet e1"
    using setupListItem_trace by blast
  obtain e2 where e2: "trace (setupAll rest focused (setupListItem obj row (focused = Some obj) l))
      = trace (setupListItem obj row (focused = Some obj) l) @ e2" "quiet e2"
    using 2 by blast
  have "trace (setupAll ((row, obj) # rest) focused l) = trace l @ (e1 @ e2)" "quiet (e1 @ e2)"
    using e1 e2 by simp_all
  then show ?case by blast
qed

text \<open>The pass as a whole: the facade is untouched and the trace grows by quiet events.\<close>

lemma updateList_facade_trace:
  assumes "updateList r l = Inr l'"
  shows "facade l' = facade l \<and> (\<exists>evs. trace l' = trace l @ evs \<and> quiet evs)"
proof -
  define l0 where "l0 = (if \<not> UpdateItem l then l\<lparr>trace := trace l @ [LogError]\<rparr> else l)"
  have f0: "facade l0 = facade l" by (simp add: l0_def)
  have t0: "\<exists>evs. trace l0 = trace l @ evs \<and> quiet evs" by (simp add: l0_def)
  obtain hs offY minRow where v: "visibleItemHeights l0 (Height (itemMin l0)) (listLength l) = Inr (hs, offY, minRow)"
    using assms by (auto simp: updateList_def Let_def l0_def split: sum.splits)
  show ?thesis
  proof (cases "hs = [] \<and> listLength l > 0")
    case True
    with assms v have "l' = l0" by (simp add: updateList_def Let_def l0_def)
    with f0 t0 show ?thesis by simp
  next
    case False
    with assms v obtain l1 v' cells l5 where
      m: "mountRows (visible l0) (Width (widget_size l)) (theme_Padding l) minRow hs (l0, [], [], offY) = Inr (l1, v', cells)"
      and p: "publish (updateSeparators ((releaseOld (visible l0) (canvas_Focused (l1\<lparr>visible := v'\<rparr>)) (l1\<lparr>visible := v'\<rparr>))\<lparr>children := cells\<rparr>)) = Inr l5"
      and r: "l' = setupAll v' (canvas_Focused (l1\<lparr>visible := v'\<rparr>)) l5"
      by (auto simp: updateList_def Let_def l0_def split: sum.splits if_splits)
    have "facade l5 = facade l0 \<and> trace l5 = trace l0"
      using mountRows_facade[OF m] publish_facade[OF p] releaseOld_facade by simp
    moreover obtain e where "trace l' = trace l5 @ e" "quiet e"
      using setupAll_trace r by blast
    ultimately show ?thesis using f0 t0 r setupAll_facade by auto
  qed
qed

subsection \<open>What scrolling and rendering leave alone\<close>

lemma config_of_facade: "facade l' = facade l \<Longrightarrow> config l' = config l"
  by (simp add: facade_def config_def)

lemma config_updates [simp]:
  "config (l\<lparr>offsetY := y\<rparr>) = config l"
  "config (l\<lparr>scroller := s\<rparr>) = config l"
  "config (l\<lparr>itemMin := m\<rparr>) = config l"
  "config (l\<lparr>widget_size := sz\<rparr>) = config l"
  "config (l\<lparr>trace := tr\<rparr>) = config l"
  "config (l\<lparr>items := its\<rparr>) = config l"
  by (simp_all add: config_def)

lemma config_fields:
  assumes "config l' = config l"
  shows "Length l' = Length l" "OnSelected l' = OnSelected l" "OnUnselected l' = OnUnselected l"
    "selected l' = selected l" "itemHeights l' = itemHeights l" "listLength l' = listLength l"
  using assms by (simp_all add: config_def listLength_def)

lemma calm_simps [simp]:
  "calm []" "calm (xs @ ys) = (calm xs \<and> calm ys)"
  "calm (RefreshCalled # xs) = calm xs" "calm (CanvasRefreshed # xs) = calm xs"
  "\<not> calm (OnSelectedCalled i # xs)" "\<not> calm (OnUnselectedCalled i # xs)"
  by (simp_all add: calm_def)

lemma quiet_calm: "quiet evs \<Longrightarrow> calm evs"
  by (induction evs) (auto simp: quiet_def calm_def split: event.splits)

lemma quiet_no_refresh: "quiet evs \<Longrightarrow> RefreshCalled \<notin> set evs"
  by (auto simp: quiet_def list_all_iff)

lemma calm_no_callback: "calm evs \<Longrightarrow> OnSelectedCalled i \<notin> set evs \<and> OnUnselectedCalled i \<notin> set evs"
  by (auto simp: calm_def list_all_iff)

lemma updateList_config:
  assumes "updateList r l = Inr l'"
  shows "config l' = config l" "\<exists>evs. trace l' = trace l @ evs \<and> quiet evs"
  using updateList_facade_trace[OF assms] config_of_facade by blast+

lemma offsetUpdated_config:
  assumes "offsetUpdated p l = Inr l'"
  shows "config l' = config l \<and> (\<exists>evs. trace l' = trace l @ evs \<and> quiet evs)"
proof (cases "offsetY l = Y p")
  case True
  with assms show ?thesis by (simp add: offsetUpdated_def)
next
  case False
  with assms have "updateList False (l\<lparr>offsetY := Y p\<rparr>) = Inr l'"
    by (simp add: offsetUpdated_def)
  from updateList_config[OF this] show ?thesis by simp
qed

lemma scrollTo_config:
  assumes "scrollTo i l = Inr l'"
  shows "config l' = config l \<and> (\<exists>evs. trace l' = trace l @ evs \<and> quiet evs)"
proof (cases "scroller l")
  case None
  with assms show ?thesis by (simp add: scrollTo_def)
next
  case (Some sc)
  with assms obtain sc1 where "offsetUpdated (Offset sc1) (l\<lparr>scroller := Some sc1\<rparr>) = Inr l'"
    by (simp add: scrollTo_def Let_def)
  from offsetUpdated_config[OF this] show ?thesis by simp
qed

lemma listRenderer_Refresh_config:
  assumes "listRenderer_Refresh l = Inr l'"
  shows "config l' = config l \<and> (\<exists>evs. trace l' = trace l @ evs \<and> calm evs \<and> RefreshCalled \<notin> set evs)"
proof -
  define l2 where "l2 = listRenderer_Layout (widget_size (case CreateItem l of None \<Rightarrow> l | Some m \<Rightarrow> l\<lparr>itemMin := m\<rparr>))
     (case CreateItem l of None \<Rightarrow> l | Some m \<Rightarrow> l\<lparr>itemMin := m\<rparr>)"
  have c2: "config l2 = config l" "trace l2 = trace l"
    by (simp_all add: l2_def listRenderer_Layout_def split: option.splits)
  from assms obtain l3 where u: "updateList True l2 = Inr l3"
    and r: "l' = l3\<lparr>trace := trace l3 @ [CanvasRefreshed]\<rparr>"
    by (auto simp: listRenderer_Refresh_def Let_def l2_def split: sum.splits)
  from updateList_config[OF u] obtain evs where e: "config l3 = config l2" "trace l3 = trace l2 @ evs" "quiet evs"
    by blast
  have "trace l' = trace l @ (evs @ [CanvasRefreshed])" using r e c2 by simp
  moreover have "calm (evs @ [CanvasRefreshed])" using e quiet_calm by simp
  moreover have "RefreshCalled \<notin> set (evs @ [CanvasRefreshed])" using e quiet_no_refresh by simp
  moreover have "config l' = config l" using r e c2 by simp
  ultimately show ?thesis by blast
qed

lemma Refresh_config:
  assumes "Refresh l = Inr l'"
  shows "config l' = config l \<and> (\<exists>evs. trace l' = trace l @ RefreshCalled # evs \<and> calm evs)"
proof (cases "scroller l")
  case None
  with assms show ?thesis by (auto simp: Refresh_def Let_def)
next
  case (Some sc)
  with assms have "listRenderer_Refresh (l\<lparr>trace := trace l @ [RefreshCalled]\<rparr>) = Inr l'"
    by (simp add: Refresh_def Let_def)
  from listRenderer_Refresh_config[OF this] show ?thesis by auto
qed

lemma scrollThenRefresh_config:
  assumes "scrollThenRefresh i l = Inr l'"
  shows "config l' = config l \<and> (\<exists>evs. trace l' = trace l @ evs \<and> calm evs \<and> RefreshCalled \<in> set evs)"
proof -
  from assms obtain l1 where s: "scrollTo i l = Inr l1" and r: "Refresh l1 = Inr l'"
    by (auto simp: scrollThenRefresh_def split: sum.splits)
  from scrollTo_config[OF s] obtain e1 where e1: "config l1 = config l" "trace l1 = trace l @ e1" "quiet e1"
    by blast
  from Refresh_config[OF r] obtain e2 where e2: "config l' = config l1" "trace l' = trace l1 @ RefreshCalled # e2" "calm e2"
    by blast
  have "trace l' = trace l @ (e1 @ RefreshCalled # e2)" using e1 e2 by simp
  moreover have "calm (e1 @ RefreshCalled # e2)" using e1 e2 quiet_calm by simp
  moreover have "RefreshCalled \<in> set (e1 @ RefreshCalled # e2)" by simp
  ultimately show ?thesis using e1 e2 by metis
qed

lemmas model_defs =
  NewSize_def NewPos_def newListItem_def NewSeparator_def listLength_def heightOf_def
  visibleItemHeights_def Obtain_def Release_def getItem_def moveItem_def resizeItem_def
  FocusLost_def canvas_Focused_def canvas_Focus_nil_def updateSeparators_def setupListItem_def
  publish_def updateList_def offsetUpdated_def scrollToY_def scrollTo_def
  listRenderer_Layout_def listRenderer_Refresh_def Refresh_def BaseWidget_Resize_def Resize_def
  selectCallbacks_def scrollThenRefresh_def Select_def ScrollTo_def ScrollToBottom_def
  ScrollToTop_def Unselect_def UnselectAll_def SetItemHeight_def Tapped_def Scrolled_def
  NewList_def listLayout_MinSize_def CreateRenderer_def AList.update_def Let_def

lemma Select_result:
  assumes "Select a l = Inr l1" "0 \<le> a" "a < listLength l"
  shows "selected l1 \<noteq> [] \<and> hd (selected l1) = a \<and> listLength l1 = listLength l
     \<and> OnSelected l1 = OnSelected l \<and> OnUnselected l1 = OnUnselected l"
proof (cases "selected l \<noteq> [] \<and> a = hd (selected l)")
  case True
  with assms show ?thesis by (simp add: Select_def)
next
  case False
  with assms obtain l2 where s: "scrollThenRefresh a (l\<lparr>selected := [a]\<rparr>) = Inr l2"
    and r: "l1 = selectCallbacks (selected l) a l2"
    by (auto simp: Select_def Let_def split: sum.splits)
  from scrollThenRefresh_config[OF s] have "config l2 = config (l\<lparr>selected := [a]\<rparr>)" by simp
  then have "selected l2 = [a]" "Length l2 = Length l" "OnSelected l2 = OnSelected l"
    "OnUnselected l2 = OnUnselected l"
    by (simp_all add: config_def)
  with r show ?thesis by (simp add: selectCallbacks_def Let_def listLength_def)
qed

subsection \<open>The example states, field by field\<close>

lemma replicate_numeral: "replicate (numeral k) x = x # replicate (pred_numeral k) x"
  by (simp add: numeral_eq_Suc)

lemma List_eqI:
  fixes l l' :: List
  assumes "Length l = Length l'" "CreateItem l = CreateItem l'" "UpdateItem l = UpdateItem l'"
    "OnSelected l = OnSelected l'" "OnUnselected l = OnUnselected l'" "widget_size l = widget_size l'"
    "scroller l = scroller l'" "selected l = selected l'" "itemMin l = itemMin l'"
    "itemHeights l = itemHeights l'" "offsetY l = offsetY l'" "separators l = separators l'"
    "children l = children l'" "itemPool l = itemPool l'" "visible l = visible l'"
    "items l = items l'" "next_item l = next_item l'" "theme_Padding l = theme_Padding l'"
    "theme_SeparatorThicknessSize l = theme_SeparatorThicknessSize l'" "canvas l = canvas l'"
    "trace l = trace l'"
  shows "l = l'"
  using assms by (cases l, cases l') simp

subsection \<open>The pass taken apart\<close>

lemma update_fresh: "k \<notin> fst ` set al \<Longrightarrow> AList.update k v al = al @ [(k, v)]"
  by (induction al) auto

lemma rowsFrom_keys: "(k, a) \<in> set (rowsFrom row cs) \<Longrightarrow> row \<le> k"
  by (induction cs arbitrary: row) fastforce+

lemma map_of_rowsFrom:
  "k < length cs \<Longrightarrow> map_of (rowsFrom row cs) (row + int k) = Some (cs ! k)"
proof (induction cs arbitrary: row k)
  case Nil
  then show ?case by simp
next
  case (Cons c cs)
  show ?case
  proof (cases k)
    case 0
    then show ?thesis by simp
  next
    case (Suc j)
    with Cons.prems have "j < length cs" by simp
    from Cons.IH[OF this, of "row + 1"] Suc show ?thesis by (simp add: algebra_simps)
  qed
qed

lemma mountRows_shape:
  assumes "mountRows wv w st row hs (l, v, cells, y) = Inr (l', v', cells')"
    and "\<forall>k \<in> fst ` set v. k < row"
  shows "\<exists>cs. length cs = length hs \<and> cells' = cells @ cs \<and> v' = v @ rowsFrom row cs"
  using assms
proof (induction hs arbitrary: row l v cells y)
  case Nil
  then show ?case by simp
next
  case (Cons h hs)
  from Cons.prems(1) obtain c l2 where
    m: "mountRows wv w st (row + 1) hs (l2, AList.update row c v, cells @ [c], y + h + st)
          = Inr (l', v', cells')"
    by (auto simp: Let_def split: sum.splits option.splits)
  have fresh: "row \<notin> fst ` set v" using Cons.prems(2) by auto
  then have u: "AList.update row c v = v @ [(row, c)]" by (rule update_fresh)
  have "\<forall>k \<in> fst ` set (AList.update row c v). k < row + 1"
    using Cons.prems(2) u by auto
  from Cons.IH[OF m this] obtain cs where
    cs: "length cs = length hs" "cells' = (cells @ [c]) @ cs"
      "v' = AList.update row c v @ rowsFrom (row + 1) cs"
    by blast
  with u have "length (c # cs) = length (h # hs) \<and> cells' = cells @ (c # cs)
      \<and> v' = v @ rowsFrom row (c # cs)"
    by simp
  then show ?case by blast
qed

lemma mountRows_remount:
  assumes "length cs = length hs"
    and "\<forall>k < length cs. map_of wv (row + int k) = Some (cs ! k)"
    and "\<forall>k \<in> fst ` set v. k < row"
  shows "\<exists>l'. mountRows wv w st row hs (l, v, cells, y) = Inr (l', v @ rowsFrom row cs, cells @ cs)
     \<and> itemPool l' = itemPool l \<and> next_item l' = next_item l"
  using assms
proof (induction hs arbitrary: cs row l v cells y)
  case Nil
  then show ?case by simp
next
  case (Cons h hs)
  from Cons.prems(1) obtain c cs' where cs: "cs = c # cs'" "length cs' = length hs"
    by (cases cs) auto
  from Cons.prems(2) cs have found: "map_of wv row = Some c" by force
  have rest: "\<forall>k < length cs'. map_of wv (row + 1 + int k) = Some (cs' ! k)"
  proof (intro allI impI)
    fix k assume "k < length cs'"
    then have "Suc k < length cs" using cs by simp
    with Cons.prems(2) have "map_of wv (row + int (Suc k)) = Some (cs ! Suc k)" by blast
    then show "map_of wv (row + 1 + int k) = Some (cs' ! k)" using cs by (simp add: algebra_simps)
  qed
  have fresh: "row \<notin> fst ` set v" using Cons.prems(3) by auto
  then have u: "AList.update row c v = v @ [(row, c)]" by (rule update_fresh)
  have keys: "\<forall>k \<in> fst ` set (AList.update row c v). k < row + 1"
    using Cons.prems(3) u by auto
  let ?l = "resizeItem c (NewSize w h) (moveItem c (NewPos 0 y) l)"
  from Cons.IH[OF cs(2) rest keys, of ?l "cells @ [c]" "y + h + st"] obtain l' where
    "mountRows wv w st (row + 1) hs (?l, AList.update row c v, cells @ [c], y + h + st)
       = Inr (l', AList.update row c v @ rowsFrom (row + 1) cs', (cells @ [c]) @ cs')"
    "itemPool l' = itemPool ?l" "next_item l' = next_item ?l"
    by blast
  with found u cs show ?case by (simp add: Let_def)
qed

lemma mounted_keys: "\<forall>(k, a) \<in> set xs. map_of xs k \<noteq> None"
  by (auto dest: weak_map_of_SomeI)

lemma releaseOld_all_mounted:
  "\<forall>(k, a) \<in> set wv. map_of (visible l) k \<noteq> None \<Longrightarrow> releaseOld wv f l = l"
  by (induction wv f l rule: releaseOld.induct) auto

lemma updateList_abort:
  assumes "visibleItemHeights l (Height (itemMin l)) (listLength l) = Inr ([], offY, minRow)"
    and "listLength l > 0"
  shows "updateList refresh l = Inr (if UpdateItem l then l else l\<lparr>trace := trace l @ [LogError]\<rparr>)"
proof -
  define l0 where "l0 = (if \<not> UpdateItem l then l\<lparr>trace := trace l @ [LogError]\<rparr> else l)"
  have "facade l0 = facade l" "itemMin l0 = itemMin l" by (simp_all add: l0_def)
  with assms(1) have "visibleItemHeights l0 (Height (itemMin l0)) (listLength l) = Inr ([], offY, minRow)"
    using visibleItemHeights_facade[of l0 l] by simp
  with assms(2) have "updateList refresh l = Inr l0"
    by (simp add: updateList_def Let_def l0_def)
  then show ?thesis by (simp add: l0_def)
qed


lemma visibleItemHeights_scroller:
  "visibleItemHeights l h n = Inr r \<Longrightarrow> scroller l \<noteq> None"
  by (cases "scroller l") (simp_all add: visibleItemHeights_def)

lemma facade_scroller: "facade l' = facade l \<Longrightarrow> scroller l' = None \<longleftrightarrow> scroller l = None"
  by (auto simp: facade_def)

lemma publish_total: "scroller l \<noteq> None \<Longrightarrow> \<exists>l'. publish l = Inr l'"
  by (auto simp: publish_def)

text \<open>The pass that runs to its end, taken apart.\<close>

lemma updateList_complete:
  assumes "updateList r l = Inr l'"
    and "visibleItemHeights l (Height (itemMin l)) (listLength l) = Inr (hs, offY, minRow)"
    and "\<not> (hs = [] \<and> listLength l > 0)"
  shows "\<exists>l0 l1 v cells l5.
      l0 = (if \<not> UpdateItem l then l\<lparr>trace := trace l @ [LogError]\<rparr> else l)
    \<and> mountRows (visible l) (Width (widget_size l)) (theme_Padding l) minRow hs (l0, [], [], offY)
        = Inr (l1, v, cells)
    \<and> publish (updateSeparators ((releaseOld (visible l) (canvas_Focused l1) (l1\<lparr>visible := v\<rparr>))
          \<lparr>children := cells\<rparr>)) = Inr l5
    \<and> l' = setupAll v (canvas_Focused l1) l5"
proof -
  define l0 where "l0 = (if \<not> UpdateItem l then l\<lparr>trace := trace l @ [LogError]\<rparr> else l)"
  have f0: "facade l0 = facade l" "itemMin l0 = itemMin l" "visible l0 = visible l"
    by (simp_all add: l0_def)
  with assms(2) have v: "visibleItemHeights l0 (Height (itemMin l0)) (listLength l) = Inr (hs, offY, minRow)"
    using visibleItemHeights_facade[of l0 l] by simp
  from assms(1) v assms(3) f0(3) show ?thesis
    by (auto simp: updateList_def Let_def l0_def[symmetric] canvas_Focused_def split: sum.splits)
qed

lemma updateList_run:
  assumes "visibleItemHeights l (Height (itemMin l)) (listLength l) = Inr (hs, offY, minRow)"
    and "\<not> (hs = [] \<and> listLength l > 0)"
    and "l0 = (if \<not> UpdateItem l then l\<lparr>trace := trace l @ [LogError]\<rparr> else l)"
    and "mountRows (visible l) (Width (widget_size l)) (theme_Padding l) minRow hs (l0, [], [], offY)
        = Inr (l1, v, cells)"
  shows "\<exists>l5. publish (updateSeparators ((releaseOld (visible l) (canvas_Focused l1) (l1\<lparr>visible := v\<rparr>))
          \<lparr>children := cells\<rparr>)) = Inr l5
    \<and> updateList r l = Inr (setupAll v (canvas_Focused l1) l5)"
proof -
  have f0: "facade l0 = facade l" "itemMin l0 = itemMin l" "visible l0 = visible l"
    by (simp_all add: assms(3))
  with assms(1) have v: "visibleItemHeights l0 (Height (itemMin l0)) (listLength l) = Inr (hs, offY, minRow)"
    using visibleItemHeights_facade[of l0 l] by simp
  let ?l4 = "updateSeparators ((releaseOld (visible l) (canvas_Focused l1) (l1\<lparr>visible := v\<rparr>))
          \<lparr>children := cells\<rparr>)"
  have "facade ?l4 = facade l"
    using mountRows_facade[OF assms(4)] f0 releaseOld_facade by simp
  moreover have "scroller l \<noteq> None" using assms(1) by (rule visibleItemHeights_scroller)
  ultimately have "scroller ?l4 \<noteq> None" using facade_scroller[of ?l4 l] by simp
  then obtain l5 where p: "publish ?l4 = Inr l5" using publish_total by blast
  have na: "(hs = [] \<and> 0 < listLength l) = False" using assms(2) by simp
  have "updateList r l = Inr (setupAll v (canvas_Focused l1) l5)"
    using v assms(4) p f0(3)
    by (simp add: updateList_def Let_def assms(3)[symmetric] canvas_Focused_def na)
  with p show ?thesis by blast
qed


lemma updateList_layout:
  assumes "publish (updateSeparators (l3\<lparr>children := cells\<rparr>)) = Inr l5"
  shows "visible (setupAll v f l5) = visible l3 \<and> children (setupAll v f l5) = cells
     \<and> itemPool (setupAll v f l5) = itemPool l3 \<and> next_item (setupAll v f l5) = next_item l3"
  using publish_facade[OF assms] setupAll_facade[of v f l5] by simp

lemma updateList_mounted:
  assumes "updateList r l = Inr l'"
    and "visibleItemHeights l (Height (itemMin l)) (listLength l) = Inr (hs, offY, minRow)"
    and "\<not> (hs = [] \<and> listLength l > 0)"
  shows "\<exists>cs. length cs = length hs \<and> visible l' = rowsFrom minRow cs \<and> children l' = cs"
proof -
  from updateList_complete[OF assms] obtain l0 l1 v cells l5 where
    m: "mountRows (visible l) (Width (widget_size l)) (theme_Padding l) minRow hs (l0, [], [], offY)
        = Inr (l1, v, cells)"
    and p: "publish (updateSeparators ((releaseOld (visible l) (canvas_Focused l1) (l1\<lparr>visible := v\<rparr>))
          \<lparr>children := cells\<rparr>)) = Inr l5"
    and l': "l' = setupAll v (canvas_Focused l1) l5"
    by blast
  from mountRows_shape[OF m] obtain cs where cs: "length cs = length hs" "cells = cs" "v = rowsFrom minRow cs"
    by auto
  from updateList_layout[OF p] l' releaseOld_facade
  have "visible l' = v" "children l' = cells" by simp_all
  with cs show ?thesis by blast
qed

lemma demoList_fields:
  "Length demoList = Some 100"
  "CreateItem demoList = Some (NewSize 80 20)"
  "UpdateItem demoList = True"
  "OnSelected demoList = True"
  "OnUnselected demoList = True"
  "widget_size demoList = NewSize 0 0"
  "scroller demoList = None"
  "selected demoList = []"
  "itemMin demoList = NewSize 0 0"
  "itemHeights demoList = []"
  "offsetY demoList = 0"
  "separators demoList = []"
  "children demoList = []"
  "itemPool demoList = []"
  "visible demoList = []"
  "items demoList = (\<lambda>a. newListItem)"
  "next_item demoList = 0"
  "theme_Padding demoList = 1"
  "theme_SeparatorThicknessSize demoList = 1"
  "canvas demoList = Some None"
  "trace demoList = []"
  by (simp_all add: demoList_def NewList_def)

lemma demoCreated_fields:
  "Length demoCreated = Some 100"
  "CreateItem demoCreated = Some (NewSize 80 20)"
  "UpdateItem demoCreated = True"
  "OnSelected demoCreated = True"
  "OnUnselected demoCreated = True"
  "widget_size demoCreated = NewSize 0 0"
  "scroller demoCreated = Some \<lparr>Offset = \<lparr>X = 0, Y = 0\<rparr>,
      scroll_size = \<lparr>Width = 0, Height = 0\<rparr>, Objects = []\<rparr>"
  "selected demoCreated = []"
  "itemMin demoCreated = \<lparr>Width = 80, Height = 20\<rparr>"
  "itemHeights demoCreated = []"
  "offsetY demoCreated = 0"
  "separators demoCreated = []"
  "children demoCreated = []"
  "itemPool demoCreated = []"
  "visible demoCreated = []"
  "items demoCreated = (\<lambda>a. newListItem)"
  "next_item demoCreated = 0"
  "theme_Padding demoCreated = 1"
  "theme_SeparatorThicknessSize demoCreated = 1"
  "canvas demoCreated = Some None"
  "trace demoCreated = []"
  by (simp_all add: demoCreated_def)

lemma demoRendered_fields:
  "Length demoRendered = Some 100"
  "CreateItem demoRendered = Some (NewSize 80 20)"
  "UpdateItem demoRendered = True"
  "OnSelected demoRendered = True"
  "OnUnselected demoRendered = True"
  "widget_size demoRendered = \<lparr>Width = 200, Height = 50\<rparr>"
  "scroller demoRendered = Some \<lparr>Offset = \<lparr>X = 0, Y = 0\<rparr>,
      scroll_size = \<lparr>Width = 200, Height = 50\<rparr>, Objects = [ItemObject 0,
      ItemObject (1), ItemObject (2), SeparatorObject \<lparr>sep_position = \<lparr>X = 0,
      Y = 0\<rparr>, sep_size = \<lparr>Width = 0, Height = 0\<rparr>,
      sep_hidden = False\<rparr>, SeparatorObject \<lparr>sep_position = \<lparr>X = 0,
      Y = 20\<rparr>, sep_size = \<lparr>Width = 200, Height = 1\<rparr>,
      sep_hidden = False\<rparr>, SeparatorObject \<lparr>sep_position = \<lparr>X = 0,
      Y = 41\<rparr>, sep_size = \<lparr>Width = 200, Height = 1\<rparr>,
      sep_hidden = False\<rparr>]\<rparr>"
  "selected demoRendered = []"
  "itemMin demoRendered = \<lparr>Width = 80, Height = 20\<rparr>"
  "itemHeights demoRendered = []"
  "offsetY demoRendered = 0"
  "separators demoRendered = [\<lparr>sep_position = \<lparr>X = 0, Y = 0\<rparr>,
      sep_size = \<lparr>Width = 0, Height = 0\<rparr>, sep_hidden = False\<rparr>,
      \<lparr>sep_position = \<lparr>X = 0, Y = 20\<rparr>, sep_size = \<lparr>Width = 200,
      Height = 1\<rparr>, sep_hidden = False\<rparr>, \<lparr>sep_position = \<lparr>X = 0,
      Y = 41\<rparr>, sep_size = \<lparr>Width = 200, Height = 1\<rparr>,
      sep_hidden = False\<rparr>]"
  "children demoRendered = [0, 1, 2]"
  "itemPool demoRendered = []"
  "visible demoRendered = [(0, 0), (1, 1), (2, 2)]"
  "items demoRendered = (\<lambda>a. \<lparr>onTapped = None, hovered = False,
      item_selected = False, item_position = \<lparr>X = 0, Y = 0\<rparr>,
      item_size = \<lparr>Width = 0, Height = 0\<rparr>\<rparr>) (0 := \<lparr>onTapped = Some 0,
      hovered = False, item_selected = False, item_position = \<lparr>X = 0, Y = 0\<rparr>,
      item_size = \<lparr>Width = 200, Height = 20\<rparr>\<rparr>,
      1 := \<lparr>onTapped = Some 1, hovered = False, item_selected = False,
      item_position = \<lparr>X = 0, Y = 21\<rparr>, item_size = \<lparr>Width = 200,
      Height = 20\<rparr>\<rparr>, 2 := \<lparr>onTapped = Some 2, hovered = False,
      item_selected = False, item_position = \<lparr>X = 0, Y = 42\<rparr>,
      item_size = \<lparr>Width = 200, Height = 20\<rparr>\<rparr>)"
  "next_item demoRendered = 3"
  "theme_Padding demoRendered = 1"
  "theme_SeparatorThicknessSize demoRendered = 1"
  "canvas demoRendered = Some None"
  "trace demoRendered = [UpdateItemCalled 0 0, UpdateItemCalled 1 (1), UpdateItemCalled 2 (2)]"
  by (simp_all add: demoRendered_def)

lemma demoSelected0_fields:
  "Length demoSelected0 = Some 100"
  "CreateItem demoSelected0 = Some (NewSize 80 20)"
  "UpdateItem demoSelected0 = True"
  "OnSelected demoSelected0 = True"
  "OnUnselected demoSelected0 = True"
  "widget_size demoSelected0 = \<lparr>Width = 200, Height = 50\<rparr>"
  "scroller demoSelected0 = Some \<lparr>Offset = \<lparr>X = 0, Y = 0\<rparr>,
      scroll_size = \<lparr>Width = 200, Height = 50\<rparr>, Objects = [ItemObject 0,
      ItemObject (1), ItemObject 2, SeparatorObject \<lparr>sep_position = \<lparr>X = 0,
      Y = 0\<rparr>, sep_size = \<lparr>Width = 0, Height = 0\<rparr>,
      sep_hidden = False\<rparr>, SeparatorObject \<lparr>sep_position = \<lparr>X = 0,
      Y = 20\<rparr>, sep_size = \<lparr>Width = 200, Height = 1\<rparr>,
      sep_hidden = False\<rparr>, SeparatorObject \<lparr>sep_position = \<lparr>X = 0,
      Y = 41\<rparr>, sep_size = \<lparr>Width = 200, Height = 1\<rparr>,
      sep_hidden = False\<rparr>]\<rparr>"
  "selected demoSelected0 = [0]"
  "itemMin demoSelected0 = \<lparr>Width = 80, Height = 20\<rparr>"
  "itemHeights demoSelected0 = []"
  "offsetY demoSelected0 = 0"
  "separators demoSelected0 = [\<lparr>sep_position = \<lparr>X = 0, Y = 0\<rparr>,
      sep_size = \<lparr>Width = 0, Height = 0\<rparr>, sep_hidden = False\<rparr>,
      \<lparr>sep_position = \<lparr>X = 0, Y = 20\<rparr>, sep_size = \<lparr>Width = 200,
      Height = 1\<rparr>, sep_hidden = False\<rparr>, \<lparr>sep_position = \<lparr>X = 0,
      Y = 41\<rparr>, sep_size = \<lparr>Width = 200, Height = 1\<rparr>,
      sep_hidden = False\<rparr>]"
  "children demoSelected0 = [0, 1, 2]"
  "itemPool demoSelected0 = []"
  "visible demoSelected0 = [(0, 0), (1, 1), (2, 2)]"
  "items demoSelected0 = (\<lambda>a. \<lparr>onTapped = None, hovered = False,
      item_selected = False, item_position = \<lparr>X = 0, Y = 0\<rparr>,
      item_size = \<lparr>Width = 0, Height = 0\<rparr>\<rparr>) (0 := \<lparr>onTapped = Some 0,
      hovered = False, item_selected = True, item_position = \<lparr>X = 0, Y = 0\<rparr>,
      item_size = \<lparr>Width = 200, Height = 20\<rparr>\<rparr>,
      1 := \<lparr>onTapped = Some 1, hovered = False, item_selected = False,
      item_position = \<lparr>X = 0, Y = 21\<rparr>, item_size = \<lparr>Width = 200,
      Height = 20\<rparr>\<rparr>, 2 := \<lparr>onTapped = Some 2, hovered = False,
      item_selected = False, item_position = \<lparr>X = 0, Y = 42\<rparr>,
      item_size = \<lparr>Width = 200, Height = 20\<rparr>\<rparr>)"
  "next_item demoSelected0 = 3"
  "theme_Padding demoSelected0 = 1"
  "theme_SeparatorThicknessSize demoSelected0 = 1"
  "canvas demoSelected0 = Some None"
  "trace demoSelected0 = [UpdateItemCalled 0 0, UpdateItemCalled 1 (1), UpdateItemCalled 2 2,
      RefreshCalled, UpdateItemCalled 0 0, UpdateItemCalled 1 (1), UpdateItemCalled 2 2,
      CanvasRefreshed, OnSelectedCalled 0]"
  by (simp_all add: demoSelected0_def)

lemma demoSelected1_fields:
  "Length demoSelected1 = Some 100"
  "CreateItem demoSelected1 = Some (NewSize 80 20)"
  "UpdateItem demoSelected1 = True"
  "OnSelected demoSelected1 = True"
  "OnUnselected demoSelected1 = True"
  "widget_size demoSelected1 = \<lparr>Width = 200, Height = 50\<rparr>"
  "scroller demoSelected1 = Some \<lparr>Offset = \<lparr>X = 0, Y = 0\<rparr>,
      scroll_size = \<lparr>Width = 200, Height = 50\<rparr>, Objects = [ItemObject 0,
      ItemObject (1), ItemObject 2, SeparatorObject \<lparr>sep_position = \<lparr>X = 0,
      Y = 0\<rparr>, sep_size = \<lparr>Width = 0, Height = 0\<rparr>,
      sep_hidden = False\<rparr>, SeparatorObject \<lparr>sep_position = \<lparr>X = 0,
      Y = 20\<rparr>, sep_size = \<lparr>Width = 200, Height = 1\<rparr>,
      sep_hidden = False\<rparr>, SeparatorObject \<lparr>sep_position = \<lparr>X = 0,
      Y = 41\<rparr>, sep_size = \<lparr>Width = 200, Height = 1\<rparr>,
      sep_hidden = False\<rparr>]\<rparr>"
  "selected demoSelected1 = [1]"
  "itemMin demoSelected1 = \<lparr>Width = 80, Height = 20\<rparr>"
  "itemHeights demoSelected1 = []"
  "offsetY demoSelected1 = 0"
  "separators demoSelected1 = [\<lparr>sep_position = \<lparr>X = 0, Y = 0\<rparr>,
      sep_size = \<lparr>Width = 0, Height = 0\<rparr>, sep_hidden = False\<rparr>,
      \<lparr>sep_position = \<lparr>X = 0, Y = 20\<rparr>, sep_size = \<lparr>Width = 200,
      Height = 1\<rparr>, sep_hidden = False\<rparr>, \<lparr>sep_position = \<lparr>X = 0,
      Y = 41\<rparr>, sep_size = \<lparr>Width = 200, Height = 1\<rparr>,
      sep_hidden = False\<rparr>]"
  "children demoSelected1 = [0, 1, 2]"
  "itemPool demoSelected1 = []"
  "visible demoSelected1 = [(0, 0), (1, 1), (2, 2)]"
  "items demoSelected1 = (\<lambda>a. \<lparr>onTapped = None, hovered = False,
      item_selected = False, item_position = \<lparr>X = 0, Y = 0\<rparr>,
      item_size = \<lparr>Width = 0, Height = 0\<rparr>\<rparr>) (0 := \<lparr>onTapped = Some 0,
      hovered = False, item_selected = False, item_position = \<lparr>X = 0, Y = 0\<rparr>,
      item_size = \<lparr>Width = 200, Height = 20\<rparr>\<rparr>,
      1 := \<lparr>onTapped = Some 1, hovered = False, item_selected = True,
      item_position = \<lparr>X = 0, Y = 21\<rparr>, item_size = \<lparr>Width = 200,
      Height = 20\<rparr>\<rparr>, 2 := \<lparr>onTapped = Some 2, hovered = False,
      item_selected = False, item_position = \<lparr>X = 0, Y = 42\<rparr>,
      item_size = \<lparr>Width = 200, Height = 20\<rparr>\<rparr>)"
  "next_item demoSelected1 = 3"
  "theme_Padding demoSelected1 = 1"
  "theme_SeparatorThicknessSize demoSelected1 = 1"
  "canvas demoSelected1 = Some None"
  "trace demoSelected1 = [UpdateItemCalled 0 0, UpdateItemCalled 1 (1), UpdateItemCalled 2 2,
      RefreshCalled, UpdateItemCalled 0 0, UpdateItemCalled 1 (1), UpdateItemCalled 2 2,
      CanvasRefreshed, OnSelectedCalled 0, RefreshCalled, UpdateItemCalled 0 0,
      UpdateItemCalled 1 (1), UpdateItemCalled 2 2, CanvasRefreshed, OnUnselectedCalled 0,
      OnSelectedCalled 1]"
  by (simp_all add: demoSelected1_def)

lemma demoOverride_fields:
  "Length demoOverride = Some 100"
  "CreateItem demoOverride = Some (NewSize 80 20)"
  "UpdateItem demoOverride = True"
  "OnSelected demoOverride = True"
  "OnUnselected demoOverride = True"
  "widget_size demoOverride = \<lparr>Width = 200, Height = 50\<rparr>"
  "scroller demoOverride = Some \<lparr>Offset = \<lparr>X = 0, Y = 0\<rparr>,
      scroll_size = \<lparr>Width = 200, Height = 50\<rparr>, Objects = [ItemObject 0,
      ItemObject (1), ItemObject 2, SeparatorObject \<lparr>sep_position = \<lparr>X = 0,
      Y = 0\<rparr>, sep_size = \<lparr>Width = 0, Height = 0\<rparr>,
      sep_hidden = False\<rparr>, SeparatorObject \<lparr>sep_position = \<lparr>X = 0,
      Y = 20\<rparr>, sep_size = \<lparr>Width = 200, Height = 1\<rparr>,
      sep_hidden = False\<rparr>, SeparatorObject \<lparr>sep_position = \<lparr>X = 0,
      Y = 41\<rparr>, sep_size = \<lparr>Width = 200, Height = 1\<rparr>,
      sep_hidden = False\<rparr>]\<rparr>"
  "selected demoOverride = []"
  "itemMin demoOverride = \<lparr>Width = 80, Height = 20\<rparr>"
  "itemHeights demoOverride = [(5, 40)]"
  "offsetY demoOverride = 0"
  "separators demoOverride = [\<lparr>sep_position = \<lparr>X = 0, Y = 0\<rparr>,
      sep_size = \<lparr>Width = 0, Height = 0\<rparr>, sep_hidden = False\<rparr>,
      \<lparr>sep_position = \<lparr>X = 0, Y = 20\<rparr>, sep_size = \<lparr>Width = 200,
      Height = 1\<rparr>, sep_hidden = False\<rparr>, \<lparr>sep_position = \<lparr>X = 0,
      Y = 41\<rparr>, sep_size = \<lparr>Width = 200, Height = 1\<rparr>,
      sep_hidden = False\<rparr>]"
  "children demoOverride = [0, 1, 2]"
  "itemPool demoOverride = []"
  "visible demoOverride = [(0, 0), (1, 1), (2, 2)]"
  "items demoOverride = (\<lambda>a. \<lparr>onTapped = None, hovered = False,
      item_selected = False, item_position = \<lparr>X = 0, Y = 0\<rparr>,
      item_size = \<lparr>Width = 0, Height = 0\<rparr>\<rparr>) (0 := \<lparr>onTapped = Some 0,
      hovered = False, item_selected = False, item_position = \<lparr>X = 0, Y = 0\<rparr>,
      item_size = \<lparr>Width = 200, Height = 20\<rparr>\<rparr>,
      1 := \<lparr>onTapped = Some 1, hovered = False, item_selected = False,
      item_position = \<lparr>X = 0, Y = 21\<rparr>, item_size = \<lparr>Width = 200,
      Height = 20\<rparr>\<rparr>, 2 := \<lparr>onTapped = Some 2, hovered = False,
      item_selected = False, item_position = \<lparr>X = 0, Y = 42\<rparr>,
      item_size = \<lparr>Width = 200, Height = 20\<rparr>\<rparr>)"
  "next_item demoOverride = 3"
  "theme_Padding demoOverride = 1"
  "theme_SeparatorThicknessSize demoOverride = 1"
  "canvas demoOverride = Some None"
  "trace demoOverride = [UpdateItemCalled 0 0, UpdateItemCalled 1 (1), UpdateItemCalled 2 2,
      RefreshCalled, UpdateItemCalled 0 0, UpdateItemCalled 1 (1), UpdateItemCalled 2 2,
      CanvasRefreshed]"
  by (simp_all add: demoOverride_def)

lemma demoScrolled_fields:
  "Length demoScrolled = Some 100"
  "CreateItem demoScrolled = Some (NewSize 80 20)"
  "UpdateItem demoScrolled = True"
  "OnSelected demoScrolled = True"
  "OnUnselected demoScrolled = True"
  "widget_size demoScrolled = \<lparr>Width = 200, Height = 50\<rparr>"
  "scroller demoScrolled = Some \<lparr>Offset = \<lparr>X = 0, Y = 20\<rparr>,
      scroll_size = \<lparr>Width = 200, Height = 50\<rparr>, Objects = [ItemObject 0,
      ItemObject (1), ItemObject 2, SeparatorObject \<lparr>sep_position = \<lparr>X = 0,
      Y = 0\<rparr>, sep_size = \<lparr>Width = 0, Height = 0\<rparr>,
      sep_hidden = False\<rparr>, SeparatorObject \<lparr>sep_position = \<lparr>X = 0,
      Y = 20\<rparr>, sep_size = \<lparr>Width = 200, Height = 1\<rparr>,
      sep_hidden = False\<rparr>, SeparatorObject \<lparr>sep_position = \<lparr>X = 0,
      Y = 41\<rparr>, sep_size = \<lparr>Width = 200, Height = 1\<rparr>,
      sep_hidden = False\<rparr>]\<rparr>"
  "selected demoScrolled = []"
  "itemMin demoScrolled = \<lparr>Width = 80, Height = 20\<rparr>"
  "itemHeights demoScrolled = []"
  "offsetY demoScrolled = 20"
  "separators demoScrolled = [\<lparr>sep_position = \<lparr>X = 0, Y = 0\<rparr>,
      sep_size = \<lparr>Width = 0, Height = 0\<rparr>, sep_hidden = False\<rparr>,
      \<lparr>sep_position = \<lparr>X = 0, Y = 20\<rparr>, sep_size = \<lparr>Width = 200,
      Height = 1\<rparr>, sep_hidden = False\<rparr>, \<lparr>sep_position = \<lparr>X = 0,
      Y = 41\<rparr>, sep_size = \<lparr>Width = 200, Height = 1\<rparr>,
      sep_hidden = False\<rparr>]"
  "children demoScrolled = [0, 1, 2]"
  "itemPool demoScrolled = []"
  "visible demoScrolled = [(0, 0), (1, 1), (2, 2)]"
  "items demoScrolled = (\<lambda>a. \<lparr>onTapped = None, hovered = False,
      item_selected = False, item_position = \<lparr>X = 0, Y = 0\<rparr>,
      item_size = \<lparr>Width = 0, Height = 0\<rparr>\<rparr>) (0 := \<lparr>onTapped = Some 0,
      hovered = False, item_selected = False, item_position = \<lparr>X = 0, Y = 0\<rparr>,
      item_size = \<lparr>Width = 200, Height = 20\<rparr>\<rparr>,
      1 := \<lparr>onTapped = Some 1, hovered = False, item_selected = False,
      item_position = \<lparr>X = 0, Y = 21\<rparr>, item_size = \<lparr>Width = 200,
      Height = 20\<rparr>\<rparr>, 2 := \<lparr>onTapped = Some 2, hovered = False,
      item_selected = False, item_position = \<lparr>X = 0, Y = 42\<rparr>,
      item_size = \<lparr>Width = 200, Height = 20\<rparr>\<rparr>)"
  "next_item demoScrolled = 3"
  "theme_Padding demoScrolled = 1"
  "theme_SeparatorThicknessSize demoScrolled = 1"
  "canvas demoScrolled = Some None"
  "trace demoScrolled = [UpdateItemCalled 0 0, UpdateItemCalled 1 (1), UpdateItemCalled 2 2,
      UpdateItemCalled 0 0, UpdateItemCalled 1 (1), UpdateItemCalled 2 2]"
  by (simp_all add: demoScrolled_def)

lemma demoScrolledTo5_fields:
  "Length demoScrolledTo5 = Some 100"
  "CreateItem demoScrolledTo5 = Some (NewSize 80 20)"
  "UpdateItem demoScrolledTo5 = True"
  "OnSelected demoScrolledTo5 = True"
  "OnUnselected demoScrolledTo5 = True"
  "widget_size demoScrolledTo5 = \<lparr>Width = 200, Height = 50\<rparr>"
  "scroller demoScrolledTo5 = Some \<lparr>Offset = \<lparr>X = 0, Y = 75\<rparr>,
      scroll_size = \<lparr>Width = 200, Height = 50\<rparr>, Objects = [ItemObject 3,
      ItemObject 4, ItemObject 5, SeparatorObject \<lparr>sep_position = \<lparr>X = 0,
      Y = 0\<rparr>, sep_size = \<lparr>Width = 0, Height = 0\<rparr>,
      sep_hidden = False\<rparr>, SeparatorObject \<lparr>sep_position = \<lparr>X = 0,
      Y = 83\<rparr>, sep_size = \<lparr>Width = 200, Height = 1\<rparr>,
      sep_hidden = False\<rparr>, SeparatorObject \<lparr>sep_position = \<lparr>X = 0,
      Y = 104\<rparr>, sep_size = \<lparr>Width = 200, Height = 1\<rparr>,
      sep_hidden = False\<rparr>]\<rparr>"
  "selected demoScrolledTo5 = []"
  "itemMin demoScrolledTo5 = \<lparr>Width = 80, Height = 20\<rparr>"
  "itemHeights demoScrolledTo5 = [(5, 40)]"
  "offsetY demoScrolledTo5 = 75"
  "separators demoScrolledTo5 = [\<lparr>sep_position = \<lparr>X = 0, Y = 0\<rparr>,
      sep_size = \<lparr>Width = 0, Height = 0\<rparr>, sep_hidden = False\<rparr>,
      \<lparr>sep_position = \<lparr>X = 0, Y = 83\<rparr>, sep_size = \<lparr>Width = 200,
      Height = 1\<rparr>, sep_hidden = False\<rparr>, \<lparr>sep_position = \<lparr>X = 0,
      Y = 104\<rparr>, sep_size = \<lparr>Width = 200, Height = 1\<rparr>,
      sep_hidden = False\<rparr>]"
  "children demoScrolledTo5 = [3, 4, 5]"
  "itemPool demoScrolledTo5 = [2, 1, 0]"
  "visible demoScrolledTo5 = [(3, 3), (4, 4), (5, 5)]"
  "items demoScrolledTo5 = (\<lambda>a. \<lparr>onTapped = None, hovered = False,
      item_selected = False, item_position = \<lparr>X = 0, Y = 0\<rparr>,
      item_size = \<lparr>Width = 0, Height = 0\<rparr>\<rparr>) (0 := \<lparr>onTapped = Some 0,
      hovered = False, item_selected = False, item_position = \<lparr>X = 0, Y = 0\<rparr>,
      item_size = \<lparr>Width = 200, Height = 20\<rparr>\<rparr>,
      1 := \<lparr>onTapped = Some 1, hovered = False, item_selected = False,
      item_position = \<lparr>X = 0, Y = 21\<rparr>, item_size = \<lparr>Width = 200,
      Height = 20\<rparr>\<rparr>, 2 := \<lparr>onTapped = Some 2, hovered = False,
      item_selected = False, item_position = \<lparr>X = 0, Y = 42\<rparr>,
      item_size = \<lparr>Width = 200, Height = 20\<rparr>\<rparr>,
      3 := \<lparr>onTapped = Some 3, hovered = False, item_selected = False,
      item_position = \<lparr>X = 0, Y = 63\<rparr>, item_size = \<lparr>Width = 200,
      Height = 20\<rparr>\<rparr>, 4 := \<lparr>onTapped = Some 4, hovered = False,
      item_selected = False, item_position = \<lparr>X = 0, Y = 84\<rparr>,
      item_size = \<lparr>Width = 200, Height = 20\<rparr>\<rparr>,
      5 := \<lparr>onTapped = Some 5, hovered = False, item_selected = False,
      item_position = \<lparr>X = 0, Y = 105\<rparr>, item_size = \<lparr>Width = 200,
      Height = 40\<rparr>\<rparr>)"
  "next_item demoScrolledTo5 = 6"
  "theme_Padding demoScrolledTo5 = 1"
  "theme_SeparatorThicknessSize demoScrolledTo5 = 1"
  "canvas demoScrolledTo5 = Some None"
  "trace demoScrolledTo5 = [UpdateItemCalled 0 0, UpdateItemCalled 1 (1), UpdateItemCalled 2 2,
      RefreshCalled, UpdateItemCalled 0 0, UpdateItemCalled 1 (1), UpdateItemCalled 2 2,
      CanvasRefreshed, UpdateItemCalled 3 3, UpdateItemCalled 4 4, UpdateItemCalled 5 5,
      RefreshCalled, UpdateItemCalled 3 3, UpdateItemCalled 4 4, UpdateItemCalled 5 5,
      CanvasRefreshed]"
  by (simp_all add: demoScrolledTo5_def)

subsection \<open>The example states are reached by running the operations\<close>

lemma run_CreateRenderer: "CreateRenderer demoList = Inr demoCreated"
  by (simp add: demoList_fields model_defs)
     (rule List_eqI; simp add: demoList_fields demoCreated_fields NewSize_def NewPos_def)

lemmas state_defs = NewSize_def NewPos_def newListItem_def eval_nat_numeral

lemma run_Resize: "Resize (NewSize 200 50) demoCreated = Inr demoRendered"
  by (simp add: demoCreated_fields model_defs replicate_numeral)
     (rule List_eqI; simp add: demoCreated_fields demoRendered_fields state_defs)

lemma run_Select_0: "Select 0 demoRendered = Inr demoSelected0"
  by (simp add: demoRendered_fields model_defs replicate_numeral)
     (rule List_eqI; simp add: demoRendered_fields demoSelected0_fields state_defs)

lemma run_Select_1: "Select 1 demoSelected0 = Inr demoSelected1"
  by (simp add: demoSelected0_fields model_defs replicate_numeral)
     (rule List_eqI; simp add: demoSelected0_fields demoSelected1_fields state_defs)

lemma run_SetItemHeight: "SetItemHeight 5 40 demoRendered = Inr demoOverride"
  by (simp add: demoRendered_fields model_defs replicate_numeral)
     (rule List_eqI; simp add: demoRendered_fields demoOverride_fields state_defs)

lemma run_Scrolled: "Scrolled (NewPos 0 20) demoRendered = Inr demoScrolled"
  by (simp add: demoRendered_fields model_defs replicate_numeral)
     (rule List_eqI; simp add: demoRendered_fields demoScrolled_fields state_defs)

lemma run_ScrollTo_5: "ScrollTo 5 demoOverride = Inr demoScrolledTo5"
  by (simp add: demoOverride_fields model_defs replicate_numeral upto.simps)
     (rule List_eqI; simp add: demoOverride_fields demoScrolledTo5_fields state_defs)

section \<open>The claims\<close>

subsection \<open>Out-of-range and unselected ids\<close>

text \<open>
  Claim C5. For an id outside \<open>[0, length())\<close>, \<open>Select\<close> and \<open>ScrollTo\<close> return the
  state they were given: selection, scroll offset and every other field are unchanged and the
  trace gains no event, so no callback fires. \<open>Unselect\<close> of an id that is not selected
  returns the state unchanged in the same way.
\<close>

theorem out_of_range_is_noop:
  "(id' < 0 \<or> listLength l \<le> id' \<longrightarrow> Select id' l = Inr l \<and> ScrollTo id' l = Inr l)
   \<and> (id' \<notin> set (selected l) \<longrightarrow> Unselect id' l = Inr l)"
proof -
  have "Unselect id' l = Inr l" if "id' \<notin> set (selected l)"
  proof (cases "selected l")
    case Nil
    then show ?thesis by (simp add: Unselect_def)
  next
    case (Cons x xs)
    with that show ?thesis by (auto simp: Unselect_def)
  qed
  then show ?thesis by (auto simp: Select_def ScrollTo_def)
qed

theorem out_of_range_is_noop_witness:
  "Select 100 demoRendered = Inr demoRendered \<and> ScrollTo 100 demoRendered = Inr demoRendered
   \<and> Unselect 7 demoSelected0 = Inr demoSelected0"
proof -
  have h1: "listLength demoRendered \<le> 100"
    by (simp add: listLength_def demoRendered_fields)
  have h2: "7 \<notin> set (selected demoSelected0)"
    by (simp add: demoSelected0_fields)
  show ?thesis
    using out_of_range_is_noop[of 100 demoRendered] out_of_range_is_noop[of 7 demoSelected0] h1 h2
    by simp
qed

subsection \<open>The pass that cannot show anything yet\<close>

text \<open>
  Claim C8. When the visible-range computation returns no row although the list is not
  empty, \<open>updateList\<close> returns at once: the mounted views, the pool, the children, the
  separators, the scroller with its published content and the items are what they were. The
  only thing the pass may have done before is log the missing \<open>UpdateItem\<close> callback, so
  the result is the given state up to its trace.
\<close>

theorem updateList_abort_keeps_layout:
  assumes "visibleItemHeights l (Height (itemMin l)) (listLength l) = Inr ([], offY, minRow)"
    and "listLength l > 0"
  shows "\<exists>l'. updateList refresh l = Inr l'
     \<and> visible l' = visible l \<and> itemPool l' = itemPool l \<and> children l' = children l
     \<and> separators l' = separators l \<and> scroller l' = scroller l \<and> items l' = items l
     \<and> l'\<lparr>trace := trace l\<rparr> = l"
  using updateList_abort[OF assms, of refresh] by simp

text \<open>
  An instance with a layout that is not empty: the list scrolled to row 5 holds the views 3, 4
  and 5 for the rows 3 to 5, three pooled views, three separators and six published objects.
  When its viewport is given the height 0, the range computation returns no row, and the pass
  leaves all of them in place.
\<close>

theorem updateList_abort_keeps_layout_witness:
  "\<exists>l'. updateList True (BaseWidget_Resize (NewSize 200 0) demoScrolledTo5) = Inr l'
     \<and> visible l' = [(3, 3), (4, 4), (5, 5)] \<and> itemPool l' = [2, 1, 0]
     \<and> children l' = [3, 4, 5] \<and> separators l' = separators demoScrolledTo5
     \<and> length (separators l') = 3
     \<and> scroller l' = scroller (BaseWidget_Resize (NewSize 200 0) demoScrolledTo5)
     \<and> Objects (the (scroller l')) = Objects (the (scroller demoScrolledTo5))
     \<and> length (Objects (the (scroller l'))) = 6
     \<and> items l' = items demoScrolledTo5
     \<and> l'\<lparr>trace := trace demoScrolledTo5\<rparr> = BaseWidget_Resize (NewSize 200 0) demoScrolledTo5"
proof -
  let ?l = "BaseWidget_Resize (NewSize 200 0) demoScrolledTo5"
  have h1: "visibleItemHeights ?l (Height (itemMin ?l)) (listLength ?l) = Inr ([], 0, 0)"
    by (simp add: visibleItemHeights_def BaseWidget_Resize_def listRenderer_Layout_def
        demoScrolledTo5_fields NewSize_def)
  have h2: "listLength ?l > 0"
    by (simp add: listLength_def BaseWidget_Resize_def listRenderer_Layout_def demoScrolledTo5_fields)
  have f: "visible ?l = [(3, 3), (4, 4), (5, 5)]" "itemPool ?l = [2, 1, 0]" "children ?l = [3, 4, 5]"
    "separators ?l = separators demoScrolledTo5" "length (separators ?l) = 3"
    "Objects (the (scroller ?l)) = Objects (the (scroller demoScrolledTo5))"
    "length (Objects (the (scroller ?l))) = 6"
    "items ?l = items demoScrolledTo5" "trace ?l = trace demoScrolledTo5"
    by (simp_all add: BaseWidget_Resize_def listRenderer_Layout_def demoScrolledTo5_fields)
  from updateList_abort_keeps_layout[OF h1 h2, of True] f show ?thesis by auto
qed


subsection \<open>Callbacks of a change of selection\<close>

lemma selectionCallbacks_append [simp]:
  "selectionCallbacks (xs @ ys) = selectionCallbacks xs @ selectionCallbacks ys"
  by (simp add: selectionCallbacks_def)

lemma selectionCallbacks_simps [simp]:
  "selectionCallbacks [] = []"
  "selectionCallbacks (OnSelectedCalled i # evs) = OnSelectedCalled i # selectionCallbacks evs"
  "selectionCallbacks (OnUnselectedCalled i # evs) = OnUnselectedCalled i # selectionCallbacks evs"
  "selectionCallbacks (LogError # evs) = selectionCallbacks evs"
  "selectionCallbacks (UpdateItemCalled i a # evs) = selectionCallbacks evs"
  "selectionCallbacks (RefreshCalled # evs) = selectionCallbacks evs"
  "selectionCallbacks (CanvasRefreshed # evs) = selectionCallbacks evs"
  by (simp_all add: selectionCallbacks_def)

lemma calm_selectionCallbacks: "calm evs \<Longrightarrow> selectionCallbacks evs = []"
  by (induction evs) (auto simp: calm_def selectionCallbacks_def split: event.splits)

lemma Select_first_call:
  assumes "Select a l = Inr l1" and "0 \<le> a" and "a < listLength l"
    and "OnSelected l" and "OnUnselected l"
  shows "\<exists>evs0. trace l1 = trace l @
           (if selected l \<noteq> [] \<and> hd (selected l) = a then []
            else evs0 @ (if selected l = [] then [] else [OnUnselectedCalled (hd (selected l))])
                 @ [OnSelectedCalled a])
         \<and> calm evs0
         \<and> (if selected l \<noteq> [] \<and> hd (selected l) = a then evs0 = [] else RefreshCalled \<in> set evs0)"
proof (cases "selected l \<noteq> [] \<and> hd (selected l) = a")
  case True
  with assms(1) have "l1 = l" by (auto simp: Select_def)
  with True show ?thesis by (intro exI[of _ "[]"]) simp
next
  case False
  with assms obtain l2 where s: "scrollThenRefresh a (l\<lparr>selected := [a]\<rparr>) = Inr l2"
    and r: "l1 = selectCallbacks (selected l) a l2"
    by (auto simp: Select_def Let_def split: sum.splits)
  from scrollThenRefresh_config[OF s] obtain evs0 where
    c: "config l2 = config (l\<lparr>selected := [a]\<rparr>)"
    and e: "trace l2 = trace l @ evs0" "calm evs0" "RefreshCalled \<in> set evs0"
    by auto
  from c assms(4,5) have "OnSelected l2" "OnUnselected l2" by (simp_all add: config_def)
  with r e have "trace l1 = trace l @ evs0
      @ (if selected l = [] then [] else [OnUnselectedCalled (hd (selected l))]) @ [OnSelectedCalled a]"
    by (simp add: selectCallbacks_def Let_def)
  with False e show ?thesis by (intro exI[of _ evs0]) auto
qed

text \<open>
  Claim C6, as stated, fails. On the list resized to 200 by 50, where no row is selected,
  \<open>Select(0); Select(1)\<close> fires three selection callbacks: the select callback for row 0,
  which belongs to the first call, then the unselect callback for row 0 and the select
  callback for row 1, which belong to the second. Over the sequence two select callbacks
  fire, not one.
\<close>

theorem select_sequence_two_select_callbacks:
  "Select 0 demoRendered = Inr demoSelected0 \<and> Select 1 demoSelected0 = Inr demoSelected1
   \<and> selectionCallbacks (drop (length (trace demoRendered)) (trace demoSelected1))
       = [OnSelectedCalled 0, OnUnselectedCalled 0, OnSelectedCalled 1]"
  using run_Select_0 run_Select_1
  by (simp add: demoRendered_fields demoSelected1_fields)

text \<open>
  Claim C6, amended. Let \<open>a\<close> and \<open>b\<close> be different rows in range and let both callbacks
  be set. The first call of \<open>Select(a); Select(b)\<close> fires nothing when \<open>a\<close> is the
  selected row already. Otherwise it scrolls and re-renders (the events \<open>evs0\<close>, which
  contain the call of \<open>Refresh\<close> and no selection callback) and then fires the unselect
  callback for the row that was selected before, if there was one, and the select callback
  for \<open>a\<close>. The second call scrolls and re-renders, which gives a state \<open>l'\<close> (the events
  \<open>evs\<close>, again with the call of \<open>Refresh\<close> and without selection callbacks), and returns
  \<open>l'\<close> with exactly two more events: the unselect callback for \<open>a\<close>, then the select
  callback for \<open>b\<close>. So the selection callbacks of the whole sequence are those of the
  first call followed by unselect \<open>a\<close> and select \<open>b\<close>; they are one unselect and one
  select callback exactly when \<open>a\<close> was the selected row before the sequence.
\<close>

theorem select_then_select_callbacks:
  assumes "Select a l = Inr l1" and "Select b l1 = Inr l2" and "a \<noteq> b"
    and "0 \<le> a" and "a < listLength l" and "0 \<le> b" and "b < listLength l"
    and "OnSelected l" and "OnUnselected l"
  shows "\<exists>evs0 l' evs.
       trace l1 = trace l @
           (if selected l \<noteq> [] \<and> hd (selected l) = a then []
            else evs0 @ (if selected l = [] then [] else [OnUnselectedCalled (hd (selected l))])
                 @ [OnSelectedCalled a])
     \<and> (\<forall>i. OnSelectedCalled i \<notin> set evs0 \<and> OnUnselectedCalled i \<notin> set evs0)
     \<and> (if selected l \<noteq> [] \<and> hd (selected l) = a then evs0 = [] else RefreshCalled \<in> set evs0)
     \<and> scrollThenRefresh b (l1\<lparr>selected := [b]\<rparr>) = Inr l'
     \<and> trace l' = trace l1 @ evs
     \<and> RefreshCalled \<in> set evs
     \<and> (\<forall>i. OnSelectedCalled i \<notin> set evs \<and> OnUnselectedCalled i \<notin> set evs)
     \<and> l2 = l'\<lparr>trace := trace l1 @ evs @ [OnUnselectedCalled a, OnSelectedCalled b]\<rparr>
     \<and> selectionCallbacks (drop (length (trace l)) (trace l2)) =
          (if selected l \<noteq> [] \<and> hd (selected l) = a then []
           else (if selected l = [] then [] else [OnUnselectedCalled (hd (selected l))])
                @ [OnSelectedCalled a])
          @ [OnUnselectedCalled a, OnSelectedCalled b]"
proof -
  from Select_first_call[OF assms(1,4,5,8,9)] obtain evs0 where
    f: "trace l1 = trace l @
           (if selected l \<noteq> [] \<and> hd (selected l) = a then []
            else evs0 @ (if selected l = [] then [] else [OnUnselectedCalled (hd (selected l))])
                 @ [OnSelectedCalled a])"
    and f0: "calm evs0"
    and f1: "if selected l \<noteq> [] \<and> hd (selected l) = a then evs0 = [] else RefreshCalled \<in> set evs0"
    by blast
  from Select_result[OF assms(1,4,5)] have s1: "selected l1 \<noteq> []" "hd (selected l1) = a"
    "listLength l1 = listLength l" "OnSelected l1" "OnUnselected l1"
    using assms(8,9) by simp_all
  with assms obtain l' where s: "scrollThenRefresh b (l1\<lparr>selected := [b]\<rparr>) = Inr l'"
    and r: "l2 = selectCallbacks (selected l1) b l'"
    by (auto simp: Select_def Let_def split: sum.splits)
  from scrollThenRefresh_config[OF s] obtain evs where
    c: "config l' = config (l1\<lparr>selected := [b]\<rparr>)"
    and e: "trace l' = trace l1 @ evs" "calm evs" "RefreshCalled \<in> set evs"
    by auto
  from c s1 have "OnSelected l'" "OnUnselected l'" by (simp_all add: config_def)
  with r s1 e have l2: "l2 = l'\<lparr>trace := trace l1 @ evs @ [OnUnselectedCalled a, OnSelectedCalled b]\<rparr>"
    by (simp add: selectCallbacks_def Let_def)
  then have t2: "trace l2 = trace l1 @ evs @ [OnUnselectedCalled a, OnSelectedCalled b]" by simp
  have cnt: "selectionCallbacks (drop (length (trace l)) (trace l2)) =
          (if selected l \<noteq> [] \<and> hd (selected l) = a then []
           else (if selected l = [] then [] else [OnUnselectedCalled (hd (selected l))])
                @ [OnSelectedCalled a])
          @ [OnUnselectedCalled a, OnSelectedCalled b]"
    unfolding t2 f using calm_selectionCallbacks[OF f0] calm_selectionCallbacks[OF e(2)]
    by simp
  from f f1 s e(1,3) l2 cnt calm_no_callback[OF f0] calm_no_callback[OF e(2)]
  show ?thesis by blast
qed

theorem select_then_select_callbacks_witness:
  "\<exists>evs0 l' evs.
       trace demoSelected0 = trace demoRendered @ evs0 @ [OnSelectedCalled 0]
     \<and> (\<forall>i. OnSelectedCalled i \<notin> set evs0 \<and> OnUnselectedCalled i \<notin> set evs0)
     \<and> RefreshCalled \<in> set evs0
     \<and> scrollThenRefresh 1 (demoSelected0\<lparr>selected := [1]\<rparr>) = Inr l'
     \<and> trace l' = trace demoSelected0 @ evs
     \<and> RefreshCalled \<in> set evs
     \<and> (\<forall>i. OnSelectedCalled i \<notin> set evs \<and> OnUnselectedCalled i \<notin> set evs)
     \<and> demoSelected1 = l'\<lparr>trace := trace demoSelected0 @ evs @ [OnUnselectedCalled 0, OnSelectedCalled 1]\<rparr>
     \<and> selectionCallbacks (drop (length (trace demoRendered)) (trace demoSelected1))
         = [OnSelectedCalled 0, OnUnselectedCalled 0, OnSelectedCalled 1]"
proof -
  have h: "(0::int) \<noteq> 1" "(0::int) \<le> 0" "0 < listLength demoRendered" "(0::int) \<le> 1"
    "1 < listLength demoRendered" "OnSelected demoRendered" "OnUnselected demoRendered"
    by (simp_all add: listLength_def demoRendered_fields)
  have e: "selected demoRendered = []" by (simp add: demoRendered_fields)
  show ?thesis
    using select_then_select_callbacks[OF run_Select_0 run_Select_1 h] by (simp add: e)
qed


subsection \<open>At most one selected row\<close>

text \<open>
  Every operation leaves the selection as it was or replaces it by a list of at most one id.
\<close>

lemma Select_selected:
  assumes "Select i l = Inr l'"
  shows "selected l' = selected l \<or> selected l' = [i]"
proof (cases "(selected l \<noteq> [] \<and> i = hd (selected l)) \<or> i < 0 \<or> i \<ge> listLength l")
  case True
  with assms have "l' = l" by (auto simp: Select_def split: if_splits)
  then show ?thesis by simp
next
  case False
  with assms obtain l2 where s: "scrollThenRefresh i (l\<lparr>selected := [i]\<rparr>) = Inr l2"
    and r: "l' = selectCallbacks (selected l) i l2"
    by (auto simp: Select_def Let_def split: sum.splits)
  from scrollThenRefresh_config[OF s] have "selected l2 = [i]" by (simp add: config_def)
  with r show ?thesis by (simp add: selectCallbacks_def Let_def)
qed

lemma Unselect_selected:
  assumes "Unselect i l = Inr l'"
  shows "selected l' = selected l \<or> selected l' = []"
proof (cases "selected l = [] \<or> hd (selected l) \<noteq> i")
  case True
  with assms show ?thesis by (auto simp: Unselect_def)
next
  case False
  with assms obtain l1 where r: "Refresh (l\<lparr>selected := []\<rparr>) = Inr l1"
    and l': "l' = (if OnUnselected l1 then l1\<lparr>trace := trace l1 @ [OnUnselectedCalled i]\<rparr> else l1)"
    by (auto simp: Unselect_def split: sum.splits)
  from Refresh_config[OF r] have "selected l1 = []" by (simp add: config_def)
  with l' show ?thesis by simp
qed

lemma UnselectAll_selected:
  assumes "UnselectAll l = Inr l'"
  shows "selected l' = []"
proof (cases "selected l = []")
  case True
  with assms show ?thesis by (auto simp: UnselectAll_def)
next
  case False
  with assms obtain l1 where r: "Refresh (l\<lparr>selected := []\<rparr>) = Inr l1"
    and l': "l' = (if OnUnselected l1 then l1\<lparr>trace := trace l1 @ map OnUnselectedCalled (selected l)\<rparr> else l1)"
    by (auto simp: UnselectAll_def split: sum.splits)
  from Refresh_config[OF r] have "selected l1 = []" by (simp add: config_def)
  with l' show ?thesis by simp
qed

lemma SetItemHeight_selected:
  assumes "SetItemHeight i h l = Inr l'"
  shows "selected l' = selected l"
proof (cases "heightOf (itemHeights l) 0 i \<noteq> h")
  case True
  with assms have "Refresh (l\<lparr>itemHeights := AList.update i h (itemHeights l)\<rparr>) = Inr l'"
    by (simp add: SetItemHeight_def Let_def)
  from Refresh_config[OF this] show ?thesis by (simp add: config_def)
next
  case False
  with assms show ?thesis by (auto simp: SetItemHeight_def Let_def)
qed

lemma Resize_selected:
  assumes "Resize s l = Inr l'"
  shows "selected l' = selected l"
proof (cases "scroller (BaseWidget_Resize s l)")
  case None
  with assms show ?thesis
    by (auto simp: Resize_def Let_def BaseWidget_Resize_def listRenderer_Layout_def)
next
  case (Some sc)
  with assms obtain l2 where o: "offsetUpdated (Offset sc) (BaseWidget_Resize s l) = Inr l2"
    and u: "updateList True l2 = Inr l'"
    by (auto simp: Resize_def Let_def split: sum.splits)
  have "config (BaseWidget_Resize s l) = config l"
    by (simp add: BaseWidget_Resize_def listRenderer_Layout_def)
  with offsetUpdated_config[OF o] updateList_config(1)[OF u] show ?thesis
    by (simp add: config_def)
qed

lemma Scrolled_selected:
  assumes "Scrolled p l = Inr l'"
  shows "selected l' = selected l"
proof (cases "scroller l")
  case None
  with assms show ?thesis by (simp add: Scrolled_def)
next
  case (Some sc)
  with assms have "offsetUpdated p (l\<lparr>scroller := Some (sc\<lparr>Offset := p\<rparr>)\<rparr>) = Inr l'"
    by (simp add: Scrolled_def)
  from offsetUpdated_config[OF this] show ?thesis by (simp add: config_def)
qed

lemma CreateRenderer_selected:
  assumes "CreateRenderer l = Inr l'"
  shows "selected l' = selected l"
proof -
  define l2 where "l2 = (case CreateItem l of None \<Rightarrow> l
      | Some m \<Rightarrow> if itemMin l = NewSize 0 0 then l\<lparr>itemMin := m\<rparr> else l)
      \<lparr>scroller := Some \<lparr>Offset = NewPos 0 0, scroll_size = NewSize 0 0, Objects = []\<rparr>,
        separators := [], children := [], itemPool := [], visible := []\<rparr>"
  have s2: "selected l2 = selected l" by (simp add: l2_def split: option.splits)
  from assms have "l' = l2 \<or> updateList True l2 = Inr l'"
    by (auto simp: CreateRenderer_def Let_def l2_def split: if_splits)
  then show ?thesis
  proof
    assume "l' = l2" with s2 show ?thesis by simp
  next
    assume "updateList True l2 = Inr l'"
    from updateList_config(1)[OF this] s2 show ?thesis by (simp add: config_def)
  qed
qed

lemma scrollThenRefresh_selected:
  "scrollThenRefresh i l = Inr l' \<Longrightarrow> selected l' = selected l"
  using scrollThenRefresh_config[of i l l'] by (simp add: config_def)

lemma perform_selected:
  assumes "perform op l = Inr l'"
  shows "selected l' = selected l \<or> length (selected l') \<le> 1"
proof (cases op)
  case (OpSelect i)
  with assms Select_selected[of i l l'] show ?thesis by auto
next
  case (OpUnselect i)
  with assms Unselect_selected[of i l l'] show ?thesis by auto
next
  case OpUnselectAll
  with assms UnselectAll_selected[of l l'] show ?thesis by auto
next
  case (OpScrollTo i)
  with assms scrollThenRefresh_selected[of i l l'] show ?thesis
    by (auto simp: ScrollTo_def split: if_splits)
next
  case OpScrollToTop
  with assms scrollThenRefresh_selected[of 0 l l'] show ?thesis
    by (auto simp: ScrollToTop_def)
next
  case OpScrollToBottom
  with assms show ?thesis
    using scrollThenRefresh_selected[of _ l l'] by (auto simp: ScrollToBottom_def Let_def)
next
  case (OpSetItemHeight i h)
  with assms SetItemHeight_selected[of i h l l'] show ?thesis by auto
next
  case (OpResize s)
  with assms Resize_selected[of s l l'] show ?thesis by auto
next
  case OpRefresh
  with assms Refresh_config[of l l'] show ?thesis by (auto simp: config_def)
next
  case (OpTapped a)
  show ?thesis
  proof (cases "onTapped (items l a)")
    case None
    with assms OpTapped show ?thesis by (simp add: Tapped_def)
  next
    case (Some i)
    with assms OpTapped
    have "Select i (l\<lparr>items := (items l)(a := (items l a)\<lparr>item_selected := True\<rparr>)\<rparr>) = Inr l'"
      by (simp add: Tapped_def)
    from Select_selected[OF this] show ?thesis by auto
  qed
next
  case (OpScrolled p)
  with assms Scrolled_selected[of p l l'] show ?thesis by auto
next
  case OpCreateRenderer
  with assms CreateRenderer_selected[of l l'] show ?thesis by auto
qed

text \<open>
  Claim C7. The selection never holds more than one id: a new list has none, and an
  operation that finds at most one selected id leaves at most one. The operations are the
  public ones (\<open>Select\<close>, \<open>Unselect\<close>, \<open>UnselectAll\<close>, the three scroll operations,
  \<open>SetItemHeight\<close>, \<open>Resize\<close>, \<open>Refresh\<close>) and those of the environment (a tap on a
  row, a user scroll, the creation of the renderer).
\<close>

theorem selection_at_most_one:
  "length (selected (NewList n c u p t cv)) \<le> 1
   \<and> (length (selected l) \<le> 1 \<longrightarrow> perform op l = Inr l' \<longrightarrow> length (selected l') \<le> 1)"
  using perform_selected[of op l l'] by (auto simp: NewList_def)

theorem selection_at_most_one_witness:
  "length (selected (NewList (Some 100) (Some (NewSize 80 20)) True 1 1 (Some None))) \<le> 1
   \<and> length (selected demoRendered) \<le> 1 \<and> perform (OpSelect 0) demoRendered = Inr demoSelected0
   \<and> length (selected demoSelected0) \<le> 1"
proof -
  have h1: "length (selected demoRendered) \<le> 1" by (simp add: demoRendered_fields)
  have h2: "perform (OpSelect 0) demoRendered = Inr demoSelected0" by (simp add: run_Select_0)
  show ?thesis
    using selection_at_most_one[of "Some 100" "Some (NewSize 80 20)" True 1 1 "Some None"
        demoRendered "OpSelect 0" demoSelected0] h1 h2
    by simp
qed

text \<open>Hence the bound holds after any run of operations on a new list.\<close>

lemma performAll_selected:
  "length (selected l) \<le> 1 \<Longrightarrow> performAll ops l = Inr l' \<Longrightarrow> length (selected l') \<le> 1"
proof (induction ops arbitrary: l)
  case Nil
  then show ?case by simp
next
  case (Cons op ops)
  from Cons.prems(2) obtain l1 where p: "perform op l = Inr l1" and r: "performAll ops l1 = Inr l'"
    by (auto split: sum.splits)
  from perform_selected[OF p] Cons.prems(1) have "length (selected l1) \<le> 1" by auto
  from Cons.IH[OF this r] show ?case .
qed


subsection \<open>Height overrides\<close>

text \<open>
  Claim C10. \<open>SetItemHeight(id, height)\<close> always records the override, and it calls
  \<open>Refresh\<close> exactly when the height stored before, read as 0 when there is none, differs
  from \<open>height\<close>. With the stored height it returns the state with only the map written;
  so does the first \<open>SetItemHeight(id, 0)\<close> for a row without override. In terms of the
  trace: among the events of a call that returns, \<open>RefreshCalled\<close> occurs if and only if
  the heights differ.
\<close>

theorem SetItemHeight_refresh_iff:
  "(heightOf (itemHeights l) 0 id' = h \<longrightarrow>
      SetItemHeight id' h l = Inr (l\<lparr>itemHeights := AList.update id' h (itemHeights l)\<rparr>))
   \<and> (heightOf (itemHeights l) 0 id' \<noteq> h \<longrightarrow>
      SetItemHeight id' h l = Refresh (l\<lparr>itemHeights := AList.update id' h (itemHeights l)\<rparr>))
   \<and> (SetItemHeight id' h l = Inr l' \<longrightarrow>
      map_of (itemHeights l') id' = Some h
      \<and> (\<exists>evs. trace l' = trace l @ evs
            \<and> (RefreshCalled \<in> set evs \<longleftrightarrow> heightOf (itemHeights l) 0 id' \<noteq> h)))"
proof -
  let ?l1 = "l\<lparr>itemHeights := AList.update id' h (itemHeights l)\<rparr>"
  have a: "heightOf (itemHeights l) 0 id' = h \<Longrightarrow> SetItemHeight id' h l = Inr ?l1"
    by (simp add: SetItemHeight_def Let_def)
  have b: "heightOf (itemHeights l) 0 id' \<noteq> h \<Longrightarrow> SetItemHeight id' h l = Refresh ?l1"
    by (simp add: SetItemHeight_def Let_def)
  have m: "map_of (itemHeights ?l1) id' = Some h"
    by (simp add: update_conv')
  have c: "map_of (itemHeights l') id' = Some h
      \<and> (\<exists>evs. trace l' = trace l @ evs
            \<and> (RefreshCalled \<in> set evs \<longleftrightarrow> heightOf (itemHeights l) 0 id' \<noteq> h))"
    if r: "SetItemHeight id' h l = Inr l'"
  proof (cases "heightOf (itemHeights l) 0 id' = h")
    case True
    with a r have "l' = ?l1" by simp
    with True m show ?thesis by simp
  next
    case False
    with b r have "Refresh ?l1 = Inr l'" by simp
    from Refresh_config[OF this] obtain evs where
      "config l' = config ?l1" "trace l' = trace ?l1 @ RefreshCalled # evs"
      by blast
    then have "itemHeights l' = itemHeights ?l1" "trace l' = trace l @ (RefreshCalled # evs)"
      by (simp_all add: config_def)
    with False m show ?thesis by (metis list.set_intros(1))
  qed
  from a b c show ?thesis by blast
qed

theorem SetItemHeight_refresh_iff_witness:
  "SetItemHeight 7 0 demoRendered = Inr (demoRendered\<lparr>itemHeights := [(7, 0)]\<rparr>)
   \<and> SetItemHeight 5 40 demoOverride = Inr demoOverride
   \<and> SetItemHeight 5 40 demoRendered = Refresh (demoRendered\<lparr>itemHeights := [(5, 40)]\<rparr>)
   \<and> map_of (itemHeights demoOverride) 5 = Some 40
   \<and> (\<exists>evs. trace demoOverride = trace demoRendered @ evs \<and> RefreshCalled \<in> set evs)"
proof -
  have h1: "heightOf (itemHeights demoRendered) 0 7 = 0"
    by (simp add: heightOf_def demoRendered_fields)
  have h2: "heightOf (itemHeights demoOverride) 0 5 = 40"
    by (simp add: heightOf_def demoOverride_fields)
  have h3: "heightOf (itemHeights demoRendered) 0 5 \<noteq> 40"
    by (simp add: heightOf_def demoRendered_fields)
  have u1: "AList.update 7 0 (itemHeights demoRendered) = [(7, 0)]"
    "AList.update 5 40 (itemHeights demoRendered) = [(5, 40)]"
    by (simp_all add: demoRendered_fields)
  have u2: "demoOverride\<lparr>itemHeights := AList.update 5 40 (itemHeights demoOverride)\<rparr> = demoOverride"
    by (simp add: demoOverride_fields demoOverride_def)
  show ?thesis
    using SetItemHeight_refresh_iff[of demoRendered 7 0 demoRendered]
      SetItemHeight_refresh_iff[of demoOverride 5 40 demoOverride]
      SetItemHeight_refresh_iff[of demoRendered 5 40 demoOverride]
      h1 h2 h3 u1 u2 run_SetItemHeight
    by simp
qed


subsection \<open>Running the pass twice\<close>

text \<open>
  Claim C9. A second pass right after a pass that returned, with nothing changed in
  between, returns as well and leaves the mounted views as they are: the same map from rows
  to views and the same children. It takes no view from the pool and gives none back, and it
  creates none.
\<close>

theorem updateList_idempotent:
  assumes "updateList r1 l = Inr l1"
  shows "\<exists>l2. updateList r2 l1 = Inr l2 \<and> visible l2 = visible l1 \<and> children l2 = children l1
     \<and> itemPool l2 = itemPool l1 \<and> next_item l2 = next_item l1"
proof -
  from assms obtain hs offY minRow where
    v: "visibleItemHeights l (Height (itemMin l)) (listLength l) = Inr (hs, offY, minRow)"
    using visibleItemHeights_facade[of "l\<lparr>trace := trace l @ [LogError]\<rparr>" l]
    by (auto simp: updateList_def Let_def split: sum.splits if_splits)
  have f: "facade l1 = facade l" using updateList_facade_trace[OF assms] by simp
  then have same: "itemMin l1 = itemMin l" "listLength l1 = listLength l"
    by (simp_all add: facade_fields[OF f])
  with v have v1: "visibleItemHeights l1 (Height (itemMin l1)) (listLength l1) = Inr (hs, offY, minRow)"
    using visibleItemHeights_facade[OF f] by simp
  show ?thesis
  proof (cases "hs = [] \<and> listLength l > 0")
    case True
    with v1 same have "updateList r2 l1 = Inr (if UpdateItem l1 then l1 else l1\<lparr>trace := trace l1 @ [LogError]\<rparr>)"
      using updateList_abort[of l1 offY minRow r2] by simp
    then show ?thesis by simp
  next
    case False
    from updateList_mounted[OF assms v False] obtain cs where
      cs: "length cs = length hs" "visible l1 = rowsFrom minRow cs" "children l1 = cs"
      by blast
    define l0 where "l0 = (if \<not> UpdateItem l1 then l1\<lparr>trace := trace l1 @ [LogError]\<rparr> else l1)"
    have found: "\<forall>k < length cs. map_of (visible l1) (minRow + int k) = Some (cs ! k)"
      using cs(2) map_of_rowsFrom by simp
    from mountRows_remount[OF cs(1) found, of "[]" "Width (widget_size l1)" "theme_Padding l1" l0 "[]" offY]
    obtain m where m: "mountRows (visible l1) (Width (widget_size l1)) (theme_Padding l1) minRow hs
          (l0, [], [], offY) = Inr (m, rowsFrom minRow cs, cs)"
      and keep: "itemPool m = itemPool l0" "next_item m = next_item l0"
      by auto
    have na: "\<not> (hs = [] \<and> listLength l1 > 0)" using False same by simp
    from updateList_run[OF v1 na l0_def m, of r2] obtain l5 where
      p: "publish (updateSeparators ((releaseOld (visible l1) (canvas_Focused m)
            (m\<lparr>visible := rowsFrom minRow cs\<rparr>))\<lparr>children := cs\<rparr>)) = Inr l5"
      and u: "updateList r2 l1 = Inr (setupAll (rowsFrom minRow cs) (canvas_Focused m) l5)"
      by blast
    have "\<forall>(k, a) \<in> set (visible l1). map_of (visible (m\<lparr>visible := rowsFrom minRow cs\<rparr>)) k \<noteq> None"
      using mounted_keys[of "rowsFrom minRow cs"] cs(2) by simp
    then have rel: "releaseOld (visible l1) (canvas_Focused m) (m\<lparr>visible := rowsFrom minRow cs\<rparr>)
        = m\<lparr>visible := rowsFrom minRow cs\<rparr>"
      by (rule releaseOld_all_mounted)
    have "itemPool l0 = itemPool l1" "next_item l0 = next_item l1" by (simp_all add: l0_def)
    with updateList_layout[OF p] rel keep cs u show ?thesis by simp
  qed
qed

theorem updateList_idempotent_witness:
  "\<exists>l2. updateList False demoRendered = Inr l2 \<and> visible l2 = visible demoRendered
     \<and> children l2 = children demoRendered \<and> itemPool l2 = itemPool demoRendered
     \<and> next_item l2 = next_item demoRendered"
proof -
  have h: "updateList True (BaseWidget_Resize (NewSize 200 50) demoCreated) = Inr demoRendered"
    using run_Resize
    by (simp add: Resize_def offsetUpdated_def BaseWidget_Resize_def listRenderer_Layout_def
        demoCreated_fields NewPos_def)
  show ?thesis by (rule updateList_idempotent[OF h])
qed


subsection \<open>Separators\<close>

lemma placeSeparators_length [simp]:
  "length (placeSeparators l t d i cs seps) = length seps"
  by (induction cs arbitrary: i seps) simp_all

lemma placeSeparators_nth:
  "j < length seps \<Longrightarrow>
   placeSeparators l t d i cs seps ! j =
     (if i \<le> j \<and> j < i + length cs \<and> j \<noteq> 0
      then \<lparr>sep_position = NewPos 0 (Y (item_position (items l (cs ! (j - i)))) - d),
            sep_size = NewSize (Width (widget_size l)) t, sep_hidden = False\<rparr>
      else seps ! j)"
proof (induction cs arbitrary: i seps)
  case Nil
  then show ?case by auto
next
  case (Cons c cs)
  show ?case
  proof (cases "i = 0")
    case True
    with Cons.IH[of seps "Suc 0"] Cons.prems show ?thesis
      by (auto simp: nth_Cons')
  next
    case False
    let ?s = "seps[i := (seps ! i)\<lparr>
               sep_position := NewPos 0 (Y (item_position (items l c)) - d),
               sep_size := NewSize (Width (widget_size l)) t,
               sep_hidden := False\<rparr>]"
    have len: "j < length ?s" using Cons.prems by simp
    from Cons.IH[OF len, of "i + 1"] False Cons.prems show ?thesis
      by (auto simp: nth_Cons' nth_list_update)
  qed
qed

lemma updateSeparators_result:
  "length (separators (updateSeparators l))
     = (if length (children l) > 1 then length (children l) else 0)
   \<and> (\<forall>i. 1 \<le> i \<and> i < length (children l) \<longrightarrow>
         separators (updateSeparators l) ! i = placedSeparator l (children l ! i))"
  by (auto simp: updateSeparators_def Let_def placeSeparators_nth placedSeparator_def)

lemma setupListItem_position [simp]:
  "item_position (items (setupListItem a i f l) b) = item_position (items l b)"
  by (simp add: setupListItem_def Let_def)

lemma setupAll_position [simp]:
  "item_position (items (setupAll v f l) b) = item_position (items l b)"
  by (induction v f l rule: setupAll.induct) simp_all


text \<open>The first loop of the pass keeps the views apart and stacks them one padding apart.\<close>

lemma moveItem_other [simp]: "a \<noteq> c \<Longrightarrow> items (moveItem c p l) a = items l a"
  by (simp add: moveItem_def)

lemma resizeItem_other [simp]: "a \<noteq> c \<Longrightarrow> items (resizeItem c s l) a = items l a"
  by (simp add: resizeItem_def)

lemma placed_row [simp]:
  "rowTop (resizeItem c (NewSize w h) (moveItem c (NewPos 0 y) l)) c = y"
  "rowBottom (resizeItem c (NewSize w h) (moveItem c (NewPos 0 y) l)) c = y + h"
  by (simp_all add: rowTop_def rowBottom_def resizeItem_def moveItem_def NewSize_def NewPos_def)

lemma row_cong:
  "items l' a = items l a \<Longrightarrow> rowTop l' a = rowTop l a \<and> rowBottom l' a = rowBottom l a"
  by (simp add: rowTop_def rowBottom_def)

lemma stacked_snoc:
  assumes "stacked l gap cells" and "cells \<noteq> [] \<longrightarrow> rowBottom l (last cells) + gap = y"
    and "c \<notin> set cells" and "\<forall>a. a \<noteq> c \<longrightarrow> items l' a = items l a"
    and "rowTop l' c = y"
  shows "stacked l' gap (cells @ [c])"
  unfolding stacked_def
proof (intro allI impI)
  fix i assume i: "1 \<le> i \<and> i < length (cells @ [c])"
  have same: "rowTop l' a = rowTop l a \<and> rowBottom l' a = rowBottom l a" if "a \<in> set cells" for a
  proof -
    from that assms(3) have "a \<noteq> c" by auto
    with assms(4) have "items l' a = items l a" by simp
    then show ?thesis by (rule row_cong)
  qed
  show "rowTop l' ((cells @ [c]) ! i) = rowBottom l' ((cells @ [c]) ! (i - 1)) + gap"
  proof (cases "i < length cells")
    case True
    with i have "cells ! i \<in> set cells" "cells ! (i - 1) \<in> set cells" by simp_all
    with same have "rowTop l' (cells ! i) = rowTop l (cells ! i)"
      "rowBottom l' (cells ! (i - 1)) = rowBottom l (cells ! (i - 1))" by simp_all
    moreover from assms(1) i True have "rowTop l (cells ! i) = rowBottom l (cells ! (i - 1)) + gap"
      by (simp add: stacked_def)
    moreover have "i - 1 < length cells" using True by simp
    ultimately show ?thesis using True by (simp add: nth_append)
  next
    case False
    with i have e: "i = length cells" "cells \<noteq> []" by auto
    then have "(cells @ [c]) ! (i - 1) = last cells" by (simp add: nth_append last_conv_nth)
    moreover have "last cells \<in> set cells" using e by simp
    ultimately have "rowBottom l' ((cells @ [c]) ! (i - 1)) = rowBottom l (last cells)"
      using same by simp
    with assms(2,5) e show ?thesis by simp
  qed
qed

lemma apart_values: "distinct (map snd wv) \<Longrightarrow> (k, a) \<in> set wv \<Longrightarrow> (k', a) \<in> set wv \<Longrightarrow> k = k'"
  by (metis distinct_map inj_onD prod.collapse prod.inject snd_conv)

lemma mounting_step:
  assumes m: "mounting wv gap row l v cells y"
    and c: "c \<notin> set cells" "c \<notin> snd ` set wv \<or> (row, c) \<in> set wv"
    and p: "distinct (itemPool l2)" "set (itemPool l2) \<subseteq> set (itemPool l)" "c \<notin> set (itemPool l2)"
    and n: "next_item l \<le> next_item l2" "c < next_item l2"
    and i: "\<forall>a. a \<noteq> c \<longrightarrow> items l2 a = items l a"
  shows "mounting wv gap (row + 1) (resizeItem c (NewSize w h) (moveItem c (NewPos 0 y) l2))
           (AList.update row c v) (cells @ [c]) (y + h + gap)"
proof -
  let ?l = "resizeItem c (NewSize w h) (moveItem c (NewPos 0 y) l2)"
  from m have d: "distinct (map snd wv)" "distinct cells" "set cells \<inter> set (itemPool l) = {}"
    "snd ` set wv \<inter> set (itemPool l) = {}"
    "\<forall>a \<in> snd ` set wv \<union> set (itemPool l) \<union> set cells. a < next_item l"
    "\<forall>k \<in> fst ` set v. k < row" "\<forall>(k, a) \<in> set wv. a \<in> set cells \<longrightarrow> k \<in> fst ` set v"
    "stacked l gap cells" "cells \<noteq> [] \<longrightarrow> rowBottom l (last cells) + gap = y"
    by (simp_all add: mounting_def)
  have fresh: "row \<notin> fst ` set v" using d(6) by auto
  then have u: "AList.update row c v = v @ [(row, c)]" by (rule update_fresh)
  have it: "\<forall>a. a \<noteq> c \<longrightarrow> items ?l a = items l a" using i by simp
  have st: "stacked ?l gap (cells @ [c])"
    by (rule stacked_snoc[OF d(8) d(9) c(1) it]) simp
  have k: "\<forall>(k, a) \<in> set wv. a \<in> set (cells @ [c]) \<longrightarrow> k \<in> fst ` set (AList.update row c v)"
  proof (clarify)
    fix k a assume ka: "(k, a) \<in> set wv" "a \<in> set (cells @ [c])"
    show "k \<in> fst ` set (AList.update row c v)"
    proof (cases "a = c")
      case True
      with ka c(2) have "(row, c) \<in> set wv" by force
      with ka True d(1) have "k = row" using apart_values by fastforce
      then show ?thesis using u by simp
    next
      case False
      with ka d(7) have "k \<in> fst ` set v" by auto
      then show ?thesis using u by auto
    qed
  qed
  have b: "rowBottom ?l (last (cells @ [c])) + gap = y + h + gap" by simp
  have lt: "\<forall>a \<in> snd ` set wv \<union> set (itemPool ?l) \<union> set (cells @ [c]). a < next_item ?l"
  proof
    fix a assume "a \<in> snd ` set wv \<union> set (itemPool ?l) \<union> set (cells @ [c])"
    then consider "a \<in> snd ` set wv \<union> set (itemPool l) \<union> set cells" | "a = c"
      using p(2) by auto
    then show "a < next_item ?l"
    proof cases
      case 1
      with d(5) have "a < next_item l" by blast
      with n(1) show ?thesis by simp
    next
      case 2
      with n(2) show ?thesis by simp
    qed
  qed
  have k6: "\<forall>k \<in> fst ` set (AList.update row c v). k < row + 1" using d(6) u by auto
  show ?thesis
    unfolding mounting_def
    using d(1,2,3,4) p c(1) st k b lt k6 by (simp; blast)
qed


lemma getItem_fresh:
  assumes "getItem l = Inr (c, l1)" and "distinct (itemPool l)"
    and "\<forall>a \<in> set (itemPool l). a < next_item l"
  shows "set (itemPool l1) \<subseteq> set (itemPool l) \<and> distinct (itemPool l1) \<and> c \<notin> set (itemPool l1)
     \<and> next_item l \<le> next_item l1 \<and> c < next_item l1
     \<and> (\<forall>a. a \<noteq> c \<longrightarrow> items l1 a = items l a)
     \<and> (c \<in> set (itemPool l) \<or> c = next_item l)
     \<and> separators l1 = separators l \<and> children l1 = children l"
  using assms by (auto simp: getItem_def Obtain_def split: list.splits option.splits)

lemma layout_kept [simp]:
  "separators (moveItem c p l) = separators l" "children (moveItem c p l) = children l"
  "separators (resizeItem c s l) = separators l" "children (resizeItem c s l) = children l"
  by (simp_all add: moveItem_def resizeItem_def)

lemma mountRows_mounting:
  assumes "mountRows wv w gap row hs (l, v, cells, y) = Inr (l', v', cells')"
    and "mounting wv gap row l v cells y"
  shows "(\<exists>row' y'. mounting wv gap row' l' v' cells' y')
     \<and> separators l' = separators l \<and> children l' = children l"
  using assms
proof (induction hs arbitrary: row l v cells y)
  case Nil
  then show ?case by auto
next
  case (Cons h hs)
  from Cons.prems(2) have d: "distinct (map snd wv)" "distinct (itemPool l)"
    "set cells \<inter> set (itemPool l) = {}" "snd ` set wv \<inter> set (itemPool l) = {}"
    "\<forall>a \<in> snd ` set wv \<union> set (itemPool l) \<union> set cells. a < next_item l"
    "\<forall>k \<in> fst ` set v. k < row" "\<forall>(k, a) \<in> set wv. a \<in> set cells \<longrightarrow> k \<in> fst ` set v"
    by (simp_all add: mounting_def)
  show ?case
  proof (cases "map_of wv row")
    case (Some c)
    with Cons.prems(1) have m: "mountRows wv w gap (row + 1) hs
            (resizeItem c (NewSize w h) (moveItem c (NewPos 0 y) l),
             AList.update row c v, cells @ [c], y + h + gap) = Inr (l', v', cells')"
      by (simp add: Let_def)
    from Some have in_wv: "(row, c) \<in> set wv" by (rule map_of_SomeD)
    have c1: "c \<notin> set cells"
    proof
      assume "c \<in> set cells"
      with in_wv d(7) have "row \<in> fst ` set v" by auto
      with d(6) show False by auto
    qed
    have c2: "c \<notin> set (itemPool l)" using in_wv d(4) by force
    have c3: "c < next_item l" using in_wv d(5) by force
    have "mounting wv gap (row + 1) (resizeItem c (NewSize w h) (moveItem c (NewPos 0 y) l))
           (AList.update row c v) (cells @ [c]) (y + h + gap)"
      by (rule mounting_step[OF Cons.prems(2) c1 _ d(2) _ c2 _ c3]) (use in_wv in simp_all)
    from Cons.IH[OF m this] show ?thesis by simp
  next
    case None
    with Cons.prems(1) obtain c l1 where g: "getItem l = Inr (c, l1)"
      and m: "mountRows wv w gap (row + 1) hs
            (resizeItem c (NewSize w h) (moveItem c (NewPos 0 y) (resizeItem c (NewSize w h) l1)),
             AList.update row c v, cells @ [c], y + h + gap) = Inr (l', v', cells')"
      by (auto simp: Let_def split: sum.splits)
    have "\<forall>a \<in> set (itemPool l). a < next_item l" using d(5) by blast
    from getItem_fresh[OF g d(2) this] have f: "set (itemPool l1) \<subseteq> set (itemPool l)"
      "distinct (itemPool l1)" "c \<notin> set (itemPool l1)" "next_item l \<le> next_item l1"
      "c < next_item l1" "\<forall>a. a \<noteq> c \<longrightarrow> items l1 a = items l a"
      "c \<in> set (itemPool l) \<or> c = next_item l"
      "separators l1 = separators l" "children l1 = children l"
      by simp_all
    let ?l2 = "resizeItem c (NewSize w h) l1"
    have lt: "a < next_item l" if "a \<in> snd ` set wv \<or> a \<in> set cells" for a
      using that d(5) by blast
    have c1: "c \<notin> set cells"
    proof
      assume a: "c \<in> set cells"
      with lt have "c < next_item l" by blast
      with f(7) have "c \<in> set (itemPool l)" by auto
      with a d(3) show False by blast
    qed
    have c2: "c \<notin> snd ` set wv"
    proof
      assume a: "c \<in> snd ` set wv"
      with lt have "c < next_item l" by blast
      with f(7) have "c \<in> set (itemPool l)" by auto
      with a d(4) show False by blast
    qed
    have "mounting wv gap (row + 1) (resizeItem c (NewSize w h) (moveItem c (NewPos 0 y) ?l2))
           (AList.update row c v) (cells @ [c]) (y + h + gap)"
      by (rule mounting_step[OF Cons.prems(2) c1]) (use c2 f in simp_all)
    from Cons.IH[OF m this] f(8,9) show ?thesis by simp
  qed
qed


text \<open>The second loop moves no view; it pools the views that are no longer mounted.\<close>

lemma canvas_Focus_nil_kept [simp]:
  "itemPool (canvas_Focus_nil l) = itemPool l" "next_item (canvas_Focus_nil l) = next_item l"
  "separators (canvas_Focus_nil l) = separators l" "children (canvas_Focus_nil l) = children l"
  "rowTop (canvas_Focus_nil l) a = rowTop l a" "rowBottom (canvas_Focus_nil l) a = rowBottom l a"
  by (simp_all add: canvas_Focus_nil_def FocusLost_def rowTop_def rowBottom_def split: option.splits)

lemma releaseOld_kept [simp]:
  "next_item (releaseOld wv f l) = next_item l \<and> separators (releaseOld wv f l) = separators l
   \<and> children (releaseOld wv f l) = children l
   \<and> rowTop (releaseOld wv f l) a = rowTop l a \<and> rowBottom (releaseOld wv f l) a = rowBottom l a"
proof (induction wv f l rule: releaseOld.induct)
  case (1 focused l)
  then show ?case by simp
next
  case (2 id' old rest focused l)
  have r: "rowTop (l'\<lparr>itemPool := p\<rparr>) a = rowTop l' a" "rowBottom (l'\<lparr>itemPool := p\<rparr>) a = rowBottom l' a"
    for l' p
    by (simp_all add: rowTop_def rowBottom_def)
  from 2 show ?case by (simp add: Let_def r)
qed

lemma releaseOld_pool:
  assumes "distinct (map snd wv)" and "distinct (itemPool l)"
    and "snd ` set wv \<inter> set (itemPool l) = {}"
  shows "distinct (itemPool (releaseOld wv f l))
     \<and> set (itemPool (releaseOld wv f l))
         = set (itemPool l) \<union> {a. \<exists>k. (k, a) \<in> set wv \<and> map_of (visible l) k = None}"
  using assms
proof (induction wv f l rule: releaseOld.induct)
  case (1 focused l)
  then show ?case by simp
next
  case (2 id' old rest focused l)
  let ?lm = "(if map_of (visible l) id' = None then
          (let l1 = (if focused = Some old then canvas_Focus_nil l else l)
           in l1\<lparr>itemPool := Release old (itemPool l1)\<rparr>)
        else l)"
  have v: "visible ?lm = visible l" by (simp add: Let_def)
  have p: "itemPool ?lm = (if map_of (visible l) id' = None then old # itemPool l else itemPool l)"
    by (simp add: Let_def Release_def)
  from "2.prems" have o: "old \<notin> set (itemPool l)" "old \<notin> snd ` set rest" "distinct (map snd rest)"
    "snd ` set rest \<inter> set (itemPool l) = {}"
    by auto
  have d: "distinct (itemPool ?lm)" using "2.prems"(2) o(1) p by simp
  have i: "snd ` set rest \<inter> set (itemPool ?lm) = {}" using o(2,4) p by auto
  from "2.IH"[OF o(3) d i] have
    "distinct (itemPool (releaseOld rest focused ?lm))"
    "set (itemPool (releaseOld rest focused ?lm))
         = set (itemPool ?lm) \<union> {a. \<exists>k. (k, a) \<in> set rest \<and> map_of (visible l) k = None}"
    using v by simp_all
  moreover have "releaseOld ((id', old) # rest) focused l = releaseOld rest focused ?lm" by simp
  ultimately show ?case using p by auto
qed

lemma map_snd_rowsFrom [simp]: "map snd (rowsFrom row cs) = cs"
  by (induction cs arbitrary: row) simp_all

lemma snd_set_rowsFrom [simp]: "snd ` set (rowsFrom row cs) = set cs"
  using map_snd_rowsFrom[of row cs] by (metis set_map)

lemma setup_rows [simp]:
  "rowTop (setupListItem a i f l) b = rowTop l b" "rowBottom (setupListItem a i f l) b = rowBottom l b"
  by (simp_all add: setupListItem_def Let_def rowTop_def rowBottom_def)

lemma setupAll_rows [simp]:
  "rowTop (setupAll v f l) b = rowTop l b" "rowBottom (setupAll v f l) b = rowBottom l b"
  by (induction v f l rule: setupAll.induct) simp_all

text \<open>What \<open>updateSeparators\<close> leaves at index 0 and at the other indices.\<close>

lemma updateSeparators_first:
  assumes "separators (updateSeparators l) \<noteq> []"
  shows "separators (updateSeparators l) ! 0
     = (if separators l = [] then NewSeparator else separators l ! 0)"
proof -
  define seps where "seps =
          (if length (children l) > 1 then
             (if length (separators l) > length (children l)
              then take (length (children l)) (separators l)
              else separators l @ replicate (length (children l) - length (separators l)) NewSeparator)
           else [])"
  have e: "separators (updateSeparators l) = placeSeparators l (theme_SeparatorThicknessSize l)
      ((theme_Padding l + theme_SeparatorThicknessSize l) / 2) 0 (children l) seps"
    by (simp add: updateSeparators_def Let_def seps_def)
  from assms have "length (separators (updateSeparators l)) \<noteq> 0" by simp
  then have n: "0 < length seps" unfolding e by simp
  then have "separators (updateSeparators l) ! 0 = seps ! 0"
    unfolding e by (simp add: placeSeparators_nth)
  moreover have "seps ! 0 = (if separators l = [] then NewSeparator else separators l ! 0)"
    using n by (auto simp: seps_def nth_append split: if_splits)
  ultimately show ?thesis by simp
qed

lemma placedSeparator_facts:
  "\<not> sep_hidden (placedSeparator l c)"
  "Height (sep_size (placedSeparator l c)) = theme_SeparatorThicknessSize l"
  "separatorCentre (placedSeparator l c) = rowTop l c - theme_Padding l / 2"
  by (simp_all add: placedSeparator_def separatorCentre_def rowTop_def NewSize_def NewPos_def field_simps)

lemma updateList_returns:
  assumes "updateList r l = Inr l'"
  shows "\<exists>hs offY minRow. visibleItemHeights l (Height (itemMin l)) (listLength l) = Inr (hs, offY, minRow)"
proof (cases "visibleItemHeights l (Height (itemMin l)) (listLength l)")
  case (Inl e)
  define l0 where "l0 = (if \<not> UpdateItem l then l\<lparr>trace := trace l @ [LogError]\<rparr> else l)"
  have "facade l0 = facade l" "itemMin l0 = itemMin l" by (simp_all add: l0_def)
  with Inl have "visibleItemHeights l0 (Height (itemMin l0)) (listLength l) = Inl e"
    using visibleItemHeights_facade[of l0 l] by simp
  then have "updateList r l = Inl e" by (simp add: updateList_def Let_def l0_def)
  with assms show ?thesis by simp
next
  case (Inr x)
  then show ?thesis by (cases x) auto
qed


text \<open>The pass as a whole keeps the layout in step.\<close>

lemma trace_kept [simp]:
  "viewsApart (l\<lparr>trace := t\<rparr>) = viewsApart l"
  "separatorsInStep (l\<lparr>trace := t\<rparr>) = separatorsInStep l"
  by (simp_all add: viewsApart_def separatorsInStep_def rowTop_def rowBottom_def)

lemma updateList_keeps_layout:
  assumes "viewsApart l" and "separatorsInStep l" and "updateList r l = Inr l'"
  shows "viewsApart l' \<and> separatorsInStep l'"
proof -
  from updateList_returns[OF assms(3)] obtain hs offY minRow where
    vis: "visibleItemHeights l (Height (itemMin l)) (listLength l) = Inr (hs, offY, minRow)"
    by blast
  show ?thesis
  proof (cases "hs = [] \<and> listLength l > 0")
    case True
    with vis have "visibleItemHeights l (Height (itemMin l)) (listLength l) = Inr ([], offY, minRow)"
      and "listLength l > 0" by simp_all
    from updateList_abort[OF this, of r] assms(3)
    have "l' = (if UpdateItem l then l else l\<lparr>trace := trace l @ [LogError]\<rparr>)" by simp
    with assms(1,2) show ?thesis by simp
  next
    case False
    from updateList_complete[OF assms(3) vis False] obtain l0 l1 v cells l5 where
      l0: "l0 = (if \<not> UpdateItem l then l\<lparr>trace := trace l @ [LogError]\<rparr> else l)"
      and m: "mountRows (visible l) (Width (widget_size l)) (theme_Padding l) minRow hs (l0, [], [], offY)
        = Inr (l1, v, cells)"
      and p: "publish (updateSeparators ((releaseOld (visible l) (canvas_Focused l1) (l1\<lparr>visible := v\<rparr>))
          \<lparr>children := cells\<rparr>)) = Inr l5"
      and l': "l' = setupAll v (canvas_Focused l1) l5"
      by blast
    let ?l2 = "l1\<lparr>visible := v\<rparr>"
    let ?l3 = "releaseOld (visible l) (canvas_Focused l1) ?l2"
    let ?l3c = "?l3\<lparr>children := cells\<rparr>"
    have l0f: "itemPool l0 = itemPool l" "next_item l0 = next_item l" "separators l0 = separators l"
      by (simp_all add: l0)
    have init: "mounting (visible l) (theme_Padding l) minRow l0 [] [] offY"
      using assms(1) l0f by (auto simp: mounting_def viewsApart_def stacked_def)
    from mountRows_mounting[OF m init] obtain row' y' where
      mt: "mounting (visible l) (theme_Padding l) row' l1 v cells y'"
      and keep: "separators l1 = separators l0"
      by blast
    from mountRows_shape[OF m] have sh: "v = rowsFrom minRow cells" by auto
    from mt have d: "distinct (map snd (visible l))" "distinct (itemPool l1)" "distinct cells"
      "set cells \<inter> set (itemPool l1) = {}" "snd ` set (visible l) \<inter> set (itemPool l1) = {}"
      "\<forall>a \<in> snd ` set (visible l) \<union> set (itemPool l1) \<union> set cells. a < next_item l1"
      "\<forall>(k, a) \<in> set (visible l). a \<in> set cells \<longrightarrow> k \<in> fst ` set v"
      "stacked l1 (theme_Padding l) cells"
      by (simp_all add: mounting_def)
    from releaseOld_pool[of "visible l" ?l2 "canvas_Focused l1"] d(1,2,5)
    have pool: "distinct (itemPool ?l3)"
      "set (itemPool ?l3) = set (itemPool l1) \<union> {a. \<exists>k. (k, a) \<in> set (visible l) \<and> map_of v k = None}"
      by simp_all
    from updateList_layout[OF p, of v "canvas_Focused l1"] l' releaseOld_facade[of "visible l" "canvas_Focused l1" ?l2]
    have lay: "visible l' = v" "children l' = cells" "itemPool l' = itemPool ?l3"
      "next_item l' = next_item l1"
      by simp_all
    have disj: "set cells \<inter> set (itemPool ?l3) = {}"
    proof -
      have False if a: "a \<in> set cells" "a \<in> set (itemPool ?l3)" for a
      proof -
        from a(1) d(4) have "a \<notin> set (itemPool l1)" by auto
        with a(2) pool(2) obtain k where k: "(k, a) \<in> set (visible l)" "map_of v k = None" by auto
        from k(1) a(1) d(7) have "k \<in> fst ` set v" by auto
        then have "map_of v k \<noteq> None" by (simp add: map_of_eq_None_iff)
        with k(2) show False by simp
      qed
      then show ?thesis by auto
    qed
    have lt: "\<forall>a \<in> set cells \<union> set (itemPool ?l3). a < next_item l1"
    proof
      fix a assume "a \<in> set cells \<union> set (itemPool ?l3)"
      with pool(2) have "a \<in> snd ` set (visible l) \<union> set (itemPool l1) \<union> set cells" by force
      with d(6) show "a < next_item l1" by blast
    qed
    have VA: "viewsApart l'"
      unfolding viewsApart_def using lay sh d(3) pool(1) disj lt by simp
    have fc: "facade l' = facade l" using updateList_facade_trace[OF assms(3)] by simp
    have th: "theme_Padding l' = theme_Padding l"
      "theme_SeparatorThicknessSize l' = theme_SeparatorThicknessSize l"
      using facade_fields(11,12)[OF fc] by simp_all
    have f3: "facade ?l3c = facade l'"
      using publish_facade[OF p] setupAll_facade[of v "canvas_Focused l1" l5] l' by simp
    have th3: "theme_Padding ?l3c = theme_Padding l"
      "theme_SeparatorThicknessSize ?l3c = theme_SeparatorThicknessSize l"
      using facade_fields(11,12)[OF f3] th by simp_all
    have rows3: "rowTop ?l3c a = rowTop l1 a \<and> rowBottom ?l3c a = rowBottom l1 a" for a
    proof -
      have "rowTop ?l3c a = rowTop ?l3 a" "rowBottom ?l3c a = rowBottom ?l3 a"
        by (simp_all add: rowTop_def rowBottom_def)
      moreover have "rowTop ?l2 a = rowTop l1 a" "rowBottom ?l2 a = rowBottom l1 a"
        by (simp_all add: rowTop_def rowBottom_def)
      ultimately show ?thesis by simp
    qed
    have rows: "rowTop l' a = rowTop l1 a \<and> rowBottom l' a = rowBottom l1 a" for a
    proof -
      have "items l5 = items ?l3c" using publish_facade[OF p] by simp
      then have "rowTop l5 a = rowTop ?l3c a" "rowBottom l5 a = rowBottom ?l3c a"
        by (simp_all add: rowTop_def rowBottom_def)
      with rows3[of a] l' show ?thesis by simp
    qed
    have sp: "separators l' = separators (updateSeparators ?l3c)"
      using publish_facade[OF p] setupAll_facade[of v "canvas_Focused l1" l5] l' by simp
    have old: "separators ?l3c = separators l" using keep l0f by simp
    from updateSeparators_result[of ?l3c] have
      n: "length (separators (updateSeparators ?l3c)) = (if length cells > 1 then length cells else 0)"
      and at: "\<forall>i. 1 \<le> i \<and> i < length cells \<longrightarrow>
        separators (updateSeparators ?l3c) ! i = placedSeparator ?l3c (cells ! i)"
      by simp_all
    have A: "length (separators l') = (if length (children l') > 1 then length (children l') else 0)"
      using sp n lay(2) by simp
    have B: "separators l' \<noteq> [] \<longrightarrow> separators l' ! 0 = NewSeparator"
    proof
      assume "separators l' \<noteq> []"
      with sp have "separators (updateSeparators ?l3c) \<noteq> []" by simp
      from updateSeparators_first[OF this] old
      have "separators l' ! 0 = (if separators l = [] then NewSeparator else separators l ! 0)"
        using sp by simp
      with assms(2) show "separators l' ! 0 = NewSeparator" by (simp add: separatorsInStep_def)
    qed
    have C: "\<forall>i. 1 \<le> i \<and> i < length (children l') \<longrightarrow>
            \<not> sep_hidden (separators l' ! i)
          \<and> Height (sep_size (separators l' ! i)) = theme_SeparatorThicknessSize l'
          \<and> rowTop l' (children l' ! i) = rowBottom l' (children l' ! (i - 1)) + theme_Padding l'
          \<and> separatorCentre (separators l' ! i)
              = (rowBottom l' (children l' ! (i - 1)) + rowTop l' (children l' ! i)) / 2"
    proof (intro allI impI)
      fix i assume "1 \<le> i \<and> i < length (children l')"
      then have i: "1 \<le> i \<and> i < length cells" using lay(2) by simp
      with at sp have e: "separators l' ! i = placedSeparator ?l3c (cells ! i)" by simp
      from d(8) i have st: "rowTop l1 (cells ! i) = rowBottom l1 (cells ! (i - 1)) + theme_Padding l"
        by (simp add: stacked_def)
      have c: "separatorCentre (separators l' ! i) = rowTop l1 (cells ! i) - theme_Padding l / 2"
        unfolding e using placedSeparator_facts(3)[of ?l3c "cells ! i"] rows3[of "cells ! i"] th3
        by simp
      have h: "\<not> sep_hidden (separators l' ! i)"
        "Height (sep_size (separators l' ! i)) = theme_SeparatorThicknessSize l'"
        unfolding e using placedSeparator_facts(1,2)[of ?l3c "cells ! i"] th3 th by simp_all
      from st c h rows[of "cells ! i"] rows[of "cells ! (i - 1)"] th lay(2)
      show "\<not> sep_hidden (separators l' ! i)
          \<and> Height (sep_size (separators l' ! i)) = theme_SeparatorThicknessSize l'
          \<and> rowTop l' (children l' ! i) = rowBottom l' (children l' ! (i - 1)) + theme_Padding l'
          \<and> separatorCentre (separators l' ! i)
              = (rowBottom l' (children l' ! (i - 1)) + rowTop l' (children l' ! i)) / 2"
        by simp
    qed
    from A B C have "separatorsInStep l'" unfolding separatorsInStep_def by blast
    with VA show ?thesis by simp
  qed
qed


text \<open>So does every operation, and the layout of a new list is in step.\<close>

lemma rows_updates [simp]:
  "rowTop (l\<lparr>trace := t\<rparr>) c = rowTop l c" "rowBottom (l\<lparr>trace := t\<rparr>) c = rowBottom l c"
  "rowTop (l\<lparr>selected := sel\<rparr>) c = rowTop l c" "rowBottom (l\<lparr>selected := sel\<rparr>) c = rowBottom l c"
  "rowTop (l\<lparr>offsetY := y\<rparr>) c = rowTop l c" "rowBottom (l\<lparr>offsetY := y\<rparr>) c = rowBottom l c"
  "rowTop (l\<lparr>scroller := sc\<rparr>) c = rowTop l c" "rowBottom (l\<lparr>scroller := sc\<rparr>) c = rowBottom l c"
  "rowTop (l\<lparr>widget_size := sz\<rparr>) c = rowTop l c" "rowBottom (l\<lparr>widget_size := sz\<rparr>) c = rowBottom l c"
  "rowTop (l\<lparr>itemMin := m\<rparr>) c = rowTop l c" "rowBottom (l\<lparr>itemMin := m\<rparr>) c = rowBottom l c"
  "rowTop (l\<lparr>itemHeights := hs\<rparr>) c = rowTop l c" "rowBottom (l\<lparr>itemHeights := hs\<rparr>) c = rowBottom l c"
  "rowTop (l\<lparr>items := (items l)(a := (items l a)\<lparr>item_selected := b\<rparr>)\<rparr>) c = rowTop l c"
  "rowBottom (l\<lparr>items := (items l)(a := (items l a)\<lparr>item_selected := b\<rparr>)\<rparr>) c = rowBottom l c"
  by (simp_all add: rowTop_def rowBottom_def)

lemma inStep_updates [simp]:
  "inStep (l\<lparr>trace := t\<rparr>) = inStep l" "inStep (l\<lparr>selected := sel\<rparr>) = inStep l"
  "inStep (l\<lparr>offsetY := y\<rparr>) = inStep l" "inStep (l\<lparr>scroller := sc\<rparr>) = inStep l"
  "inStep (l\<lparr>widget_size := sz\<rparr>) = inStep l" "inStep (l\<lparr>itemMin := m\<rparr>) = inStep l"
  "inStep (l\<lparr>itemHeights := hs\<rparr>) = inStep l"
  "inStep (l\<lparr>items := (items l)(a := (items l a)\<lparr>item_selected := b\<rparr>)\<rparr>) = inStep l"
  by (simp_all add: inStep_def viewsApart_def separatorsInStep_def)

lemma updateList_inStep: "inStep l \<Longrightarrow> updateList r l = Inr l' \<Longrightarrow> inStep l'"
  using updateList_keeps_layout[of l r l'] by (simp add: inStep_def)

lemma offsetUpdated_inStep: "inStep l \<Longrightarrow> offsetUpdated p l = Inr l' \<Longrightarrow> inStep l'"
  using updateList_inStep[of "l\<lparr>offsetY := Y p\<rparr>" False l']
  by (auto simp: offsetUpdated_def split: if_splits)

lemma scrollTo_inStep:
  assumes "inStep l" and "scrollTo i l = Inr l'"
  shows "inStep l'"
proof (cases "scroller l")
  case None
  with assms show ?thesis by (simp add: scrollTo_def)
next
  case (Some sc)
  with assms(2) obtain sc1 where "offsetUpdated (Offset sc1) (l\<lparr>scroller := Some sc1\<rparr>) = Inr l'"
    by (simp add: scrollTo_def Let_def)
  from offsetUpdated_inStep[OF _ this] assms(1) show ?thesis by simp
qed

lemma listRenderer_Refresh_inStep:
  assumes "inStep l" and "listRenderer_Refresh l = Inr l'"
  shows "inStep l'"
proof -
  define l1 where "l1 = (case CreateItem l of None \<Rightarrow> l | Some m \<Rightarrow> l\<lparr>itemMin := m\<rparr>)"
  define l2 where "l2 = listRenderer_Layout (widget_size l1) l1"
  have "inStep l1" using assms(1) by (simp add: l1_def split: option.splits)
  then have i2: "inStep l2" by (simp add: l2_def listRenderer_Layout_def)
  from assms(2) obtain l3 where u: "updateList True l2 = Inr l3"
    and r: "l' = l3\<lparr>trace := trace l3 @ [CanvasRefreshed]\<rparr>"
    by (auto simp: listRenderer_Refresh_def Let_def l1_def l2_def split: sum.splits)
  from updateList_inStep[OF i2 u] r show ?thesis by simp
qed

lemma Refresh_inStep:
  assumes "inStep l" and "Refresh l = Inr l'"
  shows "inStep l'"
proof (cases "scroller l")
  case None
  with assms show ?thesis by (auto simp: Refresh_def Let_def)
next
  case (Some sc)
  with assms(2) have "listRenderer_Refresh (l\<lparr>trace := trace l @ [RefreshCalled]\<rparr>) = Inr l'"
    by (simp add: Refresh_def Let_def)
  from listRenderer_Refresh_inStep[OF _ this] assms(1) show ?thesis by simp
qed

lemma scrollThenRefresh_inStep:
  assumes "inStep l" and "scrollThenRefresh i l = Inr l'"
  shows "inStep l'"
proof -
  from assms(2) obtain l1 where s: "scrollTo i l = Inr l1" and r: "Refresh l1 = Inr l'"
    by (auto simp: scrollThenRefresh_def split: sum.splits)
  from Refresh_inStep[OF scrollTo_inStep[OF assms(1) s] r] show ?thesis .
qed

lemma selectCallbacks_inStep [simp]: "inStep (selectCallbacks old i l) = inStep l"
  by (simp add: selectCallbacks_def Let_def)

lemma Select_inStep:
  assumes "inStep l" and "Select i l = Inr l'"
  shows "inStep l'"
proof (cases "(selected l \<noteq> [] \<and> i = hd (selected l)) \<or> (i < 0 \<or> i \<ge> listLength l)")
  case True
  with assms show ?thesis by (auto simp: Select_def split: if_splits)
next
  case False
  with assms(2) obtain l2 where s: "scrollThenRefresh i (l\<lparr>selected := [i]\<rparr>) = Inr l2"
    and r: "l' = selectCallbacks (selected l) i l2"
    by (auto simp: Select_def Let_def split: sum.splits)
  from scrollThenRefresh_inStep[OF _ s] assms(1) r show ?thesis by simp
qed

lemma Unselect_inStep:
  assumes "inStep l" and "Unselect i l = Inr l'"
  shows "inStep l'"
proof (cases "selected l = [] \<or> hd (selected l) \<noteq> i")
  case True
  with assms show ?thesis by (auto simp: Unselect_def)
next
  case False
  with assms(2) obtain l1 where s: "Refresh (l\<lparr>selected := []\<rparr>) = Inr l1"
    and r: "l' = (if OnUnselected l1 then l1\<lparr>trace := trace l1 @ [OnUnselectedCalled i]\<rparr> else l1)"
    by (auto simp: Unselect_def split: sum.splits)
  from Refresh_inStep[OF _ s] assms(1) r show ?thesis by simp
qed

lemma UnselectAll_inStep:
  assumes "inStep l" and "UnselectAll l = Inr l'"
  shows "inStep l'"
proof (cases "selected l = []")
  case True
  with assms show ?thesis by (auto simp: UnselectAll_def)
next
  case False
  with assms(2) obtain l1 where s: "Refresh (l\<lparr>selected := []\<rparr>) = Inr l1"
    and r: "l' = (if OnUnselected l1
                then l1\<lparr>trace := trace l1 @ map OnUnselectedCalled (selected l)\<rparr> else l1)"
    by (auto simp: UnselectAll_def split: sum.splits)
  from Refresh_inStep[OF _ s] assms(1) r show ?thesis by simp
qed

lemma SetItemHeight_inStep:
  assumes "inStep l" and "SetItemHeight i h l = Inr l'"
  shows "inStep l'"
proof (cases "heightOf (itemHeights l) 0 i \<noteq> h")
  case True
  with assms(2) have "Refresh (l\<lparr>itemHeights := AList.update i h (itemHeights l)\<rparr>) = Inr l'"
    by (simp add: SetItemHeight_def Let_def)
  from Refresh_inStep[OF _ this] assms(1) show ?thesis by simp
next
  case False
  with assms show ?thesis by (auto simp: SetItemHeight_def Let_def)
qed

lemma Resize_inStep:
  assumes "inStep l" and "Resize s l = Inr l'"
  shows "inStep l'"
proof -
  let ?l1 = "BaseWidget_Resize s l"
  have i1: "inStep ?l1" using assms(1) by (simp add: BaseWidget_Resize_def listRenderer_Layout_def)
  show ?thesis
  proof (cases "scroller ?l1")
    case None
    with assms(2) i1 show ?thesis by (simp add: Resize_def Let_def)
  next
    case (Some sc)
    with assms(2) obtain l2 where o: "offsetUpdated (Offset sc) ?l1 = Inr l2"
      and u: "updateList True l2 = Inr l'"
      by (auto simp: Resize_def Let_def split: sum.splits)
    from updateList_inStep[OF offsetUpdated_inStep[OF i1 o] u] show ?thesis .
  qed
qed

lemma Tapped_inStep:
  assumes "inStep l" and "Tapped a l = Inr l'"
  shows "inStep l'"
proof (cases "onTapped (items l a)")
  case None
  with assms show ?thesis by (simp add: Tapped_def)
next
  case (Some i)
  with assms(2) have "Select i (l\<lparr>items := (items l)(a := (items l a)\<lparr>item_selected := True\<rparr>)\<rparr>) = Inr l'"
    by (simp add: Tapped_def)
  from Select_inStep[OF _ this] assms(1) show ?thesis by simp
qed

lemma Scrolled_inStep:
  assumes "inStep l" and "Scrolled p l = Inr l'"
  shows "inStep l'"
proof (cases "scroller l")
  case None
  with assms show ?thesis by (simp add: Scrolled_def)
next
  case (Some sc)
  with assms(2) have "offsetUpdated p (l\<lparr>scroller := Some (sc\<lparr>Offset := p\<rparr>)\<rparr>) = Inr l'"
    by (simp add: Scrolled_def)
  from offsetUpdated_inStep[OF _ this] assms(1) show ?thesis by simp
qed

lemma CreateRenderer_inStep:
  assumes "CreateRenderer l = Inr l'"
  shows "inStep l'"
proof -
  define l1 where "l1 = (case CreateItem l of
                None \<Rightarrow> l
              | Some m \<Rightarrow> if itemMin l = NewSize 0 0 then l\<lparr>itemMin := m\<rparr> else l)"
  define l2 where "l2 = l1\<lparr>scroller := Some \<lparr>Offset = NewPos 0 0, scroll_size = NewSize 0 0, Objects = []\<rparr>,
               separators := [], children := [], itemPool := [], visible := []\<rparr>"
  have i2: "inStep l2"
    by (simp add: l2_def inStep_def viewsApart_def separatorsInStep_def)
  from assms have "l' = l2 \<or> updateList True l2 = Inr l'"
    by (auto simp: CreateRenderer_def Let_def l1_def l2_def split: if_splits)
  with i2 updateList_inStep[OF i2] show ?thesis by auto
qed

lemma NewList_inStep: "inStep (NewList n c u p t cv)"
  by (simp add: NewList_def inStep_def viewsApart_def separatorsInStep_def)

lemma perform_inStep:
  assumes "inStep l" and "perform op l = Inr l'"
  shows "inStep l'"
proof (cases op)
  case (OpSelect i)
  with assms Select_inStep show ?thesis by auto
next
  case (OpUnselect i)
  with assms Unselect_inStep show ?thesis by auto
next
  case OpUnselectAll
  with assms UnselectAll_inStep show ?thesis by auto
next
  case (OpScrollTo i)
  with assms scrollThenRefresh_inStep[of l i l'] show ?thesis
    by (auto simp: ScrollTo_def split: if_splits)
next
  case OpScrollToTop
  with assms scrollThenRefresh_inStep[of l 0 l'] show ?thesis by (auto simp: ScrollToTop_def)
next
  case OpScrollToBottom
  with assms scrollThenRefresh_inStep[of l _ l'] show ?thesis
    by (auto simp: ScrollToBottom_def Let_def)
next
  case (OpSetItemHeight i h)
  with assms SetItemHeight_inStep show ?thesis by auto
next
  case (OpResize s)
  with assms Resize_inStep show ?thesis by auto
next
  case OpRefresh
  with assms Refresh_inStep show ?thesis by auto
next
  case (OpTapped a)
  with assms Tapped_inStep show ?thesis by auto
next
  case (OpScrolled p)
  with assms Scrolled_inStep show ?thesis by auto
next
  case OpCreateRenderer
  with assms CreateRenderer_inStep show ?thesis by auto
qed

lemma performAll_inStep:
  "inStep l \<Longrightarrow> performAll ops l = Inr l' \<Longrightarrow> inStep l'"
proof (induction ops arbitrary: l)
  case Nil
  then show ?case by simp
next
  case (Cons op ops)
  from Cons.prems(2) obtain l1 where p: "perform op l = Inr l1" and r: "performAll ops l1 = Inr l'"
    by (auto split: sum.splits)
  from Cons.IH[OF perform_inStep[OF Cons.prems(1) p] r] show ?case .
qed





text \<open>Hence the layout is in step after any run of operations on a new list.\<close>

lemma reachable_inStep:
  "performAll ops (NewList n c u p t cv) = Inr l \<Longrightarrow> inStep l"
  using performAll_inStep[OF NewList_inStep] .


subsection \<open>The visible range on the uniform path\<close>

text \<open>
  The uniform path in closed form: with the offset \<open>k\<close> rows down, the rows returned start
  at \<open>k\<close> and end before \<open>k + ceil(H / p)\<close>, both clamped to the list; the offset itself
  enters only through \<open>k\<close>.
\<close>

lemma clamp_rows:
  fixes k e n :: int and y h :: real
  shows "(let minRow1 = (if k > n - 1 then n - 1 else k);
              (minRow2, offY2) = (if minRow1 < 0 then (0, 0) else (minRow1, y));
              maxRow1 = (if e > n then n else e)
          in if maxRow1 - minRow2 < 0 then Inl MakeSliceLenOutOfRange
             else Inr (replicate (nat (maxRow1 - minRow2)) h, offY2, minRow2))
       = (let minRow = max 0 (min (n - 1) k);
              maxRow = min n e
          in if maxRow - minRow < 0 then Inl MakeSliceLenOutOfRange
             else Inr (replicate (nat (maxRow - minRow)) h,
                       if min (n - 1) k < 0 then 0 else y, minRow))"
proof -
  have m1: "(if k > n - 1 then n - 1 else k) = min (n - 1) k" by (simp add: min_def)
  have m2: "(if e > n then n else e) = min n e" by (simp add: min_def)
  have m3: "(if min (n - 1) k < 0 then (0, 0) else (min (n - 1) k, y))
            = (max 0 (min (n - 1) k), if min (n - 1) k < 0 then 0 else y)"
    by (simp add: max_def min_def)
  show ?thesis by (simp only: m1 m2 m3 Let_def prod.case)
qed

lemma uniform_path:
  fixes itemHeight :: real
  assumes "scroller l = Some sc" and "0 < Height (scroll_size sc)" and "itemHeights l = []"
    and "itemHeight + theme_Padding l \<noteq> 0"
  shows "visibleItemHeights l itemHeight n =
    (let p = itemHeight + theme_Padding l;
         k = \<lfloor>offsetY l / p\<rfloor>;
         minRow = max 0 (min (n - 1) k);
         maxRow = min n (k + \<lceil>Height (scroll_size sc) / p\<rceil>)
     in if maxRow - minRow < 0 then Inl MakeSliceLenOutOfRange
        else Inr (replicate (nat (maxRow - minRow)) itemHeight,
                  if min (n - 1) k < 0 then 0 else of_int k * p, minRow))"
proof -
  let ?p = "itemHeight + theme_Padding l"
  let ?k = "\<lfloor>offsetY l / ?p\<rfloor>"
  let ?e = "?k + \<lceil>Height (scroll_size sc) / ?p\<rceil>"
  have a: "\<lfloor>of_int ?k * ?p / ?p\<rfloor> = ?k" using assms(4) by simp
  have "(of_int ?k * ?p + Height (scroll_size sc)) / ?p = of_int ?k + Height (scroll_size sc) / ?p"
    using assms(4) by (simp add: field_simps)
  then have b: "\<lceil>(of_int ?k * ?p + Height (scroll_size sc)) / ?p\<rceil> = ?e"
    by (simp add: ceiling_add_of_int add.commute)
  have nz: "(?p = 0) = False" "(Height (scroll_size sc) \<le> 0) = False"
    using assms(2,4) by simp_all
  show ?thesis
    apply (simp only: visibleItemHeights_def assms(1) assms(3) option.case Let_def a b nz
        if_False if_True simp_thms)
    apply (rule clamp_rows[unfolded Let_def])
    done
qed

text \<open>
  Claim C1 at an input where the code does not do what the claim says. The list of 100 rows of
  height 20 with padding 1 is shown in a viewport of height 50 and scrolled to offset 20, with
  no height override. The viewport is \<open>[20, 70)\<close>; row 3 lies at \<open>[63, 83)\<close> and intersects
  it. The computation returns three heights from row 0 on, that is the rows 0, 1 and 2: the row
  count is taken from the offset rounded down to a row boundary, not from the offset itself.
\<close>

theorem visible_range_misses_row:
  "Scrolled (NewPos 0 20) demoRendered = Inr demoScrolled
   \<and> visibleItemHeights demoScrolled (Height (itemMin demoScrolled)) (listLength demoScrolled)
       = Inr ([20, 20, 20], 0, 0)
   \<and> rowInViewport demoScrolled 3
   \<and> \<not> (0 \<le> (3::int) \<and> (3::int) < 0 + int (length [20, 20, 20 :: real]))"
  using run_Scrolled
  by (simp add: visibleItemHeights_def rowInViewport_def scrollToY_def heightOf_def listLength_def
      demoScrolled_fields NewSize_def eval_nat_numeral)

text \<open>
  Claim C2 at the same input. The start index is \<open>floor(20 / 21) = 0\<close> as the claim says,
  but the claim's end index is \<open>ceil((20 + 50) / 21) = 4\<close>, which would give four entries,
  and the code returns three.
\<close>

theorem uniform_end_index_differs:
  "visibleItemHeights demoScrolled (Height (itemMin demoScrolled)) (listLength demoScrolled)
       = Inr (replicate 3 20, 0, 0)
   \<and> \<lfloor>offsetY demoScrolled / (20 + 1)\<rfloor> = 0
   \<and> min (listLength demoScrolled) \<lceil>(offsetY demoScrolled + 50) / (20 + 1)\<rceil> = 4"
  by (simp add: visibleItemHeights_def listLength_def demoScrolled_fields NewSize_def
      eval_nat_numeral)

subsection \<open>Scrolling to a row with a height override\<close>

text \<open>
  \<open>scrollTo\<close> changes the offset of the scroller and the fields a pass writes, nothing else.
\<close>

lemma offsetUpdated_facade:
  assumes "offsetUpdated p l = Inr l'"
  shows "facade l' = facade (l\<lparr>offsetY := Y p\<rparr>)"
proof (cases "offsetY l = Y p")
  case True
  with assms have "l' = l" by (simp add: offsetUpdated_def)
  with True show ?thesis by (simp add: facade_def)
next
  case False
  with assms have "updateList False (l\<lparr>offsetY := Y p\<rparr>) = Inr l'"
    by (simp add: offsetUpdated_def)
  from updateList_facade_trace[OF this] show ?thesis by simp
qed

lemma scrollToY_facade: "facade l' = facade l \<Longrightarrow> scrollToY l' i = scrollToY l i"
  using facade_fields(8,9,11)[of l' l] by (simp add: scrollToY_def Let_def)

lemma scrollToY_offsetY [simp]: "scrollToY (l\<lparr>offsetY := y\<rparr>) i = scrollToY l i"
  by (simp add: scrollToY_def Let_def)

lemma scrollToY_scroller [simp]: "scrollToY (l\<lparr>scroller := s\<rparr>) i = scrollToY l i"
  by (simp add: scrollToY_def Let_def)

text \<open>Where \<open>scrollTo\<close> leaves the offset of the scroller.\<close>

lemma scrollTo_offset:
  assumes "scrollTo i l = Inr l'" and "scroller l = Some sc"
  shows "\<exists>sc'. scroller l' = Some sc' \<and> scroll_size sc' = scroll_size sc
     \<and> Y (Offset sc') =
         (if scrollToY l i < Y (Offset sc) then scrollToY l i
          else if scrollToY l i + Height (itemMin l) > Y (Offset sc) + Height (scroll_size sc)
          then scrollToY l i + Height (itemMin l) - Height (scroll_size sc)
          else Y (Offset sc))
     \<and> offsetY l' = Y (Offset sc')
     \<and> scrollToY l' i = scrollToY l i \<and> itemHeights l' = itemHeights l \<and> itemMin l' = itemMin l"
proof -
  define sc1 where "sc1 =
    (if scrollToY l i < Y (Offset sc) then sc\<lparr>Offset := (Offset sc)\<lparr>Y := scrollToY l i\<rparr>\<rparr>
     else if scrollToY l i + Height (itemMin l) > Y (Offset sc) + Height (scroll_size sc)
     then sc\<lparr>Offset := (Offset sc)\<lparr>Y := scrollToY l i + Height (itemMin l) - Height (scroll_size sc)\<rparr>\<rparr>
     else sc)"
  from assms have o: "offsetUpdated (Offset sc1) (l\<lparr>scroller := Some sc1\<rparr>) = Inr l'"
    by (simp add: scrollTo_def Let_def sc1_def)
  let ?l1 = "l\<lparr>scroller := Some sc1, offsetY := Y (Offset sc1)\<rparr>"
  from offsetUpdated_facade[OF o] have f: "facade l' = facade ?l1" by simp
  from facade_fields(14)[OF f] obtain sc' where sc': "scroller l' = Some sc'"
    "Offset sc' = Offset sc1" "scroll_size sc' = scroll_size sc1"
    by auto
  have "scrollToY l' i = scrollToY l i" using scrollToY_facade[OF f] by simp
  moreover have "offsetY l' = Y (Offset sc1)" "itemHeights l' = itemHeights l" "itemMin l' = itemMin l"
    using facade_fields(8,9,10)[OF f] by simp_all
  moreover have "scroll_size sc1 = scroll_size sc" by (simp add: sc1_def)
  moreover have "Y (Offset sc1) =
         (if scrollToY l i < Y (Offset sc) then scrollToY l i
          else if scrollToY l i + Height (itemMin l) > Y (Offset sc) + Height (scroll_size sc)
          then scrollToY l i + Height (itemMin l) - Height (scroll_size sc)
          else Y (Offset sc))"
    by (simp add: sc1_def)
  ultimately show ?thesis using sc' by simp
qed

text \<open>
  A row of the template height that fits the viewport is fully visible after \<open>scrollTo\<close>.
\<close>

lemma scrollTo_template_row_visible:
  assumes "scrollTo i l = Inr l'" and "scroller l = Some sc"
    and "heightOf (itemHeights l) (Height (itemMin l)) i = Height (itemMin l)"
    and "Height (itemMin l) \<le> Height (scroll_size sc)"
  shows "rowFullyVisible l' i"
proof -
  from scrollTo_offset[OF assms(1,2)] obtain sc' where
    "scroller l' = Some sc'" "scroll_size sc' = scroll_size sc"
    "Y (Offset sc') =
         (if scrollToY l i < Y (Offset sc) then scrollToY l i
          else if scrollToY l i + Height (itemMin l) > Y (Offset sc) + Height (scroll_size sc)
          then scrollToY l i + Height (itemMin l) - Height (scroll_size sc)
          else Y (Offset sc))"
    "scrollToY l' i = scrollToY l i" "itemHeights l' = itemHeights l" "itemMin l' = itemMin l"
    by blast
  with assms(3,4) show ?thesis by (simp add: rowFullyVisible_def)
qed

text \<open>
  Claim C3 at an input where the code does not do what the claim says. Row 5 of the list above
  gets the height 40 by \<open>SetItemHeight(5, 40)\<close>; then \<open>ScrollTo(5)\<close> is called with the
  viewport of height 50 at offset 0. Row 5 starts at 105 and ends at 145. The call moves the
  offset to 75, so that the viewport is \<open>[75, 125)\<close> and the lower 20 of the row are outside:
  the new offset is computed from the template height, not from the override. The selection is
  unchanged.
\<close>

theorem scrollTo_ignores_override:
  "SetItemHeight 5 40 demoRendered = Inr demoOverride
   \<and> ScrollTo 5 demoOverride = Inr demoScrolledTo5
   \<and> scroller demoScrolledTo5
       = Some \<lparr>Offset = NewPos 0 75, scroll_size = NewSize 200 50,
                Objects = Objects (the (scroller demoScrolledTo5))\<rparr>
   \<and> scrollToY demoScrolledTo5 5 = 105
   \<and> heightOf (itemHeights demoScrolledTo5) (Height (itemMin demoScrolledTo5)) 5 = 40
   \<and> \<not> rowFullyVisible demoScrolledTo5 5
   \<and> selected demoScrolledTo5 = selected demoOverride"
  using run_SetItemHeight run_ScrollTo_5
  by (simp add: rowFullyVisible_def scrollToY_def heightOf_def demoScrolledTo5_fields
      demoOverride_fields NewSize_def NewPos_def upto.simps)

end
